(* ===== verification/Prelude.thy ===== *)
theory Prelude
  imports Complex_Main "HOL-Library.Word"
begin

text \<open>
  Shared vocabulary of the development: the byte arrays, strings and numbers of the
  JavaScript sources, thrown errors as values, the 32-bit integer view of the bitwise
  operators, and the generic lemmas the components use.

  \<^item> A \<^verbatim>\<open>Uint8Array\<close> is a list of 8-bit words; an offset or a length is a \<open>nat\<close>.
  \<^item> A \<^verbatim>\<open>string\<close> is a list of characters: code units up to \<^verbatim>\<open>0xff\<close>, which covers every
    literal, hex string, address and ticker of the sources.
  \<^item> A number that the sources use as an integer is an \<open>int\<close>; the operators
    \<^verbatim>\<open>&\<close>, \<^verbatim>\<open>|\<close>, \<^verbatim>\<open><<\<close>, \<^verbatim>\<open>>>\<close> and \<^verbatim>\<open>>>>\<close> first reduce it to a 32-bit word (\<open>toInt32\<close>).
  \<^item> \<^verbatim>\<open>throw\<close> is the left injection of \<open>error + 'a\<close>, sequencing is \<open>bindR\<close>.
\<close>

unbundle bit_operations_syntax

named_theorems result_simps \<open>elimination of the error monad in hypotheses and goals\<close>
named_theorems codec_laws \<open>readers applied to what the matching writer produced\<close>

type_synonym byte = "8 word"
type_synonym bytes = "byte list"

section \<open>Errors\<close>

text \<open>
  A thrown \<^verbatim>\<open>Error\<close> is its message, kept up to the first interpolated value.
\<close>

type_synonym error = string
type_synonym 'a result = "error + 'a"

definition bindR :: "'a result \<Rightarrow> ('a \<Rightarrow> 'b result) \<Rightarrow> 'b result" where
  "bindR m f = (case m of Inl e \<Rightarrow> Inl e | Inr x \<Rightarrow> f x)"

definition guardR :: "bool \<Rightarrow> error \<Rightarrow> unit result" where
  "guardR b e = (if b then Inl e else Inr ())"

definition mapR :: "('a \<Rightarrow> 'b) \<Rightarrow> 'a result \<Rightarrow> 'b result" where
  "mapR f m = bindR m (\<lambda>x. Inr (f x))"

text \<open>\<^verbatim>\<open>xs.map(f)\<close> with an \<open>f\<close> that may throw: the first throw ends it.\<close>

fun mapM :: "('a \<Rightarrow> 'b result) \<Rightarrow> 'a list \<Rightarrow> 'b list result" where
  "mapM f [] = Inr []"
| "mapM f (x # xs) = bindR (f x) (\<lambda>y. bindR (mapM f xs) (\<lambda>ys. Inr (y # ys)))"

lemma bindR_simps [simp, code]:
  "bindR (Inl e) f = Inl e"
  "bindR (Inr x) f = f x"
  by (simp_all add: bindR_def)

lemma bindR_eq_Inr [result_simps]: "bindR m f = Inr y \<longleftrightarrow> (\<exists>x. m = Inr x \<and> f x = Inr y)"
  by (cases m) auto

lemma bindR_assoc: "bindR (bindR m f) g = bindR m (\<lambda>x. bindR (f x) g)"
  by (cases m) auto

lemma guardR_eq_Inr [result_simps]: "guardR b e = Inr u \<longleftrightarrow> \<not> b"
  by (simp add: guardR_def)

lemma guardR_simps [simp]: "guardR True e = Inl e" "guardR False e = Inr ()"
  by (simp_all add: guardR_def)

lemma mapR_simps [simp]: "mapR f (Inl e) = Inl e" "mapR f (Inr x) = Inr (f x)"
  by (simp_all add: mapR_def)

lemma mapR_eq_Inr [result_simps]: "mapR f m = Inr y \<longleftrightarrow> (\<exists>x. m = Inr x \<and> y = f x)"
  by (cases m) auto

lemma if_eq_Inr [result_simps]:
  "(if b then Inl e else m) = Inr y \<longleftrightarrow> \<not> b \<and> m = Inr y"
  "(if b then m else Inl e) = Inr y \<longleftrightarrow> b \<and> m = Inr y"
  by auto

lemma mapM_eq_Inr: "mapM f xs = Inr ys \<longleftrightarrow> list_all2 (\<lambda>x y. f x = Inr y) xs ys"
  by (induction xs arbitrary: ys) (auto simp: result_simps list_all2_Cons1)

lemma mapM_total: "(\<And>x. x \<in> set xs \<Longrightarrow> f x = Inr (g x)) \<Longrightarrow> mapM f xs = Inr (map g xs)"
  by (induction xs) auto

lemma length_mapM: "mapM f xs = Inr ys \<Longrightarrow> length ys = length xs"
  by (auto simp: mapM_eq_Inr dest: list_all2_lengthD)

section \<open>Byte arrays\<close>

text \<open>\<^verbatim>\<open>a.slice(i, i + n)\<close>: clipped at the end of the array, as in JavaScript.\<close>

definition slice :: "'a list \<Rightarrow> nat \<Rightarrow> nat \<Rightarrow> 'a list" where
  "slice xs i n = take n (drop i xs)"

lemma length_slice: "i + n \<le> length xs \<Longrightarrow> length (slice xs i n) = n"
  by (simp add: slice_def)

lemma slice_append [simp]: "slice (pre @ xs @ post) (length pre) (length xs) = xs"
  by (simp add: slice_def)

lemma slice_append' [simp]:
  "i = length pre \<Longrightarrow> n = length xs \<Longrightarrow> slice (pre @ xs @ post) i n = xs"
  by simp

lemma nth_pre_append: "(pre @ xs) ! (length pre + i) = xs ! i"
  by (rule nth_append_length_plus)

definition last_byte :: "bytes \<Rightarrow> byte option" where
  "last_byte bs = (if bs = [] then None else Some (last bs))"

section \<open>Bitwise operators: the 32-bit view\<close>

text \<open>
  \<^verbatim>\<open>ToInt32\<close> keeps the low 32 bits. \<^verbatim>\<open>>>\<close> is \<open>signed_drop_bit\<close>, \<^verbatim>\<open>>>>\<close> is \<open>drop_bit\<close>; storing
  into a \<^verbatim>\<open>Uint8Array\<close> keeps the low 8 bits.
\<close>

definition toInt32 :: "int \<Rightarrow> 32 word" where
  "toInt32 n = of_int n"

definition join16 :: "byte \<Rightarrow> byte \<Rightarrow> 32 word" where
  "join16 a b = ucast a OR push_bit 8 (ucast b)"

definition join32 :: "byte \<Rightarrow> byte \<Rightarrow> byte \<Rightarrow> byte \<Rightarrow> 32 word" where
  "join32 a b c d = ucast a OR push_bit 8 (ucast b) OR push_bit 16 (ucast c) OR push_bit 24 (ucast d)"

definition split32 :: "32 word \<Rightarrow> bytes" where
  "split32 w = [ucast (w AND 0xff), ucast (signed_drop_bit 8 w AND 0xff),
                ucast (signed_drop_bit 16 w AND 0xff), ucast (drop_bit 24 w AND 0xff)]"

definition split16 :: "32 word \<Rightarrow> bytes" where
  "split16 w = [ucast (w AND 0xff), ucast (signed_drop_bit 8 w AND 0xff)]"

lemma mask8_32: "(0xff :: 32 word) = mask 8"
  by (simp add: mask_eq_exp_minus_1)

lemma unat_byte_less: "unat (b :: byte) < 256"
  using unsigned_less [of b, where ?'a = nat] by simp

lemma uint_byte_less: "uint (b :: byte) < 256"
  using unsigned_less [of b, where ?'a = int] by simp

lemma unat_of_nat8: "n < 256 \<Longrightarrow> unat (of_nat n :: byte) = n"
  by (simp add: unat_of_nat take_bit_nat_eq_self)

lemma byte_exhaust: "list_all (\<lambda>n. P (of_nat n :: byte)) [0..<256] \<Longrightarrow> P b"
proof -
  assume "list_all (\<lambda>n. P (of_nat n :: byte)) [0..<256]"
  then have "\<forall>n\<in>{0..<256}. P (of_nat n :: byte)" by (simp add: list_all_iff)
  then have "P (of_nat (unat b))" by (rule bspec) (simp add: unat_byte_less)
  then show "P b" by simp
qed

lemma byte_le_iff: "(a :: byte) \<le> b \<longleftrightarrow> unat a \<le> unat b"
  by (rule word_le_nat_alt)

lemma byte_eq_iff: "(a :: byte) = b \<longleftrightarrow> unat a = unat b"
  by (rule word_unat_eq_iff)

lemma and_0x80: "(b :: byte) AND 0x80 \<noteq> 0 \<longleftrightarrow> 128 \<le> unat b"
proof -
  have "b AND 2 ^ 7 \<noteq> 0 \<longleftrightarrow> bit (unat b) 7"
    by (simp only: and_exp_eq_0_iff_not_bit not_not bit_unsigned_iff) simp
  also have "\<dots> \<longleftrightarrow> odd (unat b div 128)" by (simp add: bit_iff_odd)
  also have "\<dots> \<longleftrightarrow> 128 \<le> unat b"
  proof -
    have "unat b div 128 < 2" using unat_byte_less [of b] by simp
    then have "odd (unat b div 128) \<longleftrightarrow> unat b div 128 = 1" by (cases "unat b div 128") auto
    also have "\<dots> \<longleftrightarrow> 128 \<le> unat b" using unat_byte_less [of b] by auto
    finally show ?thesis .
  qed
  finally show ?thesis by simp
qed

lemma and_0x7f: "(b :: byte) AND 0x7f = 0 \<longleftrightarrow> unat b = 0 \<or> unat b = 128"
proof -
  have m: "b AND 0x7f = take_bit 7 b" by (simp add: take_bit_eq_mask mask_eq_exp_minus_1)
  have "unat (b AND 0x7f) = unat b mod 128"
    unfolding m unsigned_take_bit_eq by (simp add: take_bit_eq_mod)
  then have "b AND 0x7f = 0 \<longleftrightarrow> unat b mod 128 = 0"
    by (metis unat_eq_zero)
  also have "\<dots> \<longleftrightarrow> unat b = 0 \<or> unat b = 128"
    using unat_byte_less [of b] by (auto simp: mod_if split: if_splits)
  finally show ?thesis .
qed

lemma byte_high_bits [simp]:
  "\<not> bit (b :: byte) (8 + n)" "\<not> bit (b :: byte) (16 + n)" "\<not> bit (b :: byte) (24 + n)"
  by (auto dest: bit_imp_le_length)

lemma length_split [simp]: "length (split32 w) = 4" "length (split16 w) = 2"
  by (simp_all add: split32_def split16_def)

lemma join32_split32:
  "join32 (split32 w ! 0) (split32 w ! 1) (split32 w ! 2) (split32 w ! 3) = w"
  unfolding join32_def split32_def mask8_32
  by (rule bit_word_eqI) (auto simp: bit_simps)

lemma split32_join32: "split32 (join32 a b c d) = [a, b, c, d]"
  unfolding join32_def split32_def mask8_32
  by (auto intro!: bit_word_eqI simp: bit_simps)

lemma join16_split16:
  assumes "take_bit 16 w = w"
  shows "join16 (split16 w ! 0) (split16 w ! 1) = w"
proof -
  have "join16 (split16 w ! 0) (split16 w ! 1) = take_bit 16 w"
    unfolding join16_def split16_def mask8_32
    by (rule bit_word_eqI) (auto simp: bit_simps)
  with assms show ?thesis by simp
qed

lemma split16_join16: "split16 (join16 a b) = [a, b]"
  unfolding join16_def split16_def mask8_32
  by (auto intro!: bit_word_eqI simp: bit_simps)

lemma join32_sum: "join32 a b c d = ucast a + 2 ^ 8 * ucast b + 2 ^ 16 * ucast c + 2 ^ 24 * ucast d"
proof -
  have 1: "ucast a + push_bit 8 (ucast b) = (ucast a OR push_bit 8 (ucast b) :: 32 word)"
    by (rule disjunctive_add) (auto simp: bit_simps dest: bit_imp_le_length)
  have 2: "(ucast a OR push_bit 8 (ucast b)) + push_bit 16 (ucast c)
      = (ucast a OR push_bit 8 (ucast b) OR push_bit 16 (ucast c) :: 32 word)"
    by (subst disjunctive_add) (auto simp: bit_simps or.assoc dest: bit_imp_le_length)
  have 3: "(ucast a OR push_bit 8 (ucast b) OR push_bit 16 (ucast c)) + push_bit 24 (ucast d)
      = (join32 a b c d :: 32 word)"
    by (subst disjunctive_add) (auto simp: join32_def bit_simps or.assoc dest: bit_imp_le_length)
  show ?thesis using 1 2 3 by (simp add: push_bit_eq_mult ac_simps)
qed

lemma word_rcat_join32: "word_rcat [a, b, c, d] = join32 d c b a"
  unfolding join32_sum word_rcat_def by (simp add: unsigned_ucast_eq)

lemma split32_inj: "split32 v = split32 w \<longleftrightarrow> v = w"
  by (metis join32_split32)

lemma uint_toInt32: "0 \<le> n \<Longrightarrow> n < 2 ^ 32 \<Longrightarrow> uint (toInt32 n) = n"
  by (simp add: toInt32_def uint_word_of_int take_bit_int_eq_self)

lemma unat_of_nat32: "n < 2 ^ 32 \<Longrightarrow> unat (of_nat n :: 32 word) = n"
  by (simp add: unat_of_nat take_bit_nat_eq_self)

lemma take_bit_16_of_nat: "n < 2 ^ 16 \<Longrightarrow> take_bit 16 (of_nat n :: 32 word) = of_nat n"
  by (simp add: take_bit_of_nat take_bit_nat_eq_self)

text \<open>Unbounded integers: putting a value above \<open>k\<close> bits, and clearing a bit that is set.\<close>

lemma or_push_bit: "0 \<le> a \<Longrightarrow> a < 2 ^ k \<Longrightarrow> a OR push_bit k b = a + 2 ^ k * (b::int)"
proof -
  assume a: "0 \<le> a" "a < 2 ^ k"
  then have t: "take_bit k a = a" by (simp add: take_bit_int_eq_self)
  have "a OR push_bit k b = a + push_bit k b"
    by (rule disjunctive_add [symmetric]) (metis bit_push_bit_iff bit_take_bit_iff linorder_not_le t)
  then show ?thesis by (simp add: push_bit_eq_mult mult.commute)
qed

lemma and_not_exp: "bit (x::int) k \<Longrightarrow> x AND NOT (2 ^ k) = x - 2 ^ k"
proof -
  assume b: "bit x k"
  have "(x AND NOT (2 ^ k)) + 2 ^ k = (x AND NOT (2 ^ k)) OR 2 ^ k"
    by (rule disjunctive_add) (auto simp: bit_simps)
  also have "\<dots> = x" using b by (auto intro!: bit_eqI simp: bit_simps)
  finally show ?thesis by simp
qed

section \<open>Little-endian magnitudes\<close>

fun leVal :: "bytes \<Rightarrow> nat" where
  "leVal [] = 0"
| "leVal (b # r) = unat b + 256 * leVal r"

lemma leVal_append: "leVal (xs @ ys) = leVal xs + 256 ^ length xs * leVal ys"
  by (induction xs) (simp_all add: algebra_simps)

lemma leVal_bound: "leVal xs < 256 ^ length xs"
proof (induction xs)
  case (Cons b r)
  have "leVal (b # r) < 256 * (leVal r + 1)" using unat_byte_less [of b] by simp
  also have "\<dots> \<le> 256 * 256 ^ length r" using Cons by (intro mult_le_mono2) simp
  finally show ?case by simp
qed simp

lemma leVal_pos: "xs \<noteq> [] \<Longrightarrow> last xs \<noteq> 0 \<Longrightarrow> 0 < leVal xs"
  by (induction xs) (auto simp: unat_gt_0 split: if_splits)

lemma foldl_or_leVal:
  "foldl (\<lambda>acc i. acc OR push_bit (8 * i) (uint (d ! i))) 0 [0..<length d] = int (leVal d)"
proof (induction d rule: rev_induct)
  case (snoc b d)
  let ?f = "\<lambda>d acc i. acc OR push_bit (8 * i) (uint (d ! i))"
  have "foldl (?f (d @ [b])) 0 [0..<length d] = foldl (?f d) 0 [0..<length d]"
    by (intro foldl_cong refl) (simp add: nth_append)
  then have "foldl (?f (d @ [b])) 0 [0..<length (d @ [b])] = int (leVal d) OR push_bit (8 * length d) (uint b)"
    using snoc by simp
  moreover have "int (leVal d) < 2 ^ (8 * length d)"
  proof -
    have "int (leVal d) < int (256 ^ length d)" using leVal_bound by (simp only: of_nat_less_iff)
    also have "\<dots> = 2 ^ (8 * length d)" by (simp add: power_mult)
    finally show ?thesis .
  qed
  ultimately have "foldl (?f (d @ [b])) 0 [0..<length (d @ [b])] = int (leVal d) + 2 ^ (8 * length d) * uint b"
    by (simp only: or_push_bit of_nat_0_le_iff)
  also have "\<dots> = int (leVal (d @ [b]))" by (simp add: leVal_append power_mult)
  finally show ?case .
qed simp

section \<open>Sequential readers\<close>

text \<open>
  A reader takes the bytes and an offset and returns the value with the offset just past
  it. \<open>readMany\<close> is the counted loop of \<^verbatim>\<open>deserializeTx\<close>: it runs a reader \<open>n\<close> times and
  collects the values in order.
\<close>

type_synonym 'a reader = "bytes \<Rightarrow> nat \<Rightarrow> ('a \<times> nat) result"

fun readMany :: "'a reader \<Rightarrow> bytes \<Rightarrow> nat \<Rightarrow> nat \<Rightarrow> ('a list \<times> nat) result" where
  "readMany rd bs 0 pos = Inr ([], pos)"
| "readMany rd bs (Suc n) pos =
     bindR (rd bs pos) (\<lambda>(x, pos').
     bindR (readMany rd bs n pos') (\<lambda>(xs, pos''). Inr (x # xs, pos'')))"

text \<open>
  The contract between a writer and its reader: reading at the place where a valid value
  was written gives the value back and stops just past it, whatever surrounds it.
\<close>

locale codec =
  fixes enc :: "'a \<Rightarrow> bytes"
    and dec :: "'a reader"
    and valid :: "'a \<Rightarrow> bool"
  assumes dec_enc: "valid x \<Longrightarrow> dec (pre @ enc x @ post) (length pre) = Inr (x, length pre + length (enc x))"
begin

lemma dec_enc_at:
  assumes "valid x" "bs = pre @ enc x @ post" "pos = length pre"
  shows "dec bs pos = Inr (x, pos + length (enc x))"
  using assms by (simp add: dec_enc)

lemma enc_prefix_inj:
  assumes "valid x" "valid y" "enc x @ p = enc y @ q"
  shows "x = y \<and> p = q"
proof -
  have "dec (enc x @ p) 0 = Inr (x, length (enc x))" "dec (enc y @ q) 0 = Inr (y, length (enc y))"
    using dec_enc [of x "[]" p] dec_enc [of y "[]" q] assms by simp_all
  with assms(3) show ?thesis by simp
qed

lemma readMany_concat:
  assumes "\<forall>x\<in>set xs. valid x"
  shows "readMany dec (pre @ concat (map enc xs) @ post) (length xs) (length pre)
    = Inr (xs, length pre + length (concat (map enc xs)))"
  using assms
proof (induction xs arbitrary: pre)
  case Nil
  then show ?case by simp
next
  case (Cons x xs)
  have hd: "dec (pre @ concat (map enc (x # xs)) @ post) (length pre) = Inr (x, length (pre @ enc x))"
    using dec_enc [of x pre "concat (map enc xs) @ post"] Cons.prems by simp
  have "readMany dec ((pre @ enc x) @ concat (map enc xs) @ post) (length xs) (length (pre @ enc x))
      = Inr (xs, length (pre @ enc x) + length (concat (map enc xs)))"
    using Cons.prems by (intro Cons.IH) simp
  with hd show ?case by simp
qed

lemma readMany_concat_at:
  assumes "\<forall>x\<in>set xs. valid x" "bs = pre @ concat (map enc xs) @ post" "pos = length pre" "n = length xs"
  shows "readMany dec bs n pos = Inr (xs, pos + length (concat (map enc xs)))"
  using assms by (simp add: readMany_concat)

lemma concat_prefix_inj:
  assumes "\<forall>x\<in>set xs. valid x" "\<forall>y\<in>set ys. valid y" "length xs = length ys"
    "concat (map enc xs) @ p = concat (map enc ys) @ q"
  shows "xs = ys \<and> p = q"
  using assms(3,1,2,4)
proof (induction xs ys rule: list_induct2)
  case Nil
  then show ?case by simp
next
  case (Cons x xs y ys)
  have "enc x @ (concat (map enc xs) @ p) = enc y @ (concat (map enc ys) @ q)"
    using Cons.prems(3) by simp
  then have xy: "x = y \<and> concat (map enc xs) @ p = concat (map enc ys) @ q"
    by (rule enc_prefix_inj [rotated 2]) (use Cons.prems in simp_all)
  moreover have "xs = ys \<and> p = q"
    by (rule Cons.IH) (use Cons.prems xy in simp_all)
  ultimately show ?case by simp
qed

end

lemma length_readMany: "readMany rd bs n pos = Inr (xs, q) \<Longrightarrow> length xs = n"
  by (induction n arbitrary: pos xs q) (auto simp: result_simps split: prod.splits)

end
