(* ===== verification/Hex.thy ===== *)
theory Hex
  imports Prelude
begin

text \<open>
  Hexadecimal text: \<^verbatim>\<open>hexToBytes\<close>, \<^verbatim>\<open>bytesToHex\<close> and \<^verbatim>\<open>reverseBytes\<close> of
  \<^verbatim>\<open>contrib/uap-js/uap.js\<close>, with what they use of \<^verbatim>\<open>parseInt\<close>, \<^verbatim>\<open>Number.prototype.toString\<close>
  and \<^verbatim>\<open>String.prototype.padStart\<close>. Shows that the two conversions invert each other on the
  strings the rest of the library passes around, and what the parser does with the others:
  an odd length throws, a pair that is no number becomes the byte 0.
\<close>

section \<open>Number and string conversions\<close>

definition hexDigit :: "nat \<Rightarrow> char" where
  "hexDigit d = (if d < 10 then char_of (48 + d) else char_of (87 + d))"

definition hexVal :: "char \<Rightarrow> nat option" where
  "hexVal c = (let n = (of_char c :: nat) in
     if 48 \<le> n \<and> n \<le> 57 then Some (n - 48)
     else if 97 \<le> n \<and> n \<le> 102 then Some (n - 87)
     else if 65 \<le> n \<and> n \<le> 70 then Some (n - 55)
     else None)"

text \<open>\<^verbatim>\<open>n.toString(16)\<close> for a non-negative integer.\<close>

fun toString16 :: "nat \<Rightarrow> string" where
  "toString16 n = (if n < 16 then [hexDigit n] else toString16 (n div 16) @ [hexDigit (n mod 16)])"

declare toString16.simps [simp del]

definition padStart :: "nat \<Rightarrow> char \<Rightarrow> string \<Rightarrow> string" where
  "padStart n c s = replicate (n - length s) c @ s"

text \<open>White space that \<^verbatim>\<open>parseInt\<close> and \<^verbatim>\<open>trim\<close> skip, among the characters of the model.\<close>

definition isSpace :: "char \<Rightarrow> bool" where
  "isSpace c = (of_char c \<in> {9, 10, 11, 12, 13, 32, 160 :: nat})"

definition hexDigits :: "string \<Rightarrow> string" where
  "hexDigits s = takeWhile (\<lambda>c. hexVal c \<noteq> None) s"

definition digitsVal :: "string \<Rightarrow> nat" where
  "digitsVal s = foldl (\<lambda>acc c. 16 * acc + (case hexVal c of Some d \<Rightarrow> d | None \<Rightarrow> 0)) 0 s"

text \<open>
  \<^verbatim>\<open>parseInt(s, 16)\<close>: skip white space, take a sign, skip a \<^verbatim>\<open>0x\<close> prefix, read the longest
  run of hex digits; \<open>None\<close> is \<^verbatim>\<open>NaN\<close>.
\<close>

definition stripSign :: "string \<Rightarrow> int \<times> string" where
  "stripSign s = (case s of
     [] \<Rightarrow> (1, s)
   | c # r \<Rightarrow> (if c = CHR ''-'' then (- 1, r) else if c = CHR ''+'' then (1, r) else (1, s)))"

definition strip0x :: "string \<Rightarrow> string" where
  "strip0x s = (case s of
     c # x # r \<Rightarrow> (if c = CHR ''0'' \<and> (x = CHR ''x'' \<or> x = CHR ''X'') then r else s)
   | _ \<Rightarrow> s)"

definition parseInt16 :: "string \<Rightarrow> int option" where
  "parseInt16 s = (let (sign, r) = stripSign (dropWhile isSpace s); ds = hexDigits (strip0x r) in
     if ds = [] then None else Some (sign * int (digitsVal ds)))"

text \<open>Storing a number into a \<^verbatim>\<open>Uint8Array\<close>: \<^verbatim>\<open>NaN\<close> becomes 0, anything else wraps.\<close>

definition toUint8 :: "int option \<Rightarrow> byte" where
  "toUint8 v = (case v of None \<Rightarrow> 0 | Some n \<Rightarrow> of_int n)"

section \<open>hexToBytes, bytesToHex, reverseBytes\<close>

fun hexPairs :: "string \<Rightarrow> bytes" where
  "hexPairs (a # b # r) = toUint8 (parseInt16 [a, b]) # hexPairs r"
| "hexPairs _ = []"

definition hexToBytes :: "string \<Rightarrow> bytes result" where
  "hexToBytes hex = (if length hex mod 2 \<noteq> 0 then Inl ''invalid hex string'' else Inr (hexPairs hex))"

definition byteToHex :: "byte \<Rightarrow> string" where
  "byteToHex b = padStart 2 (CHR ''0'') (toString16 (unat b))"

definition bytesToHex :: "bytes \<Rightarrow> string" where
  "bytesToHex bs = concat (map byteToHex bs)"

definition reverseBytes :: "bytes \<Rightarrow> bytes" where
  "reverseBytes bs = rev bs"

section \<open>Lemmas\<close>

lemma hexVal_hexDigit [simp]: "d < 16 \<Longrightarrow> hexVal (hexDigit d) = Some d"
  by (auto simp: hexVal_def hexDigit_def Let_def)

lemma hexVal_bound: "hexVal c = Some d \<Longrightarrow> d < 16"
  by (auto simp: hexVal_def Let_def split: if_splits)

definition isLowerHex :: "char \<Rightarrow> bool" where
  "isLowerHex c = (let n = (of_char c :: nat) in (48 \<le> n \<and> n \<le> 57) \<or> (97 \<le> n \<and> n \<le> 102))"

lemma isLowerHex_hexDigit [simp]: "d < 16 \<Longrightarrow> isLowerHex (hexDigit d)"
  by (auto simp: isLowerHex_def hexDigit_def Let_def)

lemma isLowerHexE:
  assumes "isLowerHex c"
  obtains d where "d < 16" "c = hexDigit d" "hexVal c = Some d"
proof -
  let ?d = "if of_char c < (58::nat) then of_char c - 48 else of_char c - (87::nat)"
  have "?d < 16" using assms by (auto simp: isLowerHex_def Let_def)
  moreover have "c = hexDigit ?d"
    using assms by (auto simp: isLowerHex_def hexDigit_def Let_def)
  ultimately show ?thesis using that [of ?d] by (metis hexVal_hexDigit)
qed

lemma hexVal_not_special:
  assumes "hexVal c = Some d"
  shows "\<not> isSpace c" "c \<noteq> CHR ''-''" "c \<noteq> CHR ''+''" "c \<noteq> CHR ''x''" "c \<noteq> CHR ''X''"
  using assms by (auto simp: hexVal_def isSpace_def Let_def split: if_splits)

lemma parseInt16_pair:
  assumes "hexVal a = Some x" "hexVal b = Some y"
  shows "parseInt16 [a, b] = Some (int (16 * x + y))"
  using assms hexVal_not_special [OF assms(1)] hexVal_not_special [OF assms(2)]
  by (simp add: parseInt16_def stripSign_def strip0x_def hexDigits_def digitsVal_def)

lemma hexDigit_0: "CHR ''0'' = hexDigit 0"
  by code_simp

lemma byteToHex_eq: "byteToHex b = [hexDigit (unat b div 16), hexDigit (unat b mod 16)]"
proof -
  have "unat b < 256" by (rule unat_byte_less)
  then have "unat b div 16 < 16" by simp
  then show ?thesis
    by (simp add: byteToHex_def toString16.simps [of "unat b"] toString16.simps [of "unat b div 16"]
        padStart_def hexDigit_0 numeral_2_eq_2)
qed

lemma toUint8_byteToHex: "toUint8 (parseInt16 (byteToHex b)) = b"
proof -
  have "unat b < 256" by (rule unat_byte_less)
  then have "unat b div 16 < 16" "unat b mod 16 < 16" by simp_all
  then have "parseInt16 (byteToHex b) = Some (int (16 * (unat b div 16) + unat b mod 16))"
    unfolding byteToHex_eq by (intro parseInt16_pair) simp_all
  then show ?thesis by (simp add: toUint8_def)
qed

lemma length_bytesToHex [simp]: "length (bytesToHex bs) = 2 * length bs"
  by (induction bs) (simp_all add: bytesToHex_def byteToHex_eq)

lemma bytesToHex_Cons: "bytesToHex (b # bs) = byteToHex b @ bytesToHex bs"
  by (simp add: bytesToHex_def)

lemma hexPairs_bytesToHex: "hexPairs (bytesToHex bs) = bs"
proof (induction bs)
  case (Cons b bs)
  then show ?case
    using toUint8_byteToHex [of b] by (simp add: bytesToHex_Cons byteToHex_eq)
qed (simp add: bytesToHex_def)

lemma hexToBytes_bytesToHex [simp, codec_laws]: "hexToBytes (bytesToHex bs) = Inr bs"
  by (simp add: hexToBytes_def hexPairs_bytesToHex)

lemma bytesToHex_inj: "bytesToHex a = bytesToHex b \<longleftrightarrow> a = b"
  by (metis hexPairs_bytesToHex)

lemma isLowerHex_bytesToHex: "\<forall>c\<in>set (bytesToHex bs). isLowerHex c"
proof (induction bs)
  case (Cons b bs)
  moreover have "unat b div 16 < 16" "unat b mod 16 < 16" using unat_byte_less [of b] by auto
  ultimately show ?case by (simp add: bytesToHex_Cons byteToHex_eq)
qed (simp add: bytesToHex_def)

lemma bytesToHex_hexPairs:
  assumes "\<forall>c\<in>set s. isLowerHex c" "even (length s)"
  shows "bytesToHex (hexPairs s) = s"
  using assms
proof (induction s rule: hexPairs.induct)
  case (1 a b r)
  obtain x where x: "x < 16" "a = hexDigit x" "hexVal a = Some x"
    using 1 by (metis isLowerHexE list.set_intros(1))
  obtain y where y: "y < 16" "b = hexDigit y" "hexVal b = Some y"
    using 1 by (metis isLowerHexE list.set_intros)
  have "16 * x + y < 256" using x y by simp
  then have "unat (of_nat (16 * x + y) :: byte) = 16 * x + y"
    by (rule unat_of_nat8)
  then have "byteToHex (toUint8 (parseInt16 [a, b])) = [a, b]"
    using x y parseInt16_pair [of a x b y] by (simp add: toUint8_def byteToHex_eq flip: of_nat_mult of_nat_add)
  with 1 show ?case by (simp add: bytesToHex_Cons)
qed (simp_all add: bytesToHex_def)

lemma length_hexPairs: "length (hexPairs s) = length s div 2"
  by (induction s rule: hexPairs.induct) auto

lemma hexToBytes_length: "hexToBytes s = Inr bs \<Longrightarrow> length s = 2 * length bs"
  by (auto simp: hexToBytes_def length_hexPairs split: if_splits)

lemma reverseBytes_simps [simp]:
  "length (reverseBytes bs) = length bs" "reverseBytes (reverseBytes bs) = bs"
  by (simp_all add: reverseBytes_def)

lemma reverseBytes_inj [simp]: "reverseBytes a = reverseBytes b \<longleftrightarrow> a = b"
  by (simp add: reverseBytes_def)

text \<open>A transaction id as the sources write it: 64 lower-case hex digits.\<close>

definition isTxid :: "string \<Rightarrow> bool" where
  "isTxid s = (length s = 64 \<and> (\<forall>c\<in>set s. isLowerHex c))"

lemma isTxid_hexToBytes:
  assumes "isTxid s"
  shows "hexToBytes s = Inr (hexPairs s)" "length (hexPairs s) = 32" "bytesToHex (hexPairs s) = s"
  using assms by (simp_all add: isTxid_def hexToBytes_def length_hexPairs bytesToHex_hexPairs)

lemma isTxid_bytesToHex [simp]: "length bs = 32 \<Longrightarrow> isTxid (bytesToHex bs)"
  using isLowerHex_bytesToHex by (simp add: isTxid_def)

end
