(* ===== verification/Sha256.thy ===== *)
theory Sha256
  imports Hex
begin

text \<open>
  The hash functions of \<^verbatim>\<open>contrib/uap-js/sha256.js\<close>: \<^verbatim>\<open>rotr\<close>, \<^verbatim>\<open>sha256\<close>, \<^verbatim>\<open>hash256\<close>,
  \<^verbatim>\<open>concatBytes\<close> and \<^verbatim>\<open>hmacSha256\<close>. The model follows the typed-array code: a zeroed buffer that
  is written in place, the 64-entry message schedule filled by index, and the working
  variables as 32-bit words. It is proved equal to a separate transcription of FIPS 180-4
  and the HMAC to RFC 2104. The model is exact for messages shorter than \<open>2 ^ 31 - 8\<close> bytes,
  where the shift in \<^verbatim>\<open>padLen\<close> does not turn negative.
\<close>

type_synonym u32 = "32 word"
type_synonym sha_state = "u32 \<times> u32 \<times> u32 \<times> u32 \<times> u32 \<times> u32 \<times> u32 \<times> u32"

definition K :: "u32 list" where
  "K = concat
   [[0x428a2f98, 0x71374491, 0xb5c0fbcf, 0xe9b5dba5, 0x3956c25b, 0x59f111f1, 0x923f82a4, 0xab1c5ed5],
    [0xd807aa98, 0x12835b01, 0x243185be, 0x550c7dc3, 0x72be5d74, 0x80deb1fe, 0x9bdc06a7, 0xc19bf174],
    [0xe49b69c1, 0xefbe4786, 0x0fc19dc6, 0x240ca1cc, 0x2de92c6f, 0x4a7484aa, 0x5cb0a9dc, 0x76f988da],
    [0x983e5152, 0xa831c66d, 0xb00327c8, 0xbf597fc7, 0xc6e00bf3, 0xd5a79147, 0x06ca6351, 0x14292967],
    [0x27b70a85, 0x2e1b2138, 0x4d2c6dfc, 0x53380d13, 0x650a7354, 0x766a0abb, 0x81c2c92e, 0x92722c85],
    [0xa2bfe8a1, 0xa81a664b, 0xc24b8b70, 0xc76c51a3, 0xd192e819, 0xd6990624, 0xf40e3585, 0x106aa070],
    [0x19a4c116, 0x1e376c08, 0x2748774c, 0x34b0bcb5, 0x391c0cb3, 0x4ed8aa4a, 0x5b9cca4f, 0x682e6ff3],
    [0x748f82ee, 0x78a5636f, 0x84c87814, 0x8cc70208, 0x90befffa, 0xa4506ceb, 0xbef9a3f7, 0xc67178f2]]"

definition rotr :: "u32 \<Rightarrow> nat \<Rightarrow> u32" where
  "rotr x n = drop_bit n x OR push_bit (32 - n) x"

section \<open>Buffers\<close>

text \<open>\<^verbatim>\<open>arr.set(bs, off)\<close> on a buffer that is long enough.\<close>

definition setAt :: "nat \<Rightarrow> 'a list \<Rightarrow> 'a list \<Rightarrow> 'a list" where
  "setAt off bs arr = take off arr @ bs @ drop (off + length bs) arr"

text \<open>\<^verbatim>\<open>DataView\<close> accesses, big-endian.\<close>

definition getUint32BE :: "bytes \<Rightarrow> nat \<Rightarrow> u32" where
  "getUint32BE bs i = join32 (bs ! (i + 3)) (bs ! (i + 2)) (bs ! (i + 1)) (bs ! i)"

definition setUint32BE :: "u32 \<Rightarrow> bytes" where
  "setUint32BE w = rev (split32 w)"

definition bytes64BE :: "64 word \<Rightarrow> bytes" where
  "bytes64BE w = map (\<lambda>k. ucast (drop_bit k w)) [56, 48, 40, 32, 24, 16, 8, 0]"

definition padLen :: "bytes \<Rightarrow> nat" where
  "padLen m = ((length m + 8) div 64) * 64 + 64"

definition shaPad :: "bytes \<Rightarrow> bytes" where
  "shaPad m =
    (let n = padLen m;
         p0 = replicate n 0;
         p1 = setAt 0 m p0;
         p2 = p1[length m := 0x80]
     in setAt (n - 8) (bytes64BE (of_nat (8 * length m))) p2)"

section \<open>Compression\<close>

definition schedLoad :: "bytes \<Rightarrow> nat \<Rightarrow> u32 list" where
  "schedLoad padded off =
    fold (\<lambda>i w. w[i := getUint32BE padded (off + i * 4)]) [0..<16] (replicate 64 0)"

definition schedStep :: "nat \<Rightarrow> u32 list \<Rightarrow> u32 list" where
  "schedStep i w =
    (let s0 = rotr (w ! (i - 15)) 7 XOR rotr (w ! (i - 15)) 18 XOR drop_bit 3 (w ! (i - 15));
         s1 = rotr (w ! (i - 2)) 17 XOR rotr (w ! (i - 2)) 19 XOR drop_bit 10 (w ! (i - 2))
     in w[i := w ! (i - 16) + s0 + w ! (i - 7) + s1])"

definition schedule :: "bytes \<Rightarrow> nat \<Rightarrow> u32 list" where
  "schedule padded off = fold schedStep [16..<64] (schedLoad padded off)"

fun shaRound :: "u32 list \<Rightarrow> nat \<Rightarrow> sha_state \<Rightarrow> sha_state" where
  "shaRound w i (a, b, c, d, e, f, g, hh) =
    (let S1 = rotr e 6 XOR rotr e 11 XOR rotr e 25;
         ch = (e AND f) XOR (NOT e AND g);
         temp1 = hh + S1 + ch + K ! i + w ! i;
         S0 = rotr a 2 XOR rotr a 13 XOR rotr a 22;
         maj = (a AND b) XOR (a AND c) XOR (b AND c);
         temp2 = S0 + maj
     in (temp1 + temp2, a, b, c, d + temp1, e, f, g))"

fun addState :: "sha_state \<Rightarrow> sha_state \<Rightarrow> sha_state" where
  "addState (a, b, c, d, e, f, g, h) (a', b', c', d', e', f', g', h') =
     (a + a', b + b', c + c', d + d', e + e', f + f', g + g', h + h')"

definition shaBlock :: "bytes \<Rightarrow> nat \<Rightarrow> sha_state \<Rightarrow> sha_state" where
  "shaBlock padded off h = addState h (fold (shaRound (schedule padded off)) [0..<64] h)"

definition shaInit :: sha_state where
  "shaInit = (0x6a09e667, 0xbb67ae85, 0x3c6ef372, 0xa54ff53a, 0x510e527f, 0x9b05688c, 0x1f83d9ab, 0x5be0cd19)"

fun shaOut :: "sha_state \<Rightarrow> bytes" where
  "shaOut (a, b, c, d, e, f, g, h) = concat (map setUint32BE [a, b, c, d, e, f, g, h])"

definition sha256 :: "bytes \<Rightarrow> bytes" where
  "sha256 m =
    (let padded = shaPad m
     in shaOut (fold (\<lambda>k. shaBlock padded (k * 64)) [0..<length padded div 64] shaInit))"

definition hash256 :: "bytes \<Rightarrow> bytes" where
  "hash256 m = sha256 (sha256 m)"

definition concatBytes :: "bytes list \<Rightarrow> bytes" where
  "concatBytes arrays =
    snd (fold (\<lambda>a (off, out). (off + length a, setAt off a out)) arrays
          (0, replicate (sum_list (map length arrays)) 0))"

section \<open>HMAC\<close>

definition HMAC_BLOCK_SIZE :: nat where
  "HMAC_BLOCK_SIZE = 64"

definition hmacSha256 :: "bytes \<Rightarrow> bytes list \<Rightarrow> bytes" where
  "hmacSha256 key0 parts =
    (let key = (if length key0 > HMAC_BLOCK_SIZE then sha256 key0 else key0);
         paddedKey = setAt 0 key (replicate HMAC_BLOCK_SIZE 0);
         ipad = map (\<lambda>i. paddedKey ! i XOR 0x36) [0..<HMAC_BLOCK_SIZE];
         opad = map (\<lambda>i. paddedKey ! i XOR 0x5c) [0..<HMAC_BLOCK_SIZE];
         message = concatBytes parts;
         inner = sha256 (concatBytes [ipad, message])
     in sha256 (concatBytes [opad, inner]))"

section \<open>FIPS 180-4, transcribed\<close>

text \<open>
  The standard's own formulation, for comparison: the padding as the least number of zero
  bits, the message schedule as a recurrence, the rotations of the word library.
\<close>

definition fipsPad :: "bytes \<Rightarrow> bytes" where
  "fipsPad m = m @ [0x80] @ replicate ((119 - length m mod 64) mod 64) 0 @ bytes64BE (of_nat (8 * length m))"

definition fips_sigma0 :: "u32 \<Rightarrow> u32" where
  "fips_sigma0 x = word_rotr 7 x XOR word_rotr 18 x XOR drop_bit 3 x"

definition fips_sigma1 :: "u32 \<Rightarrow> u32" where
  "fips_sigma1 x = word_rotr 17 x XOR word_rotr 19 x XOR drop_bit 10 x"

definition fips_Sigma0 :: "u32 \<Rightarrow> u32" where
  "fips_Sigma0 x = word_rotr 2 x XOR word_rotr 13 x XOR word_rotr 22 x"

definition fips_Sigma1 :: "u32 \<Rightarrow> u32" where
  "fips_Sigma1 x = word_rotr 6 x XOR word_rotr 11 x XOR word_rotr 25 x"

definition fips_Ch :: "u32 \<Rightarrow> u32 \<Rightarrow> u32 \<Rightarrow> u32" where
  "fips_Ch x y z = (x AND y) XOR (NOT x AND z)"

definition fips_Maj :: "u32 \<Rightarrow> u32 \<Rightarrow> u32 \<Rightarrow> u32" where
  "fips_Maj x y z = (x AND y) XOR (x AND z) XOR (y AND z)"

fun fips_W :: "(nat \<Rightarrow> u32) \<Rightarrow> nat \<Rightarrow> u32" where
  "fips_W M t = (if t < 16 then M t
     else fips_sigma1 (fips_W M (t - 2)) + fips_W M (t - 7) + fips_sigma0 (fips_W M (t - 15)) + fips_W M (t - 16))"

declare fips_W.simps [simp del]

fun fips_round :: "(nat \<Rightarrow> u32) \<Rightarrow> nat \<Rightarrow> sha_state \<Rightarrow> sha_state" where
  "fips_round W t (a, b, c, d, e, f, g, h) =
    (let T1 = h + fips_Sigma1 e + fips_Ch e f g + K ! t + W t;
         T2 = fips_Sigma0 a + fips_Maj a b c
     in (T1 + T2, a, b, c, d + T1, e, f, g))"

text \<open>Word \<open>t\<close> of block \<open>k\<close> of a padded message.\<close>

definition fips_M :: "bytes \<Rightarrow> nat \<Rightarrow> nat \<Rightarrow> u32" where
  "fips_M p k t = word_rcat (slice p (64 * k + 4 * t) 4)"

definition fips_H :: "bytes \<Rightarrow> nat \<Rightarrow> sha_state \<Rightarrow> sha_state" where
  "fips_H p k H = addState H (fold (fips_round (fips_W (fips_M p k))) [0..<64] H)"

definition fips_sha256 :: "bytes \<Rightarrow> bytes" where
  "fips_sha256 m = (let p = fipsPad m in shaOut (fold (fips_H p) [0..<length p div 64] shaInit))"

section \<open>Lemmas\<close>

lemma length_setAt: "off + length bs \<le> length arr \<Longrightarrow> length (setAt off bs arr) = length arr"
  by (simp add: setAt_def)

lemma setAt_end: "off = length xs \<Longrightarrow> length bs = length ys \<Longrightarrow> setAt off bs (xs @ ys) = xs @ bs"
  by (simp add: setAt_def)

lemma concatBytes_fold:
  "off = length pre \<Longrightarrow>
   fold (\<lambda>a (off, out). (off + length a, setAt off a out)) arrays
     (off, pre @ replicate (sum_list (map length arrays)) 0)
   = (off + length (concat arrays), pre @ concat arrays)"
proof (induction arrays arbitrary: off pre)
  case (Cons a arrays)
  have "setAt off a (pre @ replicate (sum_list (map length (a # arrays))) 0)
      = (pre @ a) @ replicate (sum_list (map length arrays)) 0"
    using Cons.prems by (simp add: setAt_def replicate_add)
  with Cons.IH [of "length (pre @ a)" "pre @ a"] Cons.prems show ?case
    by (simp add: add.assoc)
qed simp

lemma concatBytes_eq [simp]: "concatBytes arrays = concat arrays"
  using concatBytes_fold [of 0 "[]" arrays] by (simp add: concatBytes_def)

lemma rotr_word_rotr: "n < 32 \<Longrightarrow> rotr x n = word_rotr n x"
proof (rule bit_word_eqI)
  fix k assume n: "n < 32" and k: "k < LENGTH(32)"
  show "bit (rotr x n) k = bit (word_rotr n x) k"
  proof (cases "k + n < 32")
    case True
    then have "(k + n) mod 32 = k + n" by simp
    with True n k show ?thesis
      by (auto simp: rotr_def bit_simps bit_word_rotr_iff add.commute)
  next
    case False
    then have "(k + n) mod 32 = k + n - 32" using n k by (simp add: mod_if)
    with False n k show ?thesis
      by (auto simp: rotr_def bit_simps bit_word_rotr_iff add.commute dest: bit_imp_le_length)
  qed
qed

lemma length_padLen: "length m + 9 \<le> padLen m" "64 dvd padLen m"
  unfolding padLen_def by auto

lemma pad_zeros: "padLen m - length m - 9 = (119 - length m mod 64) mod 64"
proof -
  define q where "q = length m div 64"
  define r where "r = length m mod 64"
  have L: "length m = 64 * q + r" and r: "r < 64" by (simp_all add: q_def r_def)
  show ?thesis
  proof (cases "r < 56")
    case True
    then have "(length m + 8) div 64 = q" "(119 - r) mod 64 = 55 - r" using L by (simp_all add: mod_if)
    then show ?thesis using L True by (simp add: padLen_def flip: r_def)
  next
    case False
    then have "(length m + 8) div 64 = q + 1" "(119 - r) mod 64 = 119 - r" using L r by simp_all
    then show ?thesis using L r False by (simp add: padLen_def flip: r_def)
  qed
qed

lemma shaPad_fipsPad: "shaPad m = fipsPad m"
proof -
  define z where "z = padLen m - length m - 9"
  have n: "padLen m = length m + (1 + (z + 8))" using length_padLen(1) [of m] by (simp add: z_def)
  have "setAt 0 m (replicate (padLen m) 0) = m @ replicate (1 + (z + 8)) 0"
    unfolding n by (simp add: setAt_def)
  also have "\<dots> = m @ [0] @ replicate z 0 @ replicate 8 0"
    unfolding replicate_add by simp
  finally have upd: "(setAt 0 m (replicate (padLen m) 0))[length m := 0x80]
      = (m @ [0x80] @ replicate z 0) @ replicate 8 0"
    by (simp add: list_update_append)
  have "setAt (padLen m - 8) (bytes64BE w) ((m @ [0x80] @ replicate z 0) @ replicate 8 0)
      = (m @ [0x80] @ replicate z 0) @ bytes64BE w" for w
    by (rule setAt_end) (simp_all add: n bytes64BE_def)
  then show ?thesis
    unfolding shaPad_def fipsPad_def Let_def upd by (simp add: z_def flip: pad_zeros)
qed

lemma length_fipsPad: "64 dvd length (fipsPad m)"
proof -
  have "length (fipsPad m) = padLen m"
    using length_padLen(1) [of m] by (simp add: fipsPad_def bytes64BE_def flip: pad_zeros)
  then show ?thesis using length_padLen(2) by simp
qed

lemma fold_update:
  "n \<le> length w \<Longrightarrow> length (fold (\<lambda>i w. w[i := f i]) [0..<n] w) = length w \<and>
     (\<forall>j<n. fold (\<lambda>i w. w[i := f i]) [0..<n] w ! j = f j)"
  by (induction n) (auto simp: nth_list_update less_Suc_eq)

lemma schedule_fips_W:
  assumes "16 \<le> n" "n \<le> 64"
  shows "length (fold schedStep [16..<n] (schedLoad p off)) = 64 \<and>
    (\<forall>j<n. fold schedStep [16..<n] (schedLoad p off) ! j = fips_W (\<lambda>t. getUint32BE p (off + t * 4)) j)"
  using assms
proof (induction n rule: nat_induct_at_least)
  case base
  then show ?case
    using fold_update [of 16 "replicate 64 0" "\<lambda>i. getUint32BE p (off + i * 4)"]
    by (simp add: schedLoad_def fips_W.simps)
next
  case (Suc n)
  let ?w = "fold schedStep [16..<n] (schedLoad p off)"
  have IH: "length ?w = 64" "\<And>j. j < n \<Longrightarrow> ?w ! j = fips_W (\<lambda>t. getUint32BE p (off + t * 4)) j"
    using Suc by auto
  have "schedStep n ?w = ?w[n := fips_W (\<lambda>t. getUint32BE p (off + t * 4)) n]"
    using IH Suc.hyps
    by (simp add: schedStep_def fips_W.simps [of _ n] rotr_word_rotr fips_sigma0_def fips_sigma1_def algebra_simps)
  with IH Suc show ?case by (auto simp: nth_list_update less_Suc_eq)
qed

lemma shaRound_fips:
  "w ! i = W i \<Longrightarrow> shaRound w i s = fips_round W i s"
  by (cases s rule: shaOut.cases) (simp add: rotr_word_rotr fips_Sigma0_def fips_Sigma1_def fips_Ch_def fips_Maj_def Let_def)

lemma fips_W_cong: "(\<And>t. t < 16 \<Longrightarrow> M t = M' t) \<Longrightarrow> fips_W M t = fips_W M' t"
proof (induction t rule: less_induct)
  case (less t)
  show ?case
  proof (cases "t < 16")
    case True
    then show ?thesis using less.prems by (simp add: fips_W.simps [of _ t])
  next
    case False
    then show ?thesis using less by (simp add: fips_W.simps [of _ t])
  qed
qed

lemma getUint32BE_fips_M:
  assumes "64 * k + 4 * t + 4 \<le> length p"
  shows "getUint32BE p (k * 64 + t * 4) = fips_M p k t"
proof -
  let ?i = "64 * k + 4 * t"
  have "slice p ?i 4 = [p ! ?i, p ! (?i + 1), p ! (?i + 2), p ! (?i + 3)]"
    using assms by (auto intro!: nth_equalityI simp: slice_def nth_Cons' numeral_eq_Suc less_Suc_eq)
  then show ?thesis
    by (simp add: fips_M_def getUint32BE_def word_rcat_join32 ac_simps)
qed

lemma shaBlock_fips_H:
  assumes "64 * (k + 1) \<le> length p"
  shows "shaBlock p (k * 64) h = fips_H p k h"
proof -
  have M: "fips_W (\<lambda>t. getUint32BE p (k * 64 + t * 4)) = fips_W (fips_M p k)"
    using assms by (intro ext fips_W_cong getUint32BE_fips_M) simp
  have "schedule p (k * 64) ! i = fips_W (fips_M p k) i" if "i < 64" for i
    using that schedule_fips_W [of 64 p "k * 64"] by (simp add: schedule_def M)
  then have "fold (shaRound (schedule p (k * 64))) [0..<64] h = fold (fips_round (fips_W (fips_M p k))) [0..<64] h"
    by (intro fold_cong) (auto intro!: shaRound_fips)
  then show ?thesis by (simp add: shaBlock_def fips_H_def)
qed

lemma sha256_fips_sha256: "sha256 m = fips_sha256 m"
proof -
  have "fold (\<lambda>k. shaBlock (fipsPad m) (k * 64)) [0..<length (fipsPad m) div 64] shaInit
      = fold (fips_H (fipsPad m)) [0..<length (fipsPad m) div 64] shaInit"
    by (intro fold_cong refl ext shaBlock_fips_H) auto
  then show ?thesis by (simp add: sha256_def fips_sha256_def shaPad_fipsPad)
qed

lemma length_shaOut: "length (shaOut s) = 32"
  by (cases s rule: shaOut.cases) (simp add: setUint32BE_def)

lemma length_sha256 [simp]: "length (sha256 m) = 32"
  by (simp add: sha256_def length_shaOut Let_def)

lemma length_hash256 [simp]: "length (hash256 m) = 32"
  by (simp add: hash256_def)

text \<open>RFC 2104: the key block is the key (its hash when it is too long) padded with zeros.\<close>

definition rfc2104_hmac :: "(bytes \<Rightarrow> bytes) \<Rightarrow> nat \<Rightarrow> bytes \<Rightarrow> bytes \<Rightarrow> bytes" where
  "rfc2104_hmac H B key text =
    (let k = (if length key > B then H key else key);
         k0 = k @ replicate (B - length k) 0
     in H (map (\<lambda>b. b XOR 0x5c) k0 @ H (map (\<lambda>b. b XOR 0x36) k0 @ text)))"

lemma hmacSha256_rfc2104: "hmacSha256 key parts = rfc2104_hmac sha256 64 key (concat parts)"
proof -
  have pad: "map (\<lambda>i. (k @ replicate (64 - length k) 0) ! i XOR c) [0..<64]
      = map (\<lambda>b. b XOR c) (k @ replicate (64 - length k) 0)" if "length k \<le> 64" for k :: bytes and c
    using that by (intro nth_equalityI) (auto simp: nth_append)
  have "setAt 0 k (replicate 64 0) = k @ replicate (64 - length k) 0" for k :: bytes
    by (simp add: setAt_def)
  moreover have "length (if length key > 64 then sha256 key else key) \<le> 64" by simp
  ultimately show ?thesis
    by (simp only: hmacSha256_def rfc2104_hmac_def HMAC_BLOCK_SIZE_def Let_def pad concatBytes_eq) simp
qed

section \<open>Properties\<close>


text \<open>The HMAC implementation computes RFC 2104's HMAC with SHA-256 and 64-byte blocks over the
  concatenated message parts.\<close>

theorem hmac_is_rfc_2104: "hmacSha256 key parts = rfc2104_hmac sha256 64 key (concat parts)"
  by (rule hmacSha256_rfc2104)

end
