(* ===== verification/Script.thy ===== *)
theory Script
  imports Sha256
begin

text \<open>
  UAP script building and parsing, \<^verbatim>\<open>contrib/uap-js/uap.js\<close> from \<^verbatim>\<open>pushData\<close> to
  \<^verbatim>\<open>buildMetadataScript\<close>: minimal pushes, script numbers, the mint and transfer covenants, the
  lineage origin, the parser that reads a covenant back, and the ticker metadata output.

  The lemmas show that the builders and \<^verbatim>\<open>parseUapScript\<close> are inverse to each other: a built
  covenant parses to its fields, and whatever parses is byte for byte what the builder emits
  for the parsed fields, so every covenant has exactly one accepted encoding.
\<close>

section \<open>Opcodes and constants\<close>

abbreviation OP_MINT :: byte where "OP_MINT \<equiv> 0xb5"
abbreviation OP_MINT_TRANSFER :: byte where "OP_MINT_TRANSFER \<equiv> 0xba"
abbreviation OP_PUSHDATA1 :: byte where "OP_PUSHDATA1 \<equiv> 0x4c"
abbreviation OP_PUSHDATA2 :: byte where "OP_PUSHDATA2 \<equiv> 0x4d"
abbreviation OP_PUSHDATA4 :: byte where "OP_PUSHDATA4 \<equiv> 0x4e"
abbreviation OP_CODESEPARATOR :: byte where "OP_CODESEPARATOR \<equiv> 0xab"
abbreviation OP_0 :: byte where "OP_0 \<equiv> 0x00"
abbreviation OP_1 :: byte where "OP_1 \<equiv> 0x51"
abbreviation OP_RETURN :: byte where "OP_RETURN \<equiv> 0x6a"

section \<open>Pushes and script numbers\<close>

definition pushData :: "bytes \<Rightarrow> bytes result" where
  "pushData data =
    (let n = length data in
     if n < 0x4c then Inr (concatBytes [[of_nat n], data])
     else if n \<le> 0xff then Inr (concatBytes [[OP_PUSHDATA1, of_nat n], data])
     else if n \<le> 0xffff then Inr (concatBytes [OP_PUSHDATA2 # split16 (of_nat n), data])
     else Inl ''push too large for this helper'')"

text \<open>The \<^verbatim>\<open>while (abs > 0)\<close> loop: low byte first.\<close>

fun magnitudeBytes :: "nat \<Rightarrow> bytes" where
  "magnitudeBytes n = (if n > 0 then of_nat n # magnitudeBytes (n div 256) else [])"

declare magnitudeBytes.simps [simp del]

definition scriptNumBytes :: "int \<Rightarrow> bytes" where
  "scriptNumBytes n =
    (if n = 0 then []
     else (let neg = n < 0; out = magnitudeBytes (nat \<bar>n\<bar>) in
       if last out AND 0x80 \<noteq> 0 then out @ [if neg then 0x80 else 0x00]
       else if neg then butlast out @ [last out OR 0x80]
       else out))"

definition pushMultiplier :: "int \<Rightarrow> bytes result" where
  "pushMultiplier n =
    (if n < 0 \<or> n > 2147483647 then Inl ''multiplier must be an integer in [0, 2147483647]''
     else if n = 0 then Inr [OP_0]
     else if n \<le> 16 then Inr [OP_1 + of_int (n - 1)]
     else pushData (scriptNumBytes n))"

section \<open>Lineage origins\<close>

text \<open>\<^verbatim>\<open>encodeUint32LE\<close> (further down in the source) is needed here already.\<close>

definition encodeUint32LE :: "int \<Rightarrow> bytes" where
  "encodeUint32LE n = split32 (toInt32 n)"

definition deriveOrigin :: "string \<Rightarrow> int \<Rightarrow> bytes result" where
  "deriveOrigin txid vout =
    bindR (hexToBytes txid) (\<lambda>txidBytes.
     if length txidBytes \<noteq> 32 then Inl ''txid must be exactly 32 bytes, got ''
     else if vout < 0 \<or> vout > 0xffffffff then Inl ''vout must be an unsigned 32-bit integer''
     else Inr (sha256 (concatBytes [reverseBytes txidBytes, encodeUint32LE vout])))"

definition originForSpend :: "bytes \<Rightarrow> string \<Rightarrow> int \<Rightarrow> bytes result" where
  "originForSpend scriptCode txid vout =
    (if scriptCode = [] then Inl ''originForSpend needs the scriptCode of the position being spent''
     else (let n = length scriptCode; lst = scriptCode ! (n - 1) in
       if lst = OP_MINT then deriveOrigin txid vout
       else if lst = OP_MINT_TRANSFER then
         (if n < 34 \<or> scriptCode ! (n - 34) \<noteq> 0x20
          then Inl ''transfer scriptCode does not carry a 32-byte origin push''
          else Inr (slice scriptCode (n - 33) 32))
       else Inl ''scriptCode is not a UAP mint or transfer covenant''))"

section \<open>Covenant scripts\<close>

definition buildMintScript :: "bytes \<Rightarrow> int \<Rightarrow> bytes result" where
  "buildMintScript pubkey multiplier =
    bindR (pushData pubkey) (\<lambda>pk.
    bindR (pushMultiplier multiplier) (\<lambda>mu.
    Inr (concatBytes [pk, mu, [OP_MINT]])))"

definition buildTransferScript :: "bytes \<Rightarrow> int \<Rightarrow> bytes \<Rightarrow> bytes result" where
  "buildTransferScript pubkey multiplier origin =
    (if length origin \<noteq> 32 then Inl ''origin must be exactly 32 bytes, got ''
     else
       bindR (pushData pubkey) (\<lambda>pk.
       bindR (pushMultiplier multiplier) (\<lambda>mu.
       bindR (pushData origin) (\<lambda>orig.
       Inr (concatBytes [pk, mu, orig, [OP_MINT_TRANSFER]])))))"

section \<open>Reading a covenant back\<close>

record script_push =
  isPush :: bool
  opcode :: byte
  data :: bytes

definition scriptPush :: "bool \<Rightarrow> byte \<Rightarrow> bytes \<Rightarrow> script_push" where
  "scriptPush p opc d = \<lparr>isPush = p, opcode = opc, data = d\<rparr>"

text \<open>
  The index loop of \<^verbatim>\<open>readPushes\<close> as recursion over the bytes not yet read (\<open>drop i script\<close>).
\<close>

function readPushes :: "bytes \<Rightarrow> script_push list result" where
  "readPushes [] = Inr []"
| "readPushes (b # r) =
    (if 1 \<le> b \<and> b \<le> 0x4b then
       (if length r < unat b then Inl ''truncated push at offset ''
        else bindR (readPushes (drop (unat b) r)) (\<lambda>ps. Inr (scriptPush True b (take (unat b) r) # ps)))
     else if b = OP_PUSHDATA1 then
       (case r of
          n # r' \<Rightarrow>
            (if length r' < unat n then Inl ''truncated PUSHDATA1 payload''
             else bindR (readPushes (drop (unat n) r')) (\<lambda>ps. Inr (scriptPush True b (take (unat n) r') # ps)))
        | _ \<Rightarrow> Inl ''truncated PUSHDATA1'')
     else if b = OP_PUSHDATA2 then
       (case r of
          x # y # r' \<Rightarrow>
            (let n = unat (join16 x y) in
             if length r' < n then Inl ''truncated PUSHDATA2 payload''
             else bindR (readPushes (drop n r')) (\<lambda>ps. Inr (scriptPush True b (take n r') # ps)))
        | _ \<Rightarrow> Inl ''truncated PUSHDATA2'')
     else if b = OP_PUSHDATA4 then
       (case r of
          x # y # z # t # r' \<Rightarrow>
            (let n = unat (join32 x y z t) in
             if length r' < n then Inl ''truncated PUSHDATA4 payload''
             else bindR (readPushes (drop n r')) (\<lambda>ps. Inr (scriptPush True b (take n r') # ps)))
        | _ \<Rightarrow> Inl ''truncated PUSHDATA4'')
     else if b = OP_0 then bindR (readPushes r) (\<lambda>ps. Inr (scriptPush True b [] # ps))
     else bindR (readPushes r) (\<lambda>ps. Inr (scriptPush False b [] # ps)))"
  by pat_completeness auto
termination
  by (relation "measure length") auto

definition isMinimalPush :: "script_push \<Rightarrow> bool" where
  "isMinimalPush p =
    (let d = data p; n = length d in
     if n = 0 then opcode p = OP_0
     else if n = 1 \<and> 1 \<le> d ! 0 \<and> d ! 0 \<le> 16 then opcode p = 0x50 + d ! 0
     else if n = 1 \<and> d ! 0 = 0x81 then opcode p = 0x4f
     else if n \<le> 75 then opcode p = of_nat n
     else if n \<le> 255 then opcode p = OP_PUSHDATA1
     else if n \<le> 65535 then opcode p = OP_PUSHDATA2
     else True)"

definition isMinimalScriptNum :: "bytes \<Rightarrow> bool" where
  "isMinimalScriptNum d =
    (if d = [] then True
     else if d ! (length d - 1) AND 0x7f = 0 then length d > 1 \<and> d ! (length d - 2) AND 0x80 \<noteq> 0
     else True)"

text \<open>\<^verbatim>\<open>BigInt\<close> arithmetic; the final \<^verbatim>\<open>Number(result)\<close> is exact on the range the caller accepts.\<close>

definition scriptNumToInt64 :: "bytes \<Rightarrow> int result" where
  "scriptNumToInt64 d =
    (if d = [] then Inr 0
     else if length d > 8 then Inl ''script number too long (''
     else (let r = foldl (\<lambda>acc i. acc OR push_bit (8 * i) (uint (d ! i))) 0 [0..<length d] in
       if d ! (length d - 1) AND 0x80 \<noteq> 0
       then Inr (- (r AND NOT (push_bit (8 * (length d - 1)) 0x80)))
       else Inr r))"

record uap_script =
  pubkey :: bytes
  multiplier :: int
  origin :: bytes
  isMint :: bool

definition decodeMultiplier :: "script_push \<Rightarrow> int option" where
  "decodeMultiplier mult =
    (if \<not> isPush mult \<and> 0x51 \<le> opcode mult \<and> opcode mult \<le> 0x60 then Some (uint (opcode mult) - 0x50)
     else if isPush mult \<and> isMinimalPush mult \<and> isMinimalScriptNum (data mult)
     then (case scriptNumToInt64 (data mult) of Inl _ \<Rightarrow> None | Inr v \<Rightarrow> Some v)
     else None)"

definition parseUapScript :: "bytes \<Rightarrow> uap_script option" where
  "parseUapScript spk =
    (if length spk < 2 then None
     else (let lst = spk ! (length spk - 1) in
     if lst \<noteq> OP_MINT \<and> lst \<noteq> OP_MINT_TRANSFER then None
     else (let mint = (lst = OP_MINT) in
     case readPushes spk of
       Inl _ \<Rightarrow> None
     | Inr pushes \<Rightarrow>
       (if length pushes \<noteq> (if mint then 3 else 4) then None
        else (let pk = pushes ! 0 in
        if \<not> isPush pk \<or> \<not> isMinimalPush pk \<or> (length (data pk) \<noteq> 33 \<and> length (data pk) \<noteq> 65) then None
        else (case decodeMultiplier (pushes ! 1) of
          None \<Rightarrow> None
        | Some mu \<Rightarrow>
          (if mu < 0 \<or> mu > 2147483647 then None
           else if mint then
             (if isPush (pushes ! 2) \<or> opcode (pushes ! 2) \<noteq> OP_MINT then None
              else Some \<lparr>pubkey = data pk, multiplier = mu, origin = [], isMint = True\<rparr>)
           else
             (let oe = pushes ! 2 in
              if \<not> isPush oe \<or> \<not> isMinimalPush oe \<or> length (data oe) \<noteq> 32 then None
              else if isPush (pushes ! 3) \<or> opcode (pushes ! 3) \<noteq> OP_MINT_TRANSFER then None
              else Some \<lparr>pubkey = data pk, multiplier = mu, origin = data oe, isMint = False\<rparr>))))))))"

section \<open>Ticker metadata\<close>

definition METADATA_MAGIC :: bytes where
  "METADATA_MAGIC = [0x57, 0x55, 0x41, 0x50]"

definition METADATA_VERSION :: byte where
  "METADATA_VERSION = 0x02"

definition MAX_METADATA_SCRIPT_BYTES :: nat where
  "MAX_METADATA_SCRIPT_BYTES = 83"

definition MAX_TICKER_BYTES :: nat where
  "MAX_TICKER_BYTES = 8"

text \<open>
  \<^verbatim>\<open>toUpperCase\<close> on the characters of the model. The two letters whose upper case lies outside
  it (\<^verbatim>\<open>0xb5\<close> and \<^verbatim>\<open>0xff\<close>) stay as they are: either way one character that is no ticker letter.
\<close>

definition upperChar :: "char \<Rightarrow> string" where
  "upperChar c = (let n = (of_char c :: nat) in
     if (97 \<le> n \<and> n \<le> 122) \<or> (224 \<le> n \<and> n \<le> 254 \<and> n \<noteq> 247) then [char_of (n - 32)]
     else if n = 223 then ''SS''
     else [c])"

definition toUpperCase :: "string \<Rightarrow> string" where
  "toUpperCase s = concat (map upperChar s)"

definition isTickerChar :: "char \<Rightarrow> bool" where
  "isTickerChar c = (let n = (of_char c :: nat) in (0x30 \<le> n \<and> n \<le> 0x39) \<or> (0x41 \<le> n \<and> n \<le> 0x5a))"

definition normalizeTicker :: "string \<Rightarrow> string result" where
  "normalizeTicker ticker =
    (let upper = toUpperCase ticker in
     if length upper < 1 \<or> length upper > MAX_TICKER_BYTES then Inl ''ticker must be 1..8 characters, got ''
     else if \<not> list_all isTickerChar upper then Inl ''ticker contains invalid character ''
     else Inr upper)"

text \<open>\<^verbatim>\<open>TextEncoder\<close>: UTF-8 of the characters of the model.\<close>

definition utf8Char :: "char \<Rightarrow> bytes" where
  "utf8Char c = (let n = (of_char c :: nat) in
     if n < 128 then [of_nat n] else [of_nat (192 + n div 64), of_nat (128 + n mod 64)])"

definition textEncode :: "string \<Rightarrow> bytes" where
  "textEncode s = concat (map utf8Char s)"

definition buildMetadataScript :: "string \<Rightarrow> bytes option \<Rightarrow> bytes result" where
  "buildMetadataScript ticker metadataHash =
    bindR (normalizeTicker ticker) (\<lambda>tk.
    (let hashBytes = (case metadataHash of None \<Rightarrow> [] | Some h \<Rightarrow> h) in
     if length hashBytes \<noteq> 0 \<and> length hashBytes \<noteq> 32
     then Inl ''metadata hash must be empty or exactly 32 bytes, got ''
     else
       bindR (pushData METADATA_MAGIC) (\<lambda>p1.
       bindR (pushData [METADATA_VERSION]) (\<lambda>p2.
       bindR (pushData (textEncode tk)) (\<lambda>p3.
       bindR (pushData hashBytes) (\<lambda>p4.
       (let script = concatBytes [[OP_RETURN], p1, p2, p3, p4] in
        if length script > MAX_METADATA_SCRIPT_BYTES then Inl ''internal error: built a ''
        else Inr script)))))))"

section \<open>Lemmas: pushes\<close>

definition pushOpcode :: "nat \<Rightarrow> byte" where
  "pushOpcode n = (if n < 0x4c then of_nat n else if n \<le> 0xff then OP_PUSHDATA1 else OP_PUSHDATA2)"

definition pushHeader :: "nat \<Rightarrow> bytes" where
  "pushHeader n = (if n < 0x4c then [of_nat n] else if n \<le> 0xff then [OP_PUSHDATA1, of_nat n]
     else OP_PUSHDATA2 # split16 (of_nat n))"

lemma pushData_eq: "pushData d = Inr bs \<longleftrightarrow> length d \<le> 0xffff \<and> bs = pushHeader (length d) @ d"
  by (auto simp: pushData_def pushHeader_def Let_def)

lemma pushData_small: "length d < 0x4c \<Longrightarrow> pushData d = Inr (of_nat (length d) # d)"
  by (simp add: pushData_def)

lemma readPushes_opcode:
  assumes "0x4e < b"
  shows "readPushes (b # r) = mapR (Cons (scriptPush False b [])) (readPushes r)"
proof -
  have "\<not> b \<le> 0x4b" "b \<noteq> OP_PUSHDATA1" "b \<noteq> OP_PUSHDATA2" "b \<noteq> OP_PUSHDATA4" "b \<noteq> OP_0"
    using assms by (auto simp: byte_le_iff word_less_nat_alt)
  then show ?thesis by (simp add: mapR_def)
qed

lemma readPushes_pushHeader:
  assumes "length d \<le> 0xffff"
  shows "readPushes (pushHeader (length d) @ d @ r)
    = mapR (Cons (scriptPush True (pushOpcode (length d)) d)) (readPushes r)"
proof -
  let ?n = "length d"
  consider (zero) "?n = 0" | (direct) "1 \<le> ?n" "?n < 0x4c" | (one) "0x4c \<le> ?n" "?n \<le> 0xff" | (two) "0xff < ?n"
    by linarith
  then show ?thesis
  proof cases
    case zero
    then show ?thesis by (simp add: pushHeader_def pushOpcode_def mapR_def)
  next
    case direct
    then have "unat (of_nat ?n :: byte) = ?n" by (intro unat_of_nat8) simp
    with direct show ?thesis
      by (simp add: pushHeader_def pushOpcode_def mapR_def byte_le_iff)
  next
    case one
    then have "unat (of_nat ?n :: byte) = ?n" by (intro unat_of_nat8) simp
    with one show ?thesis
      by (simp add: pushHeader_def pushOpcode_def mapR_def)
  next
    case two
    let ?w = "of_nat ?n :: 32 word"
    have w: "unat ?w = ?n" "take_bit 16 ?w = ?w"
      using assms by (simp_all add: unat_of_nat32 take_bit_16_of_nat)
    obtain x y where s: "split16 ?w = [x, y]" by (simp add: split16_def)
    then have "join16 x y = ?w" using join16_split16 [OF w(2)] by simp
    with two w s show ?thesis
      by (simp add: pushHeader_def pushOpcode_def mapR_def)
  qed
qed

lemma isMinimalPush_pushOpcode:
  assumes "length d \<le> 0xffff" "length d \<noteq> 1 \<or> (16 < unat (d ! 0) \<and> d ! 0 \<noteq> 0x81)"
  shows "isMinimalPush (scriptPush True (pushOpcode (length d)) d)"
  using assms by (auto simp: isMinimalPush_def scriptPush_def pushOpcode_def byte_le_iff Let_def)

section \<open>Lemmas: script numbers\<close>

lemma magnitudeBytes_0 [simp]: "magnitudeBytes 0 = []"
  by (simp add: magnitudeBytes.simps)

lemma magnitudeBytes_pos: "0 < n \<Longrightarrow> magnitudeBytes n = of_nat n # magnitudeBytes (n div 256)"
  by (subst magnitudeBytes.simps) simp

lemma of_nat_low_byte: "unat (of_nat n :: byte) = n mod 256"
  by (simp add: unat_of_nat take_bit_eq_mod)

lemma leVal_magnitudeBytes [simp]: "leVal (magnitudeBytes n) = n"
proof (induction n rule: less_induct)
  case (less n)
  show ?case
  proof (cases "n = 0")
    case False
    then have "leVal (magnitudeBytes (n div 256)) = n div 256" by (intro less) simp
    with False show ?thesis by (simp add: magnitudeBytes_pos of_nat_low_byte)
  qed simp
qed

lemma magnitudeBytes_leVal: "xs = [] \<or> last xs \<noteq> 0 \<Longrightarrow> magnitudeBytes (leVal xs) = xs"
proof (induction xs)
  case (Cons b r)
  have pos: "0 < leVal (b # r)" using Cons.prems by (intro leVal_pos) auto
  have "(unat b + 256 * leVal r) div 256 = leVal r" using unat_byte_less [of b] by simp
  moreover have "(of_nat (unat b + 256 * leVal r) :: byte) = b"
    using unat_byte_less [of b] by (intro word_unat_eq_iff [THEN iffD2]) (simp only: of_nat_low_byte mod_mult_self2 mod_less)
  moreover have "magnitudeBytes (leVal r) = r" using Cons by (intro Cons.IH) (auto split: if_splits)
  ultimately show ?case using magnitudeBytes_pos [OF pos] by simp
qed simp

lemma magnitudeBytes_eq_Nil [simp]: "magnitudeBytes n = [] \<longleftrightarrow> n = 0"
  by (metis leVal.simps(1) leVal_magnitudeBytes magnitudeBytes_0)

lemma last_magnitudeBytes: "0 < n \<Longrightarrow> last (magnitudeBytes n) \<noteq> 0"
proof (induction n rule: less_induct)
  case (less n)
  show ?case
  proof (cases "n < 256")
    case True
    then show ?thesis using less.prems unat_of_nat8 [OF True]
      by (auto simp: magnitudeBytes_pos word_unat_eq_iff)
  next
    case False
    then have "last (magnitudeBytes (n div 256)) \<noteq> 0" by (intro less) (simp_all add: div_greater_zero_iff)
    moreover have "n div 256 \<noteq> 0" using False by (simp add: div_eq_0_iff)
    ultimately show ?thesis using less.prems by (simp add: magnitudeBytes_pos [of n])
  qed
qed

lemma length_magnitudeBytes: "n < 256 ^ k \<Longrightarrow> length (magnitudeBytes n) \<le> k"
proof (induction k arbitrary: n)
  case (Suc k)
  have "n div 256 < 256 ^ k" using Suc.prems by (simp add: less_mult_imp_div_less mult.commute)
  then show ?case using Suc.IH by (cases "n = 0") (simp_all add: magnitudeBytes_pos)
qed simp

lemma scriptNumBytes_nonneg:
  assumes "0 < n"
  shows "scriptNumBytes n = (let out = magnitudeBytes (nat n) in if 128 \<le> unat (last out) then out @ [0] else out)"
  using assms by (simp add: scriptNumBytes_def and_0x80 Let_def)

text \<open>A script number that parses to a non-negative value is the encoding of that value.\<close>

lemma scriptNumToInt64_eq:
  assumes "d \<noteq> []" "length d \<le> 8"
  shows "scriptNumToInt64 d = Inr (if 128 \<le> unat (last d)
    then - (int (leVal d) - 2 ^ (8 * (length d - 1) + 7)) else int (leVal d))"
proof -
  have l: "d ! (length d - 1) = last d" using assms by (simp add: last_conv_nth)
  have e: "push_bit (8 * (length d - 1)) (0x80 :: int) = 2 ^ (8 * (length d - 1) + 7)"
    by (simp add: push_bit_eq_mult power_add)
  have b: "bit (int (leVal d)) (8 * (length d - 1) + 7)" if "128 \<le> unat (last d)"
  proof -
    obtain xs x where d: "d = xs @ [x]" using assms(1) by (metis append_butlast_last_id)
    then have x: "128 \<le> unat x" using that by simp
    have "leVal d = leVal xs + 256 ^ length xs * unat x" using d by (simp add: leVal_append)
    moreover have "leVal xs < 256 ^ length xs" by (rule leVal_bound)
    ultimately have "leVal d div 256 ^ length xs = unat x" by simp
    moreover have "leVal d div 2 ^ (8 * length xs + 7) = leVal d div 256 ^ length xs div 128"
      by (simp add: power_add power_mult div_mult2_eq)
    moreover have "unat x div 128 = 1" using x unat_byte_less [of x] by simp
    ultimately have "odd (leVal d div 2 ^ (8 * length xs + 7))" by simp
    then have "bit (leVal d) (8 * length xs + 7)" by (simp add: bit_iff_odd)
    then show ?thesis using d by (simp add: bit_of_nat_iff)
  qed
  have "d ! (length d - 1) AND 0x80 \<noteq> 0 \<longleftrightarrow> 128 \<le> unat (last d)" by (simp only: l and_0x80)
  then show ?thesis
    using assms b and_not_exp [of "int (leVal d)"]
    by (simp add: scriptNumToInt64_def foldl_or_leVal e Let_def del: One_nat_def)
qed

lemma isMinimalScriptNum_last:
  assumes "d \<noteq> []" "isMinimalScriptNum d" "unat (last d) < 128"
  shows "last d \<noteq> 0 \<or> (\<exists>m. d = m @ [0] \<and> m \<noteq> [] \<and> 128 \<le> unat (last m))"
proof -
  obtain m x where d: "d = m @ [x]" using assms(1) by (metis append_butlast_last_id)
  show ?thesis
  proof (cases "x = 0")
    case True
    with assms(2) d have "0 < length m" "(m @ [x]) ! (length m - 1) AND 0x80 \<noteq> 0"
      by (simp_all add: isMinimalScriptNum_def)
    then have "m \<noteq> []" "128 \<le> unat (last m)" by (simp_all add: nth_append last_conv_nth and_0x80 del: One_nat_def)
    with d True show ?thesis by auto
  qed (simp add: d)
qed

lemma isMinimalScriptNum_scriptNumBytes:
  assumes "0 < n"
  shows "isMinimalScriptNum (scriptNumBytes n)"
proof -
  let ?m = "magnitudeBytes (nat n)"
  have ne: "?m \<noteq> []" and l: "last ?m \<noteq> 0" using assms last_magnitudeBytes by auto
  have lm: "?m ! (length ?m - 1) = last ?m" using ne by (simp add: last_conv_nth)
  show ?thesis
  proof (cases "128 \<le> unat (last ?m)")
    case True
    then have "scriptNumBytes n = ?m @ [0]" using assms by (simp add: scriptNumBytes_nonneg Let_def)
    moreover have "(?m @ [0]) ! (length ?m - 1) AND 0x80 \<noteq> 0"
      using ne True lm by (simp add: nth_append and_0x80 del: One_nat_def)
    ultimately show ?thesis using ne by (simp add: isMinimalScriptNum_def)
  next
    case False
    then have "scriptNumBytes n = ?m" using assms by (simp add: scriptNumBytes_nonneg Let_def)
    moreover have "last ?m AND 0x7f \<noteq> 0"
      using False l and_0x7f [of "last ?m"] unat_gt_0 [of "last ?m"] by auto
    ultimately show ?thesis using ne lm by (simp add: isMinimalScriptNum_def del: One_nat_def)
  qed
qed

lemma scriptNumBytes_ne: "0 < n \<Longrightarrow> scriptNumBytes n \<noteq> []"
  by (simp add: scriptNumBytes_nonneg Let_def)

lemma length_scriptNumBytes:
  assumes "0 < n" "n \<le> 2147483647"
  shows "length (scriptNumBytes n) \<le> 4"
proof -
  let ?m = "magnitudeBytes (nat n)"
  have l: "length ?m \<le> 4" using assms by (intro length_magnitudeBytes) auto
  have "length ?m \<le> 3" if "128 \<le> unat (last ?m)"
  proof (rule ccontr)
    assume "\<not> length ?m \<le> 3"
    with l have len: "length ?m = 4" by simp
    obtain m x where d: "?m = m @ [x]" using len by (metis append_butlast_last_id list.size(3) zero_neq_numeral)
    have "128 * 256 ^ 3 \<le> leVal ?m" using d len that by (simp add: leVal_append)
    then show False using assms by simp
  qed
  then show ?thesis using assms l by (auto simp: scriptNumBytes_nonneg Let_def)
qed

lemma scriptNumToInt64_scriptNumBytes:
  assumes "0 < n" "n \<le> 2147483647"
  shows "scriptNumToInt64 (scriptNumBytes n) = Inr n"
proof -
  have "unat (last (scriptNumBytes n)) < 128" using assms(1)
    by (auto simp: scriptNumBytes_nonneg Let_def)
  moreover have "leVal (scriptNumBytes n) = nat n" using assms(1)
    by (auto simp: scriptNumBytes_nonneg Let_def leVal_append)
  ultimately show ?thesis
    using scriptNumToInt64_eq [of "scriptNumBytes n"] length_scriptNumBytes [OF assms] scriptNumBytes_ne assms
    by simp
qed

lemma scriptNumBytes_scriptNumToInt64:
  assumes "scriptNumToInt64 d = Inr n" "isMinimalScriptNum d" "d \<noteq> []" "0 \<le> n"
  shows "0 < n \<and> scriptNumBytes n = d"
proof -
  have len: "length d \<le> 8" using assms by (auto simp: scriptNumToInt64_def split: if_splits)
  note v = scriptNumToInt64_eq [OF assms(3) len]
  show ?thesis
  proof (cases "128 \<le> unat (last d)")
    case True
    obtain m x where d: "d = m @ [x]" using assms(3) by (metis append_butlast_last_id)
    have "2 ^ (8 * length m + 7) - int (leVal d) = n"
      using v assms(1) True d by simp
    then have "int (leVal d) \<le> 2 ^ (8 * length m + 7)" using assms(4) by linarith
    also have "\<dots> = int (256 ^ length m * 128)" by (simp add: power_add power_mult)
    finally have "leVal m + 256 ^ length m * unat x \<le> 256 ^ length m * 128"
      using d by (simp only: leVal_append leVal.simps of_nat_le_iff) simp
    note le = this
    then have "256 ^ length m * unat x \<le> 256 ^ length m * 128" by linarith
    then have u: "unat x = 128" using True d by simp
    with le have z: "leVal m = 0" by simp
    from u have "x = 0x80" by (simp add: byte_eq_iff)
    then have "d ! (length d - 1) AND 0x7f = 0" using d by simp
    then have "0 < length m" "128 \<le> unat (last m)" using assms(2) d
      by (auto simp: isMinimalScriptNum_def nth_append last_conv_nth and_0x80)
    then have "0 < leVal m" by (intro leVal_pos) auto
    then show ?thesis using z by simp
  next
    case False
    then have n: "n = int (leVal d)" using v assms(1) by simp
    from isMinimalScriptNum_last [OF assms(3,2)] False
    consider "last d \<noteq> 0" | m where "d = m @ [0]" "m \<noteq> []" "128 \<le> unat (last m)" by auto
    then show ?thesis
    proof cases
      case 1
      then have "0 < leVal d" "magnitudeBytes (leVal d) = d" using assms(3)
        by (auto intro: leVal_pos magnitudeBytes_leVal)
      then show ?thesis using n False by (simp add: scriptNumBytes_nonneg Let_def)
    next
      case 2
      then have "last m \<noteq> 0" by auto
      then have "0 < leVal m" "magnitudeBytes (leVal m) = m" using 2
        by (auto intro: leVal_pos magnitudeBytes_leVal)
      then show ?thesis using n 2 by (simp add: scriptNumBytes_nonneg Let_def leVal_append)
    qed
  qed
qed

section \<open>Lemmas: reading pushes is the inverse of writing them\<close>

text \<open>The bytes one element of \<open>readPushes\<close> was read from.\<close>

definition rawPush :: "script_push \<Rightarrow> bytes" where
  "rawPush p =
    (if \<not> isPush p \<or> opcode p = OP_0 then [opcode p]
     else if opcode p = OP_PUSHDATA1 then opcode p # of_nat (length (data p)) # data p
     else if opcode p = OP_PUSHDATA2 then opcode p # split16 (of_nat (length (data p))) @ data p
     else if opcode p = OP_PUSHDATA4 then opcode p # split32 (of_nat (length (data p))) @ data p
     else opcode p # data p)"

definition wfPush :: "script_push \<Rightarrow> bool" where
  "wfPush p =
    (if \<not> isPush p then data p = [] \<and> 0x4e < opcode p
     else if opcode p = OP_PUSHDATA1 then length (data p) < 2 ^ 8
     else if opcode p = OP_PUSHDATA2 then length (data p) < 2 ^ 16
     else if opcode p = OP_PUSHDATA4 then length (data p) < 2 ^ 32
     else unat (opcode p) \<le> 0x4b \<and> length (data p) = unat (opcode p))"

lemma scriptPush_sel [simp]:
  "isPush (scriptPush p c d) = p" "opcode (scriptPush p c d) = c" "data (scriptPush p c d) = d"
  by (simp_all add: scriptPush_def)

lemma unat_join16_less: "unat (join16 x y) < 2 ^ 16"
proof -
  have "join16 x y = take_bit 16 (join16 x y)"
    by (rule bit_word_eqI) (auto simp: join16_def bit_simps dest: bit_imp_le_length)
  then have "unat (join16 x y) = take_bit 16 (unat (join16 x y))" by (metis unsigned_take_bit_eq)
  then show ?thesis using take_bit_nat_less_exp [of 16 "unat (join16 x y)"] by simp
qed

lemma readPushes_raw_step:
  assumes "readPushes (b # r) = Inr ps"
  obtains p r' ps' where "ps = p # ps'" "b # r = rawPush p @ r'" "wfPush p" "readPushes r' = Inr ps'"
proof -
  consider (direct) "1 \<le> b" "b \<le> 0x4b" | (pd1) "b = OP_PUSHDATA1" | (pd2) "b = OP_PUSHDATA2"
    | (pd4) "b = OP_PUSHDATA4" | (zero) "b = OP_0" | (op) "0x4e < b"
  proof -
    have "unat b = 0 \<or> 1 \<le> unat b \<and> unat b \<le> 0x4b \<or> unat b = 0x4c \<or> unat b = 0x4d \<or> unat b = 0x4e \<or> 0x4e < unat b"
      by linarith
    then show ?thesis using that by (auto simp: byte_le_iff word_less_nat_alt byte_eq_iff)
  qed
  then show ?thesis
  proof cases
    case direct
    then have "b \<noteq> OP_0" "b \<noteq> OP_PUSHDATA1" "b \<noteq> OP_PUSHDATA2" "b \<noteq> OP_PUSHDATA4" by (auto simp: byte_le_iff)
    with direct assms show ?thesis
      by (intro that [of "scriptPush True b (take (unat b) r)" "tl ps" "drop (unat b) r"])
        (auto simp: result_simps rawPush_def wfPush_def byte_le_iff split: if_splits)
  next
    case pd1
    then obtain n r1 where r: "r = n # r1" using assms by (auto split: list.splits)
    with pd1 assms show ?thesis
      by (intro that [of "scriptPush True b (take (unat n) r1)" "tl ps" "drop (unat n) r1"])
        (auto simp: result_simps rawPush_def wfPush_def min_def unat_byte_less split: if_splits)
  next
    case pd2
    then obtain x y r1 where r: "r = x # y # r1" using assms by (auto split: list.splits)
    have "split16 (join16 x y) = [x, y]" by (rule split16_join16)
    with pd2 r assms unat_join16_less [of x y] show ?thesis
      by (intro that [of "scriptPush True b (take (unat (join16 x y)) r1)" "tl ps" "drop (unat (join16 x y)) r1"])
        (auto simp: result_simps rawPush_def wfPush_def min_def Let_def split: if_splits)
  next
    case pd4
    then obtain x y z t r1 where r: "r = x # y # z # t # r1" using assms by (auto split: list.splits)
    have "split32 (join32 x y z t) = [x, y, z, t]" by (rule split32_join32)
    with pd4 r assms unsigned_less [of "join32 x y z t"] show ?thesis
      by (intro that [of "scriptPush True b (take (unat (join32 x y z t)) r1)" "tl ps" "drop (unat (join32 x y z t)) r1"])
        (auto simp: result_simps rawPush_def wfPush_def min_def Let_def split: if_splits)
  next
    case zero
    with assms show ?thesis
      by (intro that [of "scriptPush True b []" "tl ps" r]) (auto simp: result_simps rawPush_def wfPush_def)
  next
    case op
    with assms show ?thesis
      by (intro that [of "scriptPush False b []" "tl ps" r])
        (auto simp: result_simps rawPush_def wfPush_def readPushes_opcode simp del: readPushes.simps)
  qed
qed

lemma readPushes_raw:
  "readPushes s = Inr ps \<Longrightarrow> s = concat (map rawPush ps) \<and> list_all wfPush ps"
proof (induction ps arbitrary: s)
  case Nil
  then show ?case by (cases s) (auto elim: readPushes_raw_step simp del: readPushes.simps(2))
next
  case (Cons p ps)
  then show ?case by (cases s) (auto elim!: readPushes_raw_step simp del: readPushes.simps(2))
qed

text \<open>A minimal push is the one \<open>pushData\<close> emits.\<close>

lemma wfPush_opcode: "wfPush p \<Longrightarrow> isPush p \<Longrightarrow> unat (opcode p) \<le> 0x4e"
  by (auto simp: wfPush_def split: if_splits)

lemma rawPush_minimal:
  assumes w: "wfPush p" "isPush p" and m: "isMinimalPush p" and l: "length (data p) \<le> 0xffff"
  shows "pushData (data p) = Inr (rawPush p)"
proof -
  have o: "unat (opcode p) \<le> 0x4e" using w by (rule wfPush_opcode)
  have one: "\<not> (length (data p) = 1 \<and> 1 \<le> data p ! 0 \<and> data p ! 0 \<le> 16)"
  proof
    assume a: "length (data p) = 1 \<and> 1 \<le> data p ! 0 \<and> data p ! 0 \<le> 16"
    then have e: "opcode p = 0x50 + data p ! 0" using m by (auto simp: isMinimalPush_def Let_def split: if_splits)
    have u: "1 \<le> unat (data p ! 0)" "unat (data p ! 0) \<le> 16" using a by (auto simp: byte_le_iff)
    then have "unat (0x50 + data p ! 0) = 0x50 + unat (data p ! 0)" by (subst unat_add_lem [THEN iffD1]) simp_all
    then show False using o e by simp
  qed
  have mone: "\<not> (length (data p) = 1 \<and> data p ! 0 = 0x81)"
    using o m by (auto simp: isMinimalPush_def Let_def split: if_splits)
  have m': "opcode p = pushOpcode (length (data p))"
    using m l one mone by (auto simp: isMinimalPush_def pushOpcode_def Let_def split: if_splits)
  have "rawPush p = pushHeader (length (data p)) @ data p"
    using w l m' unat_of_nat8 [of "length (data p)"]
    by (auto simp: rawPush_def pushHeader_def pushOpcode_def byte_eq_iff)
  then show ?thesis using l by (simp add: pushData_eq)
qed

section \<open>Lemmas: the multiplier\<close>

lemma pushMultiplier_range: "pushMultiplier n = Inr bs \<Longrightarrow> 0 \<le> n \<and> n \<le> 2147483647"
  by (auto simp: pushMultiplier_def split: if_splits)

lemma unat_of_int8: "0 \<le> n \<Longrightarrow> n < 256 \<Longrightarrow> unat (of_int n :: byte) = nat n"
  using unat_of_nat8 [of "nat n"] by simp

lemma scriptNumBytes_single:
  assumes "0 < n" "n < 128"
  shows "scriptNumBytes n = [of_int n]"
proof -
  have "magnitudeBytes (nat n) = [of_int n]" using assms by (simp add: magnitudeBytes_pos)
  moreover have "unat (of_int n :: byte) < 128" using assms by (simp add: unat_of_int8)
  ultimately show ?thesis using assms by (simp add: scriptNumBytes_nonneg Let_def)
qed

lemma scriptNumBytes_not_small:
  assumes "16 < n" "n \<le> 2147483647" "length (scriptNumBytes n) = 1"
  shows "16 < unat (scriptNumBytes n ! 0) \<and> scriptNumBytes n ! 0 \<noteq> 0x81"
proof -
  obtain x where x: "scriptNumBytes n = [x]" using assms(3) by (auto simp: length_Suc_conv)
  have "scriptNumToInt64 [x] = Inr n" using scriptNumToInt64_scriptNumBytes [of n] assms x by simp
  then have "\<not> 128 \<le> unat x" "int (unat x) = n"
    using assms(1) scriptNumToInt64_eq [of "[x]"] unat_byte_less [of x]
    by (auto simp del: of_nat_unat int_nat_eq split: if_splits)
  then have "16 < unat x" "unat x \<noteq> 0x81" using assms(1) by linarith+
  then show ?thesis using x by auto
qed

lemma pushMultiplier_decode:
  assumes "pushMultiplier n = Inr bs"
  obtains p where "\<And>r. readPushes (bs @ r) = mapR (Cons p) (readPushes r)" "decodeMultiplier p = Some n"
proof -
  note rng = pushMultiplier_range [OF assms]
  consider (zero) "n = 0" | (small) "0 < n" "n \<le> 16" | (large) "16 < n" using rng by linarith
  then show ?thesis
  proof cases
    case zero
    then show ?thesis using assms
      by (intro that [of "scriptPush True OP_0 []"])
        (auto simp: pushMultiplier_def mapR_def decodeMultiplier_def isMinimalPush_def isMinimalScriptNum_def
          scriptNumToInt64_def Let_def)
  next
    case small
    let ?o = "OP_1 + of_int (n - 1) :: byte"
    have o: "uint ?o = 0x50 + n" using small by (simp add: uint_word_ariths uint_word_of_int)
    then have "unat ?o = nat (0x50 + n)" by (simp only: unat_eq_nat_uint)
    then have "0x4e < ?o" "0x51 \<le> ?o" "?o \<le> 0x60" using small by (auto simp: byte_le_iff word_less_nat_alt)
    with small o assms show ?thesis
      by (intro that [of "scriptPush False ?o []"])
        (auto simp: pushMultiplier_def decodeMultiplier_def readPushes_opcode simp del: readPushes.simps)
  next
    case large
    let ?d = "scriptNumBytes n"
    have l: "length ?d \<le> 4" using rng large by (intro length_scriptNumBytes) auto
    have bs: "bs = pushHeader (length ?d) @ ?d" using assms large rng by (auto simp: pushMultiplier_def pushData_eq)
    have "isMinimalPush (scriptPush True (pushOpcode (length ?d)) ?d)"
      using l scriptNumBytes_not_small [of n] rng large by (intro isMinimalPush_pushOpcode) auto
    then show ?thesis
      using l bs large rng isMinimalScriptNum_scriptNumBytes [of n] scriptNumToInt64_scriptNumBytes [of n]
      by (intro that [of "scriptPush True (pushOpcode (length ?d)) ?d"])
        (auto simp: decodeMultiplier_def readPushes_pushHeader)
  qed
qed

lemma decode_pushMultiplier:
  assumes w: "wfPush p" and d: "decodeMultiplier p = Some n" and r: "0 \<le> n" "n \<le> 2147483647"
  shows "pushMultiplier n = Inr (rawPush p)"
proof (cases "isPush p")
  case False
  then have o: "0x51 \<le> unat (opcode p)" "unat (opcode p) \<le> 0x60" and n: "n = uint (opcode p) - 0x50"
    using d by (auto simp: decodeMultiplier_def byte_le_iff split: if_splits)
  have "uint (opcode p) = int (unat (opcode p))" by simp
  then have "0 < n" "n \<le> 16" using o n by linarith+
  moreover have "OP_1 + of_int (n - 1) = opcode p" using n by simp
  ultimately show ?thesis using False by (simp add: pushMultiplier_def rawPush_def)
next
  case True
  then have m: "isMinimalPush p" "isMinimalScriptNum (data p)" and v: "scriptNumToInt64 (data p) = Inr n"
    using d by (auto simp: decodeMultiplier_def split: if_splits sum.splits)
  have l: "length (data p) \<le> 8" using v by (auto simp: scriptNumToInt64_def split: if_splits)
  then have raw: "pushData (data p) = Inr (rawPush p)" using w True m by (intro rawPush_minimal) auto
  show ?thesis
  proof (cases "data p = []")
    case True
    then have "n = 0" using v by (simp add: scriptNumToInt64_def)
    with True raw show ?thesis by (simp add: pushMultiplier_def pushData_def)
  next
    case False
    then have n: "0 < n" "scriptNumBytes n = data p"
      using scriptNumBytes_scriptNumToInt64 [OF v m(2)] r by auto
    have "16 < n"
    proof (rule ccontr)
      assume "\<not> 16 < n"
      then have dp: "data p = [of_int n]" using n scriptNumBytes_single [of n] by simp
      have u: "unat (of_int n :: byte) = nat n" using n \<open>\<not> 16 < n\<close> by (simp add: unat_of_int8)
      then have "opcode p = 0x50 + of_int n"
        using m(1) dp n \<open>\<not> 16 < n\<close> by (auto simp: isMinimalPush_def byte_le_iff Let_def split: if_splits)
      moreover have "unat (0x50 + of_int n :: byte) = 0x50 + nat n"
        using u \<open>\<not> 16 < n\<close> by (subst unat_add_lem [THEN iffD1]) simp_all
      ultimately show False using wfPush_opcode [OF w True] n by simp
    qed
    with n r raw show ?thesis by (simp add: pushMultiplier_def)
  qed
qed

section \<open>Building and parsing covenants are inverse\<close>

definition pubkeySize :: "bytes \<Rightarrow> bool" where
  "pubkeySize pk \<longleftrightarrow> length pk = 33 \<or> length pk = 65"

lemma readPushes_single: "0x4e < b \<Longrightarrow> readPushes [b] = Inr [scriptPush False b []]"
  by (simp add: readPushes_opcode del: readPushes.simps(2))

lemma minimal_pubkey: "pubkeySize pk \<Longrightarrow> isMinimalPush (scriptPush True (pushOpcode (length pk)) pk)"
  by (rule isMinimalPush_pushOpcode) (auto simp: pubkeySize_def)

lemma readPushes_field:
  assumes "pushData d = Inr bs"
  shows "readPushes (bs @ r) = mapR (Cons (scriptPush True (pushOpcode (length d)) d)) (readPushes r)"
  using assms readPushes_pushHeader [of d r] by (auto simp: pushData_eq)

lemma pushData_ne: "pushData d = Inr bs \<Longrightarrow> bs \<noteq> []"
  by (auto simp: pushData_eq pushHeader_def)

lemma length_3E: assumes "length xs = 3" obtains a b c where "xs = [a, b, c]"
  using assms by (auto simp: numeral_3_eq_3 length_Suc_conv)

lemma length_4E: assumes "length xs = 4" obtains a b c d where "xs = [a, b, c, d]"
  using assms by (auto simp: eval_nat_numeral length_Suc_conv)

text \<open>The accepting runs of the parser, as equations on the pushes it reads.\<close>

lemma parseUapScript_Some:
  "parseUapScript s = Some u \<longleftrightarrow>
    (\<exists>a b c m. readPushes s = Inr [a, b, c] \<and> 2 \<le> length s \<and> last s = OP_MINT
      \<and> isPush a \<and> isMinimalPush a \<and> pubkeySize (data a)
      \<and> decodeMultiplier b = Some m \<and> 0 \<le> m \<and> m \<le> 2147483647 \<and> \<not> isPush c \<and> opcode c = OP_MINT
      \<and> u = \<lparr>pubkey = data a, multiplier = m, origin = [], isMint = True\<rparr>)
  \<or> (\<exists>a b c d m. readPushes s = Inr [a, b, c, d] \<and> 2 \<le> length s \<and> last s = OP_MINT_TRANSFER
      \<and> isPush a \<and> isMinimalPush a \<and> pubkeySize (data a)
      \<and> decodeMultiplier b = Some m \<and> 0 \<le> m \<and> m \<le> 2147483647
      \<and> isPush c \<and> isMinimalPush c \<and> length (data c) = 32 \<and> \<not> isPush d \<and> opcode d = OP_MINT_TRANSFER
      \<and> u = \<lparr>pubkey = data a, multiplier = m, origin = data c, isMint = False\<rparr>)"
  (is "_ \<longleftrightarrow> ?M \<or> ?T")
proof
  assume p: "parseUapScript s = Some u"
  then have len: "2 \<le> length s" by (auto simp: parseUapScript_def split: if_splits)
  then have l: "s ! (length s - 1) = last s" by (subst last_conv_nth) auto
  show "?M \<or> ?T"
  proof (cases "last s = OP_MINT")
    case True
    then obtain ps where "readPushes s = Inr ps" "length ps = 3"
      using p len unfolding parseUapScript_def l Let_def pubkeySize_def by (cases "readPushes s") (auto split: if_splits)
    moreover from this obtain a b c where "ps = [a, b, c]" by (blast elim: length_3E)
    ultimately have "?M" using p len True unfolding parseUapScript_def l Let_def pubkeySize_def
      by (cases "decodeMultiplier b") (auto split: if_splits)
    then show ?thesis ..
  next
    case False
    then have t: "last s = OP_MINT_TRANSFER"
      using p len unfolding parseUapScript_def l Let_def pubkeySize_def by (auto split: if_splits)
    then obtain ps where "readPushes s = Inr ps" "length ps = 4"
      using p len unfolding parseUapScript_def l Let_def pubkeySize_def by (cases "readPushes s") (auto split: if_splits)
    moreover from this obtain a b c d where "ps = [a, b, c, d]" by (blast elim: length_4E)
    ultimately have "?T" using p len t unfolding parseUapScript_def l Let_def pubkeySize_def
      by (cases "decodeMultiplier b") (auto split: if_splits)
    then show ?thesis ..
  qed
next
  assume a: "?M \<or> ?T"
  then have "2 \<le> length s" by blast
  then have l: "s ! (length s - 1) = last s" by (subst last_conv_nth) auto
  from a show "parseUapScript s = Some u" unfolding parseUapScript_def l Let_def pubkeySize_def by auto
qed

lemma parse_buildMintScript:
  assumes "buildMintScript pk m = Inr s" "pubkeySize pk"
  shows "parseUapScript s = Some \<lparr>pubkey = pk, multiplier = m, origin = [], isMint = True\<rparr>"
proof -
  obtain pb mb where pb: "pushData pk = Inr pb" and mb: "pushMultiplier m = Inr mb" and s: "s = pb @ mb @ [OP_MINT]"
    using assms(1) by (auto simp: buildMintScript_def result_simps)
  obtain p where p: "\<And>r. readPushes (mb @ r) = mapR (Cons p) (readPushes r)" "decodeMultiplier p = Some m"
    using pushMultiplier_decode [OF mb] by blast
  have "readPushes s = Inr [scriptPush True (pushOpcode (length pk)) pk, p, scriptPush False OP_MINT []]"
    unfolding s by (simp add: p readPushes_field [OF pb] readPushes_single del: readPushes.simps(2))
  moreover have "2 \<le> length s" "last s = OP_MINT" using s pushData_ne [OF pb] by (auto simp: Suc_le_eq)
  ultimately show ?thesis
    using p(2) pushMultiplier_range [OF mb] minimal_pubkey [OF assms(2)] assms(2)
    by (simp add: parseUapScript_Some)
qed

lemma parse_buildTransferScript:
  assumes "buildTransferScript pk m og = Inr s" "pubkeySize pk"
  shows "parseUapScript s = Some \<lparr>pubkey = pk, multiplier = m, origin = og, isMint = False\<rparr>"
proof -
  obtain pb mb ob where pb: "pushData pk = Inr pb" and mb: "pushMultiplier m = Inr mb"
    and ob: "pushData og = Inr ob" and s: "s = pb @ mb @ ob @ [OP_MINT_TRANSFER]" and og: "length og = 32"
    using assms(1) by (auto simp: buildTransferScript_def result_simps)
  obtain p where p: "\<And>r. readPushes (mb @ r) = mapR (Cons p) (readPushes r)" "decodeMultiplier p = Some m"
    using pushMultiplier_decode [OF mb] by blast
  have "readPushes s = Inr [scriptPush True (pushOpcode (length pk)) pk, p,
      scriptPush True (pushOpcode (length og)) og, scriptPush False OP_MINT_TRANSFER []]"
    unfolding s by (simp add: p readPushes_field [OF pb] readPushes_field [OF ob] readPushes_single del: readPushes.simps(2))
  moreover have "2 \<le> length s" "last s = OP_MINT_TRANSFER" using s pushData_ne [OF pb] by (auto simp: Suc_le_eq)
  moreover have "isMinimalPush (scriptPush True (pushOpcode (length og)) og)"
    using og by (intro isMinimalPush_pushOpcode) auto
  ultimately show ?thesis
    using p(2) pushMultiplier_range [OF mb] minimal_pubkey [OF assms(2)] assms(2) og
    by (simp add: parseUapScript_Some)
qed

text \<open>What parses is what the builder emits for the parsed fields.\<close>

definition rebuildScript :: "uap_script \<Rightarrow> bytes result" where
  "rebuildScript u = (if isMint u then buildMintScript (pubkey u) (multiplier u)
     else buildTransferScript (pubkey u) (multiplier u) (origin u))"

lemma parseUapScript_rebuild:
  assumes "parseUapScript s = Some u"
  shows "rebuildScript u = Inr s \<and> pubkeySize (pubkey u) \<and> (isMint u \<longrightarrow> origin u = [])
    \<and> (\<not> isMint u \<longrightarrow> length (origin u) = 32)"
  using assms unfolding parseUapScript_Some
proof (elim disjE exE conjE, goal_cases)
  case (1 a b c m)
  have "rawPush c = [OP_MINT]" using 1 by (simp add: rawPush_def)
  then have s: "s = rawPush a @ rawPush b @ [OP_MINT]" and w: "wfPush a" "wfPush b"
    using readPushes_raw [OF 1(1)] by simp_all
  have "pushData (data a) = Inr (rawPush a)" using w 1 by (intro rawPush_minimal) (auto simp: pubkeySize_def)
  moreover have "pushMultiplier m = Inr (rawPush b)" using w 1 by (intro decode_pushMultiplier) auto
  ultimately show ?case using 1 s by (auto simp: rebuildScript_def buildMintScript_def)
next
  case (2 a b c d m)
  have "rawPush d = [OP_MINT_TRANSFER]" using 2 by (simp add: rawPush_def)
  then have s: "s = rawPush a @ rawPush b @ rawPush c @ [OP_MINT_TRANSFER]" and w: "wfPush a" "wfPush b" "wfPush c"
    using readPushes_raw [OF 2(1)] by simp_all
  have "pushData (data a) = Inr (rawPush a)" using w 2 by (intro rawPush_minimal) (auto simp: pubkeySize_def)
  moreover have "pushMultiplier m = Inr (rawPush b)" using w 2 by (intro decode_pushMultiplier) auto
  moreover have "pushData (data c) = Inr (rawPush c)" using w 2 by (intro rawPush_minimal) (auto simp: pubkeySize_def)
  ultimately show ?case using 2 s by (auto simp: rebuildScript_def buildTransferScript_def)
qed

section \<open>Lemmas: lineage origins\<close>

lemma deriveOrigin_txid:
  assumes "isTxid txid" "0 \<le> vout" "vout \<le> 0xffffffff"
  obtains b where "hexToBytes txid = Inr b" "length b = 32"
    "deriveOrigin txid vout = Inr (sha256 (rev b @ encodeUint32LE vout))"
proof -
  obtain b where "hexToBytes txid = Inr b" "length b = 32" using isTxid_hexToBytes [OF assms(1)] by auto
  then show ?thesis using assms by (intro that [of b]) (auto simp: deriveOrigin_def reverseBytes_def)
qed

lemma originForSpend_mint:
  assumes "buildMintScript pk m = Inr s"
  shows "originForSpend s txid vout = deriveOrigin txid vout"
proof -
  have "s \<noteq> []" "last s = OP_MINT" using assms by (auto simp: buildMintScript_def result_simps)
  then show ?thesis by (simp add: originForSpend_def Let_def last_conv_nth)
qed

lemma originForSpend_transfer:
  assumes "buildTransferScript pk m og = Inr s"
  shows "originForSpend s txid vout = Inr og"
proof -
  obtain pre where s: "s = pre @ 0x20 # og @ [OP_MINT_TRANSFER]" and og: "length og = 32"
    using assms by (auto simp: buildTransferScript_def pushData_small result_simps)
  have "s ! (length s - 1) = OP_MINT_TRANSFER" using s og by (simp add: nth_append)
  moreover have "s ! (length s - 34) = 0x20" "34 \<le> length s" using s og by simp_all
  moreover have "slice s (length s - 33) 32 = og" using s og by (simp add: slice_def)
  moreover have "s \<noteq> []" using s by simp
  ultimately show ?thesis by (simp add: originForSpend_def Let_def not_less del: One_nat_def)
qed

section \<open>Lemmas: tickers\<close>

lemma normalizeTicker_Inr:
  "normalizeTicker t = Inr u \<longleftrightarrow> u = toUpperCase t \<and> 1 \<le> length u \<and> length u \<le> 8 \<and> list_all isTickerChar u"
  by (auto simp: normalizeTicker_def MAX_TICKER_BYTES_def Let_def not_less Suc_le_eq)

lemma isTickerChar_upperChar: "isTickerChar c \<Longrightarrow> upperChar c = [c]"
  by (auto simp: isTickerChar_def upperChar_def Let_def)

lemma toUpperCase_ticker: "list_all isTickerChar s \<Longrightarrow> toUpperCase s = s"
  by (induction s) (auto simp: toUpperCase_def isTickerChar_upperChar)

definition charByte :: "char \<Rightarrow> byte" where
  "charByte c = of_nat (of_char c)"

definition metadataHashBytes :: "bytes option \<Rightarrow> bytes" where
  "metadataHashBytes h = (case h of None \<Rightarrow> [] | Some b \<Rightarrow> b)"

lemma utf8_ticker: "list_all isTickerChar s \<Longrightarrow> textEncode s = map charByte s"
  by (induction s) (auto simp: textEncode_def isTickerChar_def utf8Char_def charByte_def Let_def)

lemma buildMetadataScript_eq:
  assumes "normalizeTicker t = Inr u" "length (metadataHashBytes h) \<in> {0, 32}"
  shows "buildMetadataScript t h = Inr (OP_RETURN # pushHeader 4 @ METADATA_MAGIC @ pushHeader 1 @ [METADATA_VERSION]
    @ pushHeader (length u) @ map charByte u @ pushHeader (length (metadataHashBytes h)) @ metadataHashBytes h)"
proof -
  have u: "textEncode u = map charByte u" "length u \<le> 8" using assms(1) by (auto simp: normalizeTicker_Inr utf8_ticker)
  show ?thesis using assms u
    by (auto simp: buildMetadataScript_def metadataHashBytes_def pushData_small pushHeader_def METADATA_MAGIC_def
      MAX_METADATA_SCRIPT_BYTES_def Let_def)
qed

section \<open>Properties\<close>

text \<open>C20: Every UAP output has exactly one encoding. A script parses to given fields if and only if the
  matching builder (mint or transfer) emits exactly these bytes for the fields, the public key
  has a public key's size, and a mint carries no origin. So whatever the wallet builds is read
  back, and no second byte string is ever taken for the same position.\<close>

theorem covenant_canonical:
  "parseUapScript s = Some u \<longleftrightarrow>
    (if isMint u then buildMintScript (pubkey u) (multiplier u) = Inr s \<and> origin u = []
     else buildTransferScript (pubkey u) (multiplier u) (origin u) = Inr s)
    \<and> (length (pubkey u) = 33 \<or> length (pubkey u) = 65)" (is "?parse \<longleftrightarrow> ?build")
proof
  assume ?parse
  from parseUapScript_rebuild [OF this] show ?build by (auto simp: rebuildScript_def pubkeySize_def)
next
  assume ?build
  then show ?parse
    using parse_buildMintScript [of "pubkey u" "multiplier u" s]
      parse_buildTransferScript [of "pubkey u" "multiplier u" "origin u" s]
    by (cases "isMint u") (auto simp: pubkeySize_def)
qed

text \<open>The lineage rule for a spend. Spending a position that parses yields the position's own origin
  when it is a transfer, and the origin derived from the spent outpoint when it is a mint.\<close>

theorem origin_for_spend:
  assumes "parseUapScript s = Some u"
  shows "originForSpend s txid vout = (if isMint u then deriveOrigin txid vout else Inr (origin u))"
  using parseUapScript_rebuild [OF assms] originForSpend_mint originForSpend_transfer
  by (auto simp: rebuildScript_def)

theorem origin_for_spend_witness:
  "originForSpend (33 # replicate 33 2 @ [0x51, 32] @ replicate 32 9 @ [OP_MINT_TRANSFER]) ''00'' 0 = Inr (replicate 32 9)"
proof -
  let ?u = "\<lparr>pubkey = replicate 33 2, multiplier = 1, origin = replicate 32 9, isMint = False\<rparr> :: uap_script"
  have "parseUapScript (33 # replicate 33 2 @ [0x51, 32] @ replicate 32 9 @ [OP_MINT_TRANSFER]) = Some ?u" by code_simp
  from origin_for_spend [OF this] show ?thesis by simp
qed

end
