(* ===== verification/Indexer.thy ===== *)
theory Indexer
  imports Script
begin

text \<open>
  The readers of \<^verbatim>\<open>contrib/uap-indexer\<close> that the JavaScript builders write for:
  \<^verbatim>\<open>ParseMetadata\<close> (\<^verbatim>\<open>metadata.go\<close>), \<^verbatim>\<open>UapOriginFromOutpoint\<close> and \<^verbatim>\<open>ParseP2PKHScript\<close>
  (\<^verbatim>\<open>script.go\<close>). Go slices are byte lists, a nil result is \<open>None\<close>; the Go \<^verbatim>\<open>readPushes\<close> is
  statement for statement the JavaScript one and is modelled by the same \<open>readPushes\<close>.

  Shows that the indexer reads back every metadata output the wallet builds, that both sides
  derive the same lineage origin, and that the metadata reader accepts several encodings of
  one record.
\<close>

section \<open>Model\<close>

text \<open>\<^verbatim>\<open>hex.DecodeString\<close>: strict, unlike \<^verbatim>\<open>parseInt\<close>.\<close>

fun hexDecodeString :: "string \<Rightarrow> bytes option" where
  "hexDecodeString [] = Some []"
| "hexDecodeString [_] = None"
| "hexDecodeString (a # b # r) =
    (case (hexVal a, hexVal b) of
       (Some x, Some y) \<Rightarrow> map_option (Cons (of_nat (16 * x + y))) (hexDecodeString r)
     | _ \<Rightarrow> None)"

record token_metadata =
  Ticker :: string
  MetadataHash :: string

text \<open>\<^verbatim>\<open>string(data)\<close>, one character per byte; only tickers in A-Z, 0-9 get past the checks.\<close>

definition byteChars :: "bytes \<Rightarrow> string" where
  "byteChars bs = map (\<lambda>b. char_of (unat b)) bs"

definition ParseMetadata :: "string \<Rightarrow> token_metadata option" where
  "ParseMetadata scriptHex =
    (case hexDecodeString scriptHex of
       None \<Rightarrow> None
     | Some raw \<Rightarrow>
       if length raw < 2 then None
       else if raw ! 0 \<noteq> 0x6a then None
       else (case readPushes (drop 1 raw) of
         Inl _ \<Rightarrow> None
       | Inr pushes \<Rightarrow>
         if length pushes < 2 then None
         else if \<not> isPush (pushes ! 0) \<or> length (data (pushes ! 0)) \<noteq> 4 then None
         else if byteChars (data (pushes ! 0)) \<noteq> ''WUAP'' then None
         else if \<not> isPush (pushes ! 1) \<or> length (data (pushes ! 1)) \<noteq> 1 then None
         else if data (pushes ! 1) ! 0 \<noteq> 0x02 then None
         else if length pushes \<noteq> 4 then None
         else if \<not> isPush (pushes ! 2) then None
         else (let ticker = byteChars (data (pushes ! 2)) in
           if length ticker < 1 \<or> length ticker > 8 then None
           else if \<not> list_all isTickerChar ticker then None
           else if \<not> isPush (pushes ! 3) then None
           else (let hashLen = length (data (pushes ! 3)) in
             if hashLen \<noteq> 0 \<and> hashLen \<noteq> 32 then None
             else Some \<lparr>Ticker = ticker,
               MetadataHash = (if hashLen = 32 then bytesToHex (data (pushes ! 3)) else [])\<rparr>))))"

definition UapOriginFromOutpoint :: "string \<Rightarrow> 32 word \<Rightarrow> bytes result" where
  "UapOriginFromOutpoint txidHex n =
    (case hexDecodeString txidHex of
       None \<Rightarrow> Inl ''invalid txid hex: ''
     | Some txidBytes \<Rightarrow>
       if length txidBytes \<noteq> 32 then Inl ''txid must be 32 bytes, got ''
       else Inr (sha256 (rev txidBytes @ split32 n)))"

definition ParseP2PKHScript :: "string \<Rightarrow> bytes option" where
  "ParseP2PKHScript scriptHex =
    (case hexDecodeString scriptHex of
       None \<Rightarrow> None
     | Some raw \<Rightarrow>
       if length raw \<noteq> 25 then None
       else if raw ! 0 \<noteq> 0x76 \<or> raw ! 1 \<noteq> 0xa9 \<or> raw ! 2 \<noteq> 0x14 \<or> raw ! 23 \<noteq> 0x88 \<or> raw ! 24 \<noteq> 0xac then None
       else Some (slice raw 3 20))"

section \<open>Lemmas\<close>

lemma hexDecodeString_bytesToHex [simp]: "hexDecodeString (bytesToHex bs) = Some bs"
proof (induction bs)
  case (Cons b bs)
  have "of_nat (16 * (unat b div 16) + unat b mod 16) = b" by (simp add: mult.commute)
  then show ?case using Cons unat_byte_less [of b]
    by (simp add: bytesToHex_def byteToHex_eq)
qed (simp add: bytesToHex_def)

text \<open>On strings of lower-case hex digits the lenient and the strict decoder agree.\<close>

lemma hexDecodeString_hexToBytes:
  assumes "list_all isLowerHex s" "hexToBytes s = Inr b"
  shows "hexDecodeString s = Some b"
proof -
  have "bytesToHex b = s" using bytesToHex_hexPairs [of s] assms by (auto simp: hexToBytes_def list_all_iff split: if_splits)
  then show ?thesis using hexDecodeString_bytesToHex by metis
qed

lemma byteChars_charByte [simp]: "byteChars (map charByte s) = s"
proof -
  have "of_char c < (256 :: nat)" for c :: char by simp
  then show ?thesis by (simp add: byteChars_def charByte_def unat_of_nat8 o_def)
qed

lemma readPushes_metadata:
  assumes "length u \<le> 8" "length h = 0 \<or> length h = 32"
  shows "readPushes (pushHeader 4 @ METADATA_MAGIC @ pushHeader 1 @ [METADATA_VERSION]
    @ pushHeader (length u) @ map charByte u @ pushHeader (length h) @ h)
    = Inr [scriptPush True (pushOpcode 4) METADATA_MAGIC, scriptPush True (pushOpcode 1) [METADATA_VERSION],
        scriptPush True (pushOpcode (length u)) (map charByte u), scriptPush True (pushOpcode (length h)) h]"
proof -
  have "readPushes (pushHeader (length h) @ h) = Inr [scriptPush True (pushOpcode (length h)) h]"
    using readPushes_pushHeader [of h "[]"] assms by auto
  then have "readPushes (pushHeader (length u) @ map charByte u @ pushHeader (length h) @ h)
    = Inr [scriptPush True (pushOpcode (length u)) (map charByte u), scriptPush True (pushOpcode (length h)) h]"
    using readPushes_pushHeader [of "map charByte u" "pushHeader (length h) @ h"] assms by simp
  moreover have "length METADATA_MAGIC = 4" by (simp add: METADATA_MAGIC_def)
  ultimately show ?thesis
    using readPushes_pushHeader [of "METADATA_MAGIC"] readPushes_pushHeader [of "[METADATA_VERSION]"]
    by simp
qed

lemma ParseMetadata_built:
  assumes "normalizeTicker t = Inr u" "length (metadataHashBytes h) \<in> {0, 32}" "buildMetadataScript t h = Inr s"
  shows "ParseMetadata (bytesToHex s) = Some \<lparr>Ticker = u, MetadataHash = bytesToHex (metadataHashBytes h)\<rparr>"
proof -
  let ?h = "metadataHashBytes h"
  have u: "1 \<le> length u" "length u \<le> 8" "list_all isTickerChar u" using assms(1) by (auto simp: normalizeTicker_Inr)
  have s: "s = OP_RETURN # pushHeader 4 @ METADATA_MAGIC @ pushHeader 1 @ [METADATA_VERSION]
      @ pushHeader (length u) @ map charByte u @ pushHeader (length ?h) @ ?h"
    using buildMetadataScript_eq [OF assms(1,2)] assms(3) by simp
  have "byteChars METADATA_MAGIC = ''WUAP''" by code_simp
  moreover obtain bs where "s = OP_RETURN # bs" "1 \<le> length bs" "readPushes bs =
      Inr [scriptPush True (pushOpcode 4) METADATA_MAGIC, scriptPush True (pushOpcode 1) [METADATA_VERSION],
        scriptPush True (pushOpcode (length u)) (map charByte u), scriptPush True (pushOpcode (length ?h)) ?h]"
    using readPushes_metadata [of u ?h] u assms(2) s by (auto simp: Suc_le_eq METADATA_MAGIC_def)
  moreover have "length METADATA_MAGIC = 4" by (simp add: METADATA_MAGIC_def)
  moreover have "bytesToHex [] = []" by (simp add: bytesToHex_def)
  ultimately show ?thesis
    using u assms(2) by (auto simp: ParseMetadata_def METADATA_VERSION_def Let_def)
qed

section \<open>Properties\<close>

text \<open>C38: For every ticker the wallet accepts and every absent or 32-byte metadata hash the wallet's
  builder returns a script (its internal size check never fires) of at most 50 bytes, and the
  indexer reads from that script exactly the folded ticker and the hash.\<close>

theorem metadata_roundtrip:
  assumes "normalizeTicker t = Inr u" and "length (metadataHashBytes h) \<in> {0, 32}"
  shows "\<exists>s. buildMetadataScript t h = Inr s \<and> length s \<le> 50
    \<and> ParseMetadata (bytesToHex s) = Some \<lparr>Ticker = u, MetadataHash = bytesToHex (metadataHashBytes h)\<rparr>"
proof -
  obtain s where s: "buildMetadataScript t h = Inr s" using buildMetadataScript_eq [OF assms] by blast
  have "length u \<le> 8" using assms(1) by (auto simp: normalizeTicker_Inr)
  then have "length s \<le> 50"
    using s buildMetadataScript_eq [OF assms] assms(2) by (auto simp: pushHeader_def METADATA_MAGIC_def)
  with s ParseMetadata_built [OF assms s] show ?thesis by blast
qed

theorem metadata_roundtrip_witness:
  "\<exists>s. buildMetadataScript ''doge'' (Some (replicate 32 7)) = Inr s \<and> length s \<le> 50
    \<and> ParseMetadata (bytesToHex s) = Some \<lparr>Ticker = ''DOGE'', MetadataHash = bytesToHex (replicate 32 7)\<rparr>"
proof -
  have "normalizeTicker ''doge'' = Inr ''DOGE''" by code_simp
  then show ?thesis
    using metadata_roundtrip [of "''doge''" "''DOGE''" "Some (replicate 32 7)"] by (simp add: metadataHashBytes_def)
qed

text \<open>The indexer's reader does not insist on minimal pushes: two different scripts are read as
  the same metadata record, although the format's description says that two scripts cannot
  parse to the same metadata.\<close>

theorem metadata_two_encodings:
  "\<exists>s s' m. s \<noteq> s' \<and> ParseMetadata (bytesToHex s) = Some m \<and> ParseMetadata (bytesToHex s') = Some m"
proof -
  let ?s = "[0x6a, 4, 0x57, 0x55, 0x41, 0x50, 1, 2, 1, 0x41, 0] :: bytes"
  let ?t = "[0x6a, 4, 0x57, 0x55, 0x41, 0x50, 1, 2, 0x4c, 1, 0x41, 0] :: bytes"
  have "ParseMetadata (bytesToHex ?s) = Some \<lparr>Ticker = ''A'', MetadataHash = []\<rparr>" by code_simp
  moreover have "ParseMetadata (bytesToHex ?t) = Some \<lparr>Ticker = ''A'', MetadataHash = []\<rparr>" by code_simp
  ultimately show ?thesis by (intro exI [of _ ?s] exI [of _ ?t]) auto
qed

text \<open>For a transaction id in the form the wallet accepts and an output index in the unsigned 32-bit
  range, the wallet and the indexer derive the same 32-byte lineage origin.\<close>

theorem origin_agrees:
  assumes "isTxid txid" and "0 \<le> vout" and "vout \<le> 0xffffffff"
  shows "deriveOrigin txid vout = UapOriginFromOutpoint txid (of_int vout)
    \<and> (\<exists>og. deriveOrigin txid vout = Inr og \<and> length og = 32)"
proof -
  obtain b where b: "hexToBytes txid = Inr b" "length b = 32"
    "deriveOrigin txid vout = Inr (sha256 (rev b @ encodeUint32LE vout))"
    using deriveOrigin_txid [OF assms] by blast
  moreover have "hexDecodeString txid = Some b"
    using assms(1) b(1) by (intro hexDecodeString_hexToBytes) (auto simp: isTxid_def list_all_iff)
  ultimately show ?thesis by (simp add: UapOriginFromOutpoint_def encodeUint32LE_def toInt32_def)
qed

theorem origin_agrees_witness:
  "deriveOrigin (replicate 64 (CHR ''a'')) 7 = UapOriginFromOutpoint (replicate 64 (CHR ''a'')) 7
    \<and> (\<exists>og. deriveOrigin (replicate 64 (CHR ''a'')) 7 = Inr og \<and> length og = 32)"
proof -
  have "isTxid (replicate 64 (CHR ''a''))" by code_simp
  moreover have "0 \<le> (7 :: int)" "(7 :: int) \<le> 0xffffffff" by simp_all
  ultimately show ?thesis by (rule origin_agrees [of _ 7, unfolded of_int_numeral])
qed

end
