(* ===== verification/Tx.thy ===== *)
theory Tx
  imports Script
begin

text \<open>
  Transactions of \<^verbatim>\<open>contrib/uap-js/uap.js\<close>: CompactSize and integer encodings, \<^verbatim>\<open>serializeTx\<close>,
  \<^verbatim>\<open>deserializeTx\<close> and \<^verbatim>\<open>txidFromBytes\<close>. A transaction object is a record; an absent
  \<^verbatim>\<open>version\<close> or \<^verbatim>\<open>locktime\<close> is 0 (the sources read both with \<^verbatim>\<open>||\<close>), an absent \<^verbatim>\<open>scriptSig\<close> the
  empty list, an absent \<^verbatim>\<open>sequence\<close> or \<^verbatim>\<open>scriptSigLength\<close> is \<open>None\<close>.

  Every writer is an interpretation of the \<open>codec\<close> contract with its reader; serialization
  followed by deserialization is the identity on well-formed transactions, and serialization
  is injective on them.
\<close>

section \<open>Transactions\<close>

record tx_in =
  in_txid :: string
  in_vout :: int
  in_scriptSig :: bytes
  in_scriptSigLength :: "nat option"
  in_sequence :: "int option"

record tx_out =
  out_value :: int
  out_scriptPubKey :: bytes

record transaction =
  tx_version :: int
  tx_vin :: "tx_in list"
  tx_vout :: "tx_out list"
  tx_locktime :: int

section \<open>Writers\<close>

definition encodeVarInt :: "nat \<Rightarrow> bytes result" where
  "encodeVarInt n =
    (if n < 0xfd then Inr [of_nat n]
     else if n \<le> 0xffff then Inr (0xfd # split16 (of_nat n))
     else if n \<le> 0xffffffff then Inr (0xfe # split32 (of_nat n))
     else Inl ''varint too large for this helper'')"

text \<open>\<^verbatim>\<open>DataView.setBigInt64\<close> and \<^verbatim>\<open>getBigInt64\<close> with the little-endian flag.\<close>

definition split64 :: "64 word \<Rightarrow> bytes" where
  "split64 w = map (\<lambda>i. ucast (drop_bit (8 * i) w)) [0..<8]"

definition join64 :: "bytes \<Rightarrow> 64 word" where
  "join64 bs = foldr (\<lambda>b acc. ucast b OR push_bit 8 acc) bs 0"

definition encodeInt64LE :: "int \<Rightarrow> bytes" where
  "encodeInt64LE n = split64 (of_int n)"

text \<open>The bodies of the two loops of \<^verbatim>\<open>serializeTx\<close>.\<close>

definition serializeInput :: "tx_in \<Rightarrow> bytes result" where
  "serializeInput i =
    bindR (hexToBytes (in_txid i)) (\<lambda>txidBytes.
    if length txidBytes \<noteq> 32 then Inl ''txid must be exactly 32 bytes, got ''
    else
      (let txidLE = reverseBytes txidBytes;
           declaredLength = (case in_scriptSigLength i of None \<Rightarrow> length (in_scriptSig i) | Some n \<Rightarrow> n);
           sequence = (case in_sequence i of None \<Rightarrow> 0xffffffff | Some q \<Rightarrow> q)
       in bindR (encodeVarInt declaredLength) (\<lambda>len.
          Inr (concatBytes [txidLE, encodeUint32LE (in_vout i), len, in_scriptSig i, encodeUint32LE sequence]))))"

definition serializeOutput :: "tx_out \<Rightarrow> bytes result" where
  "serializeOutput ou =
    bindR (encodeVarInt (length (out_scriptPubKey ou))) (\<lambda>len.
    Inr (concatBytes [encodeInt64LE (out_value ou), len, out_scriptPubKey ou]))"

definition serializeTx :: "transaction \<Rightarrow> bytes result" where
  "serializeTx tx =
    (let version = encodeUint32LE (if tx_version tx = 0 then 1 else tx_version tx) in
     bindR (encodeVarInt (length (tx_vin tx))) (\<lambda>nIn.
     bindR (mapM serializeInput (tx_vin tx)) (\<lambda>ins.
     bindR (encodeVarInt (length (tx_vout tx))) (\<lambda>nOut.
     bindR (mapM serializeOutput (tx_vout tx)) (\<lambda>outs.
     Inr (concatBytes ([version, nIn] @ ins @ [nOut] @ outs @ [encodeUint32LE (tx_locktime tx)])))))))"

definition txToHex :: "transaction \<Rightarrow> string result" where
  "txToHex tx = mapR bytesToHex (serializeTx tx)"

section \<open>Readers\<close>

definition MAX_SAFE_INTEGER :: int where
  "MAX_SAFE_INTEGER = 9007199254740991"

definition readVarInt :: "nat reader" where
  "readVarInt bs pos =
    (if pos \<ge> length bs then Inl ''truncated transaction: varint''
     else (let first = bs ! pos in
       if first < 0xfd then Inr (unat first, pos + 1)
       else if first = 0xfd then
         (if pos + 3 > length bs then Inl ''truncated transaction: varint (0xfd)''
          else Inr (unat (join16 (bs ! (pos + 1)) (bs ! (pos + 2))), pos + 3))
       else if first = 0xfe then
         (if pos + 5 > length bs then Inl ''truncated transaction: varint (0xfe)''
          else Inr (unat (join32 (bs ! (pos + 1)) (bs ! (pos + 2)) (bs ! (pos + 3)) (bs ! (pos + 4))), pos + 5))
       else
         (if pos + 9 > length bs then Inl ''truncated transaction: varint (0xff)''
          else (let big = join64 (slice bs (pos + 1) 8) in
            if uint big > MAX_SAFE_INTEGER then Inl ''varint too large to represent exactly as a JS number''
            else Inr (unat big, pos + 9)))))"

definition readUint32LE :: "int reader" where
  "readUint32LE bs pos =
    (if pos + 4 > length bs then Inl ''truncated transaction: uint32''
     else Inr (uint (join32 (bs ! pos) (bs ! (pos + 1)) (bs ! (pos + 2)) (bs ! (pos + 3))), pos + 4))"

definition readInt64LE :: "int reader" where
  "readInt64LE bs pos =
    (if pos + 8 > length bs then Inl ''truncated transaction: int64''
     else (let v = sint (join64 (slice bs pos 8)) in
       if v > MAX_SAFE_INTEGER \<or> v < - MAX_SAFE_INTEGER
       then Inl ''output value cannot be represented exactly as a JS number''
       else Inr (v, pos + 8)))"

definition readBytes :: "error \<Rightarrow> nat \<Rightarrow> bytes reader" where
  "readBytes e n bs pos = (if pos + n > length bs then Inl e else Inr (slice bs pos n, pos + n))"

text \<open>The bodies of the two loops of \<^verbatim>\<open>deserializeTx\<close>.\<close>

definition readInput :: "tx_in reader" where
  "readInput bs pos =
    bindR (readBytes ''truncated transaction: input txid'' 32 bs pos) (\<lambda>(txidLE, pos).
    (let txid = bytesToHex (reverseBytes txidLE) in
    bindR (readUint32LE bs pos) (\<lambda>(vout, pos).
    bindR (readVarInt bs pos) (\<lambda>(scriptLen, pos).
    bindR (readBytes ''truncated transaction: input scriptSig'' scriptLen bs pos) (\<lambda>(scriptSig, pos).
    bindR (readUint32LE bs pos) (\<lambda>(sequence, pos).
    Inr (\<lparr>in_txid = txid, in_vout = vout, in_scriptSig = scriptSig, in_scriptSigLength = None,
          in_sequence = Some sequence\<rparr>, pos)))))))"

definition readOutput :: "tx_out reader" where
  "readOutput bs pos =
    bindR (readInt64LE bs pos) (\<lambda>(v, pos).
    bindR (readVarInt bs pos) (\<lambda>(spkLen, pos).
    bindR (readBytes ''truncated transaction: output scriptPubKey'' spkLen bs pos) (\<lambda>(spk, pos).
    Inr (\<lparr>out_value = v, out_scriptPubKey = spk\<rparr>, pos))))"

definition deserializeTx :: "bytes \<Rightarrow> transaction result" where
  "deserializeTx bs =
    bindR (readUint32LE bs 0) (\<lambda>(version, pos).
    bindR (readVarInt bs pos) (\<lambda>(vinCount, pos).
    bindR (readMany readInput bs vinCount pos) (\<lambda>(vin, pos).
    bindR (readVarInt bs pos) (\<lambda>(voutCount, pos).
    bindR (readMany readOutput bs voutCount pos) (\<lambda>(vout, pos).
    bindR (readUint32LE bs pos) (\<lambda>(locktime, pos).
    if pos \<noteq> length bs then Inl ''trailing bytes after transaction: ''
    else Inr \<lparr>tx_version = version, tx_vin = vin, tx_vout = vout, tx_locktime = locktime\<rparr>))))))"

text \<open>Both take a hex string or the bytes; the hex case decodes first.\<close>

definition deserializeTxHex :: "string \<Rightarrow> transaction result" where
  "deserializeTxHex hex = bindR (hexToBytes hex) deserializeTx"

definition txidFromBytes :: "bytes \<Rightarrow> string" where
  "txidFromBytes bs = bytesToHex (reverseBytes (hash256 bs))"

definition txidFromHex :: "string \<Rightarrow> string result" where
  "txidFromHex hex = mapR txidFromBytes (hexToBytes hex)"

section \<open>Lemmas: integers\<close>

lemma length_split64 [simp]: "length (split64 w) = 8"
  by (simp add: split64_def)

lemma upt8: "[0..<8] = [0, 1, 2, 3, 4, 5, 6, 7]"
  by (simp add: upt_rec)

lemma split64_step: "ucast (ucast (drop_bit n w) :: byte) OR push_bit 8 (drop_bit (n + 8) w) = drop_bit n (w :: 64 word)"
proof (rule bit_word_eqI)
  fix k assume "k < LENGTH(64)"
  then show "bit (ucast (ucast (drop_bit n w) :: byte) OR push_bit 8 (drop_bit (n + 8) w)) k = bit (drop_bit n w) k"
    by (cases "k < 8") (auto simp: bit_simps)
qed

lemma join64_split64 [simp]: "join64 (split64 w) = w"
proof -
  have "drop_bit 64 w = 0" by (rule bit_word_eqI) (auto simp: bit_simps dest: bit_imp_le_length)
  then show ?thesis
    using split64_step [of 56 w] split64_step [of 48 w] split64_step [of 40 w] split64_step [of 32 w]
      split64_step [of 24 w] split64_step [of 16 w] split64_step [of 8 w] split64_step [of 0 w]
    by (simp add: join64_def split64_def upt8)
qed

lemma sint_of_int64: "\<bar>n\<bar> \<le> MAX_SAFE_INTEGER \<Longrightarrow> sint (of_int n :: 64 word) = n"
  by (simp add: MAX_SAFE_INTEGER_def sint_sbintrunc' signed_take_bit_int_eq_self)

section \<open>Codecs\<close>

abbreviation uint32 :: "int \<Rightarrow> bool" where "uint32 n \<equiv> 0 \<le> n \<and> n \<le> 0xffffffff"

lemma length_encodeUint32LE [simp]: "length (encodeUint32LE n) = 4"
  by (simp add: encodeUint32LE_def)

interpretation u32: codec encodeUint32LE readUint32LE uint32
proof
  fix n pre post assume n: "uint32 n"
  let ?w = "toInt32 n"
  obtain a b c d where "split32 ?w = [a, b, c, d]" by (simp add: split32_def)
  then have "readUint32LE (pre @ split32 ?w @ post) (length pre) = Inr (uint ?w, length pre + 4)"
    using join32_split32 [of ?w] by (simp add: readUint32LE_def nth_append)
  with n show "readUint32LE (pre @ encodeUint32LE n @ post) (length pre) = Inr (n, length pre + length (encodeUint32LE n))"
    by (simp add: encodeUint32LE_def uint_toInt32)
qed

lemma length_encodeInt64LE [simp]: "length (encodeInt64LE n) = 8"
  by (simp add: encodeInt64LE_def)

interpretation i64: codec encodeInt64LE readInt64LE "\<lambda>n. \<bar>n\<bar> \<le> MAX_SAFE_INTEGER"
proof
  fix n pre post assume n: "\<bar>n\<bar> \<le> MAX_SAFE_INTEGER"
  have "slice (pre @ split64 (of_int n) @ post) (length pre) 8 = split64 (of_int n)" by simp
  with n show "readInt64LE (pre @ encodeInt64LE n @ post) (length pre) = Inr (n, length pre + length (encodeInt64LE n))"
    by (auto simp: readInt64LE_def encodeInt64LE_def sint_of_int64 Let_def)
qed

definition varIntBytes :: "nat \<Rightarrow> bytes" where
  "varIntBytes n = projr (encodeVarInt n)"

lemma encodeVarInt_Inr: "encodeVarInt n = Inr bs \<longleftrightarrow> n \<le> 0xffffffff \<and> bs = varIntBytes n"
  by (auto simp: encodeVarInt_def varIntBytes_def)

interpretation vi: codec varIntBytes readVarInt "\<lambda>n. n \<le> 0xffffffff"
proof
  fix n :: nat and pre post assume n: "n \<le> 0xffffffff"
  consider "n < 0xfd" | "0xfd \<le> n" "n \<le> 0xffff" | "0xffff < n" by linarith
  then show "readVarInt (pre @ varIntBytes n @ post) (length pre) = Inr (n, length pre + length (varIntBytes n))"
  proof cases
    case 1
    then have "unat (of_nat n :: byte) = n" by (intro unat_of_nat8) simp
    with 1 show ?thesis by (simp add: varIntBytes_def encodeVarInt_def readVarInt_def Let_def word_less_nat_alt)
  next
    case 2
    let ?w = "of_nat n :: 32 word"
    have "take_bit 16 ?w = ?w" "unat ?w = n" using 2 by (simp_all add: take_bit_16_of_nat unat_of_nat32)
    moreover obtain a b where "split16 ?w = [a, b]" by (simp add: split16_def)
    ultimately have "split16 ?w = [a, b]" "unat (join16 a b) = n" using join16_split16 [of ?w] by simp_all
    with 2 show ?thesis
      by (simp add: varIntBytes_def encodeVarInt_def readVarInt_def Let_def nth_append)
  next
    case 3
    let ?w = "of_nat n :: 32 word"
    have "unat ?w = n" using n by (intro unat_of_nat32) simp
    moreover obtain a b c d where "split32 ?w = [a, b, c, d]" by (simp add: split32_def)
    ultimately have "split32 ?w = [a, b, c, d]" "unat (join32 a b c d) = n" using join32_split32 [of ?w] by simp_all
    with n 3 show ?thesis
      by (simp add: varIntBytes_def encodeVarInt_def readVarInt_def Let_def nth_append)
  qed
qed

lemma readBytes_at:
  assumes "bs = pre @ xs @ post" "pos = length pre" "n = length xs"
  shows "readBytes e n bs pos = Inr (xs, pos + n)"
  using assms by (simp add: readBytes_def)

text \<open>Well-formed parts: what \<open>deserializeTx\<close> can return.\<close>

definition wfIn :: "tx_in \<Rightarrow> bool" where
  "wfIn i \<longleftrightarrow> isTxid (in_txid i) \<and> uint32 (in_vout i) \<and> length (in_scriptSig i) \<le> 0xffffffff
    \<and> in_scriptSigLength i = None \<and> (case in_sequence i of None \<Rightarrow> False | Some q \<Rightarrow> uint32 q)"

definition wfOut :: "tx_out \<Rightarrow> bool" where
  "wfOut ou \<longleftrightarrow> \<bar>out_value ou\<bar> \<le> MAX_SAFE_INTEGER \<and> length (out_scriptPubKey ou) \<le> 0xffffffff"

definition wfTx :: "transaction \<Rightarrow> bool" where
  "wfTx tx \<longleftrightarrow> uint32 (tx_version tx) \<and> tx_version tx \<noteq> 0 \<and> uint32 (tx_locktime tx)
    \<and> length (tx_vin tx) \<le> 0xffffffff \<and> length (tx_vout tx) \<le> 0xffffffff
    \<and> list_all wfIn (tx_vin tx) \<and> list_all wfOut (tx_vout tx)"

definition inputBytes :: "tx_in \<Rightarrow> bytes" where
  "inputBytes i = projr (serializeInput i)"

definition outputBytes :: "tx_out \<Rightarrow> bytes" where
  "outputBytes ou = projr (serializeOutput ou)"

lemma encodeVarInt_Inl: "0xffffffff < n \<Longrightarrow> encodeVarInt n = Inl ''varint too large for this helper''"
  by (simp add: encodeVarInt_def)

lemma encodeVarInt_ok: "n \<le> 0xffffffff \<Longrightarrow> encodeVarInt n = Inr (varIntBytes n)"
  by (simp add: encodeVarInt_Inr)

lemma outputBytes_eq:
  assumes "length (out_scriptPubKey ou) \<le> 0xffffffff"
  shows "outputBytes ou = encodeInt64LE (out_value ou) @ varIntBytes (length (out_scriptPubKey ou)) @ out_scriptPubKey ou"
  by (simp add: outputBytes_def serializeOutput_def encodeVarInt_ok [OF assms])

lemma serializeOutput_Inr:
  "serializeOutput ou = Inr bs \<longleftrightarrow> length (out_scriptPubKey ou) \<le> 0xffffffff \<and> bs = outputBytes ou"
proof (cases "length (out_scriptPubKey ou) \<le> 0xffffffff")
  case True
  then show ?thesis by (auto simp: serializeOutput_def outputBytes_eq encodeVarInt_ok)
next
  case False
  then show ?thesis by (simp add: serializeOutput_def encodeVarInt_Inl)
qed

lemma serializeInput_wf:
  assumes "wfIn i"
  obtains b q where "serializeInput i = Inr (inputBytes i)" "in_txid i = bytesToHex (rev b)" "length b = 32"
    "in_sequence i = Some q" "uint32 q"
    "inputBytes i = b @ encodeUint32LE (in_vout i) @ varIntBytes (length (in_scriptSig i)) @ in_scriptSig i @ encodeUint32LE q"
proof -
  obtain b where b: "hexToBytes (in_txid i) = Inr b" "length b = 32" "bytesToHex b = in_txid i"
    using isTxid_hexToBytes [of "in_txid i"] assms by (auto simp: wfIn_def)
  obtain q where q: "in_sequence i = Some q" "uint32 q" using assms by (auto simp: wfIn_def split: option.splits)
  have "serializeInput i = Inr (rev b @ encodeUint32LE (in_vout i) @ varIntBytes (length (in_scriptSig i)) @ in_scriptSig i @ encodeUint32LE q)"
    using assms b q by (simp add: serializeInput_def wfIn_def reverseBytes_def encodeVarInt_ok)
  with b q show ?thesis by (intro that [of "rev b" q]) (simp_all add: inputBytes_def)
qed

interpretation txout: codec outputBytes readOutput wfOut
proof
  fix ou pre post assume w: "wfOut ou"
  let ?spk = "out_scriptPubKey ou" and ?v = "encodeInt64LE (out_value ou)"
  have v: "\<bar>out_value ou\<bar> \<le> MAX_SAFE_INTEGER" and l: "length ?spk \<le> 0xffffffff" using w by (simp_all add: wfOut_def)
  note e = outputBytes_eq [OF l]
  have "readInt64LE (pre @ outputBytes ou @ post) (length pre) = Inr (out_value ou, length pre + 8)"
    using i64.dec_enc_at [OF v, of _ pre] e by (simp add: add.assoc)
  moreover have "readVarInt (pre @ outputBytes ou @ post) (length pre + 8)
      = Inr (length ?spk, length pre + 8 + length (varIntBytes (length ?spk)))"
    using vi.dec_enc_at [OF l, of _ "pre @ ?v" "?spk @ post"] e by (simp add: add.assoc)
  moreover have "readBytes m (length ?spk) (pre @ outputBytes ou @ post) (length pre + 8 + length (varIntBytes (length ?spk)))
      = Inr (?spk, length pre + length (outputBytes ou))" for m
    using readBytes_at [of _ "pre @ ?v @ varIntBytes (length ?spk)" ?spk post] e by (simp add: add.assoc)
  ultimately show "readOutput (pre @ outputBytes ou @ post) (length pre) = Inr (ou, length pre + length (outputBytes ou))"
    by (simp add: readOutput_def)
qed

interpretation txin: codec inputBytes readInput wfIn
proof
  fix i pre post assume w: "wfIn i"
  obtain b q where b: "in_txid i = bytesToHex (rev b)" "length b = 32" and q: "in_sequence i = Some q" "uint32 q"
    and e: "inputBytes i = b @ encodeUint32LE (in_vout i) @ varIntBytes (length (in_scriptSig i)) @ in_scriptSig i @ encodeUint32LE q"
    using serializeInput_wf [OF w] by metis
  let ?s = "in_scriptSig i" and ?vo = "encodeUint32LE (in_vout i)"
  let ?l = "varIntBytes (length ?s)" and ?q = "encodeUint32LE q" and ?bs = "pre @ inputBytes i @ post"
  have v: "uint32 (in_vout i)" and l: "length ?s \<le> 0xffffffff" and n: "in_scriptSigLength i = None"
    using w by (simp_all add: wfIn_def)
  have "readBytes m 32 ?bs (length pre) = Inr (b, length pre + 32)" for m
    using readBytes_at [of _ pre b] e b by (simp add: add.assoc)
  moreover have "readUint32LE ?bs (length pre + 32) = Inr (in_vout i, length pre + 36)"
    using u32.dec_enc_at [OF v, of _ "pre @ b" "?l @ ?s @ ?q @ post"] e b by (simp add: add.assoc)
  moreover have "readVarInt ?bs (length pre + 36) = Inr (length ?s, length pre + 36 + length ?l)"
    using vi.dec_enc_at [OF l, of _ "pre @ b @ ?vo" "?s @ ?q @ post"] e b by (simp add: add.assoc)
  moreover have "readBytes m (length ?s) ?bs (length pre + 36 + length ?l) = Inr (?s, length pre + 36 + length ?l + length ?s)" for m
    using readBytes_at [of _ "pre @ b @ ?vo @ ?l" ?s "?q @ post"] e b by (simp add: add.assoc)
  moreover have "readUint32LE ?bs (length pre + 36 + length ?l + length ?s) = Inr (q, length pre + length (inputBytes i))"
    using u32.dec_enc_at [OF q(2), of _ "pre @ b @ ?vo @ ?l @ ?s" post] e b by (simp add: add.assoc)
  ultimately show "readInput ?bs (length pre) = Inr (i, length pre + length (inputBytes i))"
    using b q n by (simp add: readInput_def reverseBytes_def)
qed

section \<open>Lemmas: whole transactions\<close>

definition txBytes :: "transaction \<Rightarrow> bytes" where
  "txBytes tx = encodeUint32LE (tx_version tx) @ varIntBytes (length (tx_vin tx)) @ concat (map inputBytes (tx_vin tx))
    @ varIntBytes (length (tx_vout tx)) @ concat (map outputBytes (tx_vout tx)) @ encodeUint32LE (tx_locktime tx)"

lemma serializeTx_wf:
  assumes "wfTx tx"
  shows "serializeTx tx = Inr (txBytes tx)"
proof -
  have "mapM serializeInput (tx_vin tx) = Inr (map inputBytes (tx_vin tx))"
    using assms by (intro mapM_total) (auto simp: wfTx_def list_all_iff elim: serializeInput_wf)
  moreover have "mapM serializeOutput (tx_vout tx) = Inr (map outputBytes (tx_vout tx))"
    using assms by (intro mapM_total) (auto simp: wfTx_def wfOut_def list_all_iff serializeOutput_Inr)
  moreover have "encodeVarInt (length (tx_vin tx)) = Inr (varIntBytes (length (tx_vin tx)))"
    "encodeVarInt (length (tx_vout tx)) = Inr (varIntBytes (length (tx_vout tx)))"
    using assms by (simp_all add: wfTx_def encodeVarInt_Inr)
  ultimately show ?thesis using assms by (simp add: serializeTx_def txBytes_def wfTx_def)
qed

lemma deserializeTx_txBytes:
  assumes "wfTx tx"
  shows "deserializeTx (txBytes tx) = Inr tx"
proof -
  define v ni ins no outs lt where defs: "v = encodeUint32LE (tx_version tx)" "ni = varIntBytes (length (tx_vin tx))"
    "ins = concat (map inputBytes (tx_vin tx))" "no = varIntBytes (length (tx_vout tx))"
    "outs = concat (map outputBytes (tx_vout tx))" "lt = encodeUint32LE (tx_locktime tx)"
  define bs where b: "bs = v @ ni @ ins @ no @ outs @ lt"
  have w: "uint32 (tx_version tx)" "uint32 (tx_locktime tx)" "length (tx_vin tx) \<le> 0xffffffff" "length (tx_vout tx) \<le> 0xffffffff"
    "\<forall>i\<in>set (tx_vin tx). wfIn i" "\<forall>i\<in>set (tx_vout tx). wfOut i" using assms by (simp_all add: wfTx_def list_all_iff)
  have "readUint32LE bs 0 = Inr (tx_version tx, length v)"
    using u32.dec_enc_at [OF w(1), of bs "[]"] b defs(1) by simp
  moreover have "readVarInt bs (length v) = Inr (length (tx_vin tx), length (v @ ni))"
    using vi.dec_enc_at [OF w(3), of bs v] b defs(2) by simp
  moreover have "readMany readInput bs (length (tx_vin tx)) (length (v @ ni)) = Inr (tx_vin tx, length (v @ ni @ ins))"
    using txin.readMany_concat_at [OF w(5), of bs "v @ ni" _ "length (v @ ni)"] b by (simp add: add.assoc flip: defs(3))
  moreover have "readVarInt bs (length (v @ ni @ ins)) = Inr (length (tx_vout tx), length (v @ ni @ ins @ no))"
    using vi.dec_enc_at [OF w(4), of bs "v @ ni @ ins"] b defs(4) by (simp add: add.assoc)
  moreover have "readMany readOutput bs (length (tx_vout tx)) (length (v @ ni @ ins @ no)) = Inr (tx_vout tx, length (v @ ni @ ins @ no @ outs))"
    using txout.readMany_concat_at [OF w(6), of bs "v @ ni @ ins @ no" _ "length (v @ ni @ ins @ no)"] b by (simp add: add.assoc flip: defs(5))
  moreover have "readUint32LE bs (length (v @ ni @ ins @ no @ outs)) = Inr (tx_locktime tx, length bs)"
    using u32.dec_enc_at [OF w(2), of bs "v @ ni @ ins @ no @ outs" "[]"] b defs(6) by (simp add: add.assoc)
  ultimately have "deserializeTx bs = Inr tx" unfolding deserializeTx_def by (simp only: bindR_simps prod.case) simp
  then show ?thesis using b defs by (simp only: txBytes_def)
qed

lemma txBytes_inj: "wfTx a \<Longrightarrow> wfTx b \<Longrightarrow> txBytes a = txBytes b \<Longrightarrow> a = b"
  using deserializeTx_txBytes [of a] deserializeTx_txBytes [of b] by (metis sum.inject(2))

section \<open>Properties\<close>

lemma tx_layout:
  assumes "wfTx tx"
  shows "\<exists>bs. serializeTx tx = Inr bs \<and> deserializeTx bs = Inr tx"
  using serializeTx_wf [OF assms] deserializeTx_txBytes [OF assms] by blast



text \<open>The reader is laxer than the node's: it accepts a CompactSize in any of its longer forms, so
  bytes that the node rejects as non-canonical read as a count below 253.\<close>

theorem varint_not_canonical:
  assumes "b < 0xfd"
  shows "readVarInt [0xfd, b, 0] 0 = Inr (unat b, 3) \<and> readVarInt [b] 0 = Inr (unat b, 1)
    \<and> readVarInt [0xfe, b, 0, 0, 0] 0 = Inr (unat b, 5)"
proof -
  have "unat (ucast b :: 32 word) = unat b"
    using unat_byte_less [of b] by (simp add: unsigned_ucast_eq take_bit_nat_eq_self)
  then show ?thesis using assms by (simp add: readVarInt_def join16_def join32_def)
qed

theorem varint_not_canonical_witness:
  "readVarInt [0xfd, 1, 0] 0 = Inr (1, 3)"
  using varint_not_canonical [of 1] by simp

end
