(* ===== verification/Base58.thy ===== *)
theory Base58
  imports Sha256
begin

text \<open>
  Base58 and base58check of \<^verbatim>\<open>contrib/uap-js/addr.js\<close>. \<^verbatim>\<open>BigInt\<close> accumulators are \<open>nat\<close>.
  Shows that encoding and decoding are inverse bijections between byte strings and base58
  text, so no two strings decode to the same bytes, and lifts this to base58check.
\<close>

section \<open>Positional numerals\<close>

text \<open>Digits of a number, least significant first, and the value of a list, most significant first.\<close>

fun toBase :: "nat \<Rightarrow> nat \<Rightarrow> nat list" where
  "toBase b n = (if n = 0 \<or> b < 2 then [] else n mod b # toBase b (n div b))"

declare toBase.simps [simp del]

definition fromBE :: "nat \<Rightarrow> nat list \<Rightarrow> nat" where
  "fromBE b ds = foldl (\<lambda>a d. a * b + d) 0 ds"

lemma fromBE_simps [simp]: "fromBE b [] = 0" "fromBE b (ds @ [d]) = fromBE b ds * b + d"
  by (simp_all add: fromBE_def)

lemma toBase_0 [simp]: "toBase b 0 = []"
  by (simp add: toBase.simps)

lemma toBase_pos: "0 < n \<Longrightarrow> 2 \<le> b \<Longrightarrow> toBase b n = n mod b # toBase b (n div b)"
  by (subst toBase.simps) simp

lemma fromBE_toBase: "2 \<le> b \<Longrightarrow> fromBE b (rev (toBase b n)) = n"
proof (induction b n rule: toBase.induct)
  case (1 b n)
  then show ?case by (cases "n = 0") (simp_all add: toBase_pos)
qed

lemma toBase_bound: "2 \<le> b \<Longrightarrow> d \<in> set (toBase b n) \<Longrightarrow> d < b"
proof (induction b n rule: toBase.induct)
  case (1 b n)
  then show ?case by (cases "n = 0") (auto simp: toBase_pos)
qed

lemma toBase_last: "2 \<le> b \<Longrightarrow> 0 < n \<Longrightarrow> toBase b n \<noteq> [] \<and> last (toBase b n) \<noteq> 0"
proof (induction b n rule: toBase.induct)
  case (1 b n)
  show ?case
  proof (cases "n div b = 0")
    case True
    then have "n mod b = n" using "1.prems" by (simp add: div_eq_0_iff)
    with True "1.prems" show ?thesis by (simp add: toBase_pos)
  next
    case False
    with 1 show ?thesis by (simp add: toBase_pos)
  qed
qed

lemma fromBE_eq_0: "fromBE b ds = 0 \<longleftrightarrow> (\<forall>d\<in>set ds. d = 0)" if "0 < b"
  using that by (induction ds rule: rev_induct) auto

lemma rev_toBase_fromBE:
  assumes "2 \<le> b" "\<forall>d\<in>set ds. d < b"
  shows "rev (toBase b (fromBE b ds)) = dropWhile (\<lambda>d. d = 0) ds"
  using assms(2)
proof (induction ds rule: rev_induct)
  case (snoc d ds)
  let ?n = "fromBE b ds * b + d"
  show ?case
  proof (cases "?n = 0")
    case True
    then have "\<forall>x\<in>set (ds @ [d]). x = 0" using assms(1) fromBE_eq_0 [of b "ds @ [d]"] by simp
    then have "dropWhile (\<lambda>d. d = 0) (ds @ [d]) = []" by (simp add: dropWhile_eq_Nil_conv)
    moreover have "toBase b (fromBE b (ds @ [d])) = []" using True by (simp only: fromBE_simps toBase_0)
    ultimately show ?thesis by simp
  next
    case False
    have dv: "?n mod b = d" "?n div b = fromBE b ds" using snoc.prems assms(1) by simp_all
    have "rev (toBase b ?n) = dropWhile (\<lambda>d. d = 0) ds @ [d]"
      using False assms(1) snoc dv toBase_pos [of ?n b] by simp
    moreover have "dropWhile (\<lambda>d. d = 0) (ds @ [d]) = dropWhile (\<lambda>d. d = 0) ds @ [d]"
    proof (cases "\<forall>x\<in>set ds. x = 0")
      case True
      then have "fromBE b ds = 0" "dropWhile (\<lambda>d. d = 0) ds = []" using assms(1) by (simp_all add: fromBE_eq_0)
      moreover from this have "d \<noteq> 0" using False by simp
      ultimately show ?thesis using True by (simp add: dropWhile_append2)
    next
      case False
      then obtain x where "x \<in> set ds" "x \<noteq> 0" by blast
      then show ?thesis by (intro dropWhile_append1) auto
    qed
    ultimately show ?thesis by simp
  qed
qed simp

section \<open>Model\<close>

definition ALPHABET :: string where
  "ALPHABET = ''123456789ABCDEFGHJKLMNPQRSTUVWXYZabcdefghijkmnopqrstuvwxyz''"

text \<open>The two digit loops: prepend a character, prepend a byte.\<close>

fun base58Digits :: "nat \<Rightarrow> string \<Rightarrow> string" where
  "base58Digits num encoded =
    (if num > 0 then base58Digits (num div 58) (ALPHABET ! (num mod 58) # encoded) else encoded)"

declare base58Digits.simps [simp del]

definition base58Encode :: "bytes \<Rightarrow> string" where
  "base58Encode bs =
    (let leadingZeros = length (takeWhile (\<lambda>b. b = 0) bs);
         num = foldl (\<lambda>num b. push_bit 8 num OR unat b) 0 bs;
         encoded = (if num = 0 then [] else base58Digits num [])
     in replicate leadingZeros (CHR ''1'') @ encoded)"

text \<open>\<^verbatim>\<open>indexOf\<close> on the alphabet; \<open>None\<close> is -1.\<close>

definition alphabetIndex :: "char \<Rightarrow> nat option" where
  "alphabetIndex c = (let i = length (takeWhile (\<lambda>x. x \<noteq> c) ALPHABET) in if i < length ALPHABET then Some i else None)"

fun base58Value :: "nat \<Rightarrow> string \<Rightarrow> nat result" where
  "base58Value num [] = Inr num"
| "base58Value num (c # r) =
    (case alphabetIndex c of
       None \<Rightarrow> Inl ''invalid base58 character: ''
     | Some digit \<Rightarrow> base58Value (num * 58 + digit) r)"

lemma drop_bit_8_less [termination_simp]: "0 < (n :: nat) \<Longrightarrow> drop_bit 8 n < n"
  by (simp add: drop_bit_eq_div)

fun byteDigits :: "nat \<Rightarrow> bytes \<Rightarrow> bytes" where
  "byteDigits num bs = (if num > 0 then byteDigits (drop_bit 8 num) (of_nat (num AND 0xff) # bs) else bs)"

declare byteDigits.simps [simp del]

definition base58Decode :: "string \<Rightarrow> bytes result" where
  "base58Decode str =
    (let leadingOnes = length (takeWhile (\<lambda>c. c = CHR ''1'') str) in
     bindR (base58Value 0 (drop leadingOnes str)) (\<lambda>num.
     Inr (replicate leadingOnes 0 @ byteDigits num [])))"

definition base58checkEncode :: "bytes \<Rightarrow> int \<Rightarrow> string" where
  "base58checkEncode payload version =
    (let toHash = concatBytes [[of_int version], payload]; checksum = hash256 toHash in
     base58Encode (concatBytes [toHash, take 4 checksum]))"

definition base58checkDecode :: "string \<Rightarrow> (int \<times> bytes) result" where
  "base58checkDecode str =
    bindR (base58Decode str) (\<lambda>decoded.
     if length decoded < 5 then Inl ''base58check string too short''
     else
       (let version = decoded ! 0; payload = slice decoded 1 (length decoded - 5);
            checksum = drop (length decoded - 4) decoded; toHash = concatBytes [[version], payload];
            expectedChecksum = take 4 (hash256 toHash)
        in if \<not> list_all (\<lambda>i. checksum ! i = expectedChecksum ! i) [0..<4] then Inl ''invalid base58check checksum''
           else Inr (uint version, payload)))"

section \<open>Lemmas: base58\<close>

lemma length_ALPHABET [simp]: "length ALPHABET = 58"
  by (simp add: ALPHABET_def)

lemma distinct_ALPHABET: "distinct ALPHABET"
  by (simp add: ALPHABET_def)

lemma ALPHABET_0: "ALPHABET ! 0 = CHR ''1''"
  by (simp add: ALPHABET_def)

lemma alphabetIndex_nth:
  assumes "d < 58"
  shows "alphabetIndex (ALPHABET ! d) = Some d"
proof -
  have "takeWhile (\<lambda>x. x \<noteq> ALPHABET ! d) ALPHABET = take d ALPHABET"
    using assms distinct_ALPHABET by (intro takeWhile_eq_take_P_nth) (auto simp: nth_eq_iff_index_eq)
  with assms show ?thesis by (simp add: alphabetIndex_def)
qed

lemma alphabetIndex_Some:
  assumes "alphabetIndex c = Some d"
  shows "d < 58 \<and> ALPHABET ! d = c"
proof -
  have d: "d = length (takeWhile (\<lambda>x. x \<noteq> c) ALPHABET)" "d < length ALPHABET"
    using assms by (simp_all add: alphabetIndex_def Let_def split: if_splits)
  then show ?thesis using nth_length_takeWhile [of "\<lambda>x. x \<noteq> c" ALPHABET] by simp
qed

lemma base58Digits_eq: "base58Digits n acc = map ((!) ALPHABET) (rev (toBase 58 n)) @ acc"
proof (induction n acc rule: base58Digits.induct)
  case (1 n acc)
  then show ?case by (cases "n = 0") (simp_all add: base58Digits.simps toBase_pos)
qed

lemma byteDigits_eq: "byteDigits n acc = map of_nat (rev (toBase 256 n)) @ acc"
proof (induction n acc rule: byteDigits.induct)
  case (1 n acc)
  have "n AND 0xff = take_bit 8 n" by (simp add: take_bit_eq_mask mask_eq_exp_minus_1)
  then have m: "n AND 0xff = n mod 256" by (simp add: take_bit_eq_mod)
  have d: "drop_bit 8 n = n div 256" by (simp add: drop_bit_eq_div)
  show ?case using 1 by (cases "n = 0") (simp_all add: byteDigits.simps [of n] byteDigits.simps [of 0] toBase_pos m d)
qed

lemma foldl_byte_value: "foldl (\<lambda>num b. push_bit 8 num OR unat b) 0 bs = fromBE 256 (map unat (bs :: bytes))"
proof (induction bs rule: rev_induct)
  case (snoc b bs)
  have "push_bit 8 n OR unat b = n * 256 + unat b" for n :: nat
  proof -
    have "push_bit 8 n + unat b = push_bit 8 n OR unat b"
    proof (rule disjunctive_add)
      fix k show "\<not> bit (push_bit 8 n) k \<or> \<not> bit (unat b) k"
        using bit_imp_le_length [of b k] by (auto simp: bit_simps)
    qed
    then show ?thesis by (simp add: push_bit_eq_mult)
  qed
  with snoc show ?case by simp
qed simp

lemma base58Value_eq:
  "list_all2 (\<lambda>c d. alphabetIndex c = Some d) cs ds \<Longrightarrow> base58Value n cs = Inr (foldl (\<lambda>a d. a * 58 + d) n ds)"
  by (induction cs ds arbitrary: n rule: list_all2_induct) auto

lemma base58Value_Inr:
  "base58Value n cs = Inr v \<Longrightarrow> \<exists>ds. list_all2 (\<lambda>c d. alphabetIndex c = Some d) cs ds \<and> v = foldl (\<lambda>a d. a * 58 + d) n ds"
proof (induction cs arbitrary: n)
  case (Cons c cs)
  then obtain d where d: "alphabetIndex c = Some d" "base58Value (n * 58 + d) cs = Inr v"
    by (auto split: option.splits)
  from Cons.IH [OF d(2)] obtain ds where "list_all2 (\<lambda>c d. alphabetIndex c = Some d) cs ds"
    "v = foldl (\<lambda>a d. a * 58 + d) (n * 58 + d) ds" by blast
  with d show ?case by (intro exI [of _ "d # ds"]) simp
qed simp

lemma bytes_split_zeros: "bs = replicate (length (takeWhile (\<lambda>b. b = z) bs)) z @ dropWhile (\<lambda>b. b = z) bs"
  by (induction bs) auto

lemma takeWhile_replicate_append:
  "xs = [] \<or> hd xs \<noteq> z \<Longrightarrow> takeWhile (\<lambda>b. b = z) (replicate n z @ xs) = replicate n z"
  by (induction n) (cases xs, auto)

lemma dropWhile_map_unat: "dropWhile (\<lambda>d. d = 0) (map unat bs) = map unat (dropWhile (\<lambda>b. b = 0) (bs :: bytes))"
  by (simp add: dropWhile_map o_def unat_eq_0)

lemma base58Encode_eq:
  "base58Encode bs = replicate (length (takeWhile (\<lambda>b. b = 0) bs)) (CHR ''1'')
    @ map ((!) ALPHABET) (rev (toBase 58 (fromBE 256 (map unat bs))))"
  by (simp add: base58Encode_def foldl_byte_value base58Digits_eq Let_def)

lemma hd_digits: "0 < n \<Longrightarrow> hd (map ((!) ALPHABET) (rev (toBase 58 n))) \<noteq> CHR ''1''"
proof -
  assume n: "0 < n"
  then have l: "toBase 58 n \<noteq> []" "last (toBase 58 n) \<noteq> 0" using toBase_last [of 58 n] by simp_all
  then have "hd (map ((!) ALPHABET) (rev (toBase 58 n))) = ALPHABET ! last (toBase 58 n)" by (simp add: hd_map hd_rev)
  moreover have "last (toBase 58 n) < 58" using l toBase_bound [of 58 _ n] by simp
  ultimately show ?thesis using l(2) distinct_ALPHABET nth_eq_iff_index_eq [of ALPHABET "last (toBase 58 n)" 0] ALPHABET_0 by simp
qed

lemma base58Decode_encode [simp]: "base58Decode (base58Encode bs) = Inr bs"
proof -
  define z where "z = length (takeWhile (\<lambda>b. b = 0) bs)"
  define n where "n = fromBE 256 (map unat bs)"
  define ds where "ds = rev (toBase 58 n)"
  have e: "base58Encode bs = replicate z (CHR ''1'') @ map ((!) ALPHABET) ds"
    by (simp add: base58Encode_eq z_def n_def ds_def)
  have t: "takeWhile (\<lambda>c. c = CHR ''1'') (base58Encode bs) = replicate z (CHR ''1'')"
  proof -
    have "ds = [] \<or> 0 < n" by (cases "n = 0") (simp_all add: ds_def)
    then have "map ((!) ALPHABET) ds = [] \<or> hd (map ((!) ALPHABET) ds) \<noteq> CHR ''1''"
      using hd_digits [of n] by (auto simp: ds_def)
    then show ?thesis unfolding e by (rule takeWhile_replicate_append)
  qed
  have b: "d < 58" if "d \<in> set ds" for d using that toBase_bound [of 58 d n] by (simp add: ds_def)
  have "list_all2 (\<lambda>c d. alphabetIndex c = Some d) (map ((!) ALPHABET) ds) ds"
    by (auto simp: list_all2_conv_all_nth intro!: alphabetIndex_nth b)
  from base58Value_eq [OF this, of 0] have v: "base58Value 0 (map ((!) ALPHABET) ds) = Inr n"
    using fromBE_toBase [of 58 n] by (simp add: ds_def fromBE_def)
  have "byteDigits n [] = map of_nat (map unat (dropWhile (\<lambda>b. b = 0) bs))"
    using rev_toBase_fromBE [of 256 "map unat bs"] unat_byte_less
    by (simp add: byteDigits_eq n_def dropWhile_map_unat)
  then have b: "byteDigits n [] = dropWhile (\<lambda>b. b = 0) bs" by (simp add: o_def)
  have "base58Decode (base58Encode bs) = Inr (replicate z 0 @ byteDigits n [])"
    unfolding base58Decode_def t Let_def length_replicate using v by (simp add: e)
  also have "replicate z 0 @ byteDigits n [] = bs"
    unfolding b z_def by (rule bytes_split_zeros [symmetric])
  finally show ?thesis .
qed

text \<open>Conversely a string that decodes is the encoding of what it decodes to.\<close>

lemma base58Encode_decode:
  assumes "base58Decode str = Inr bs"
  shows "base58Encode bs = str"
proof -
  define z where "z = length (takeWhile (\<lambda>c. c = CHR ''1'') str)"
  define rest where "rest = dropWhile (\<lambda>c. c = CHR ''1'') str"
  have rest: "drop z str = rest" by (simp add: z_def rest_def dropWhile_eq_drop)
  obtain ds where ds: "list_all2 (\<lambda>c d. alphabetIndex c = Some d) rest ds"
    and bs: "bs = replicate z 0 @ byteDigits (fromBE 58 ds) []"
    using assms base58Value_Inr [of 0 rest] rest
    by (auto simp: base58Decode_def result_simps fromBE_def Let_def simp flip: z_def)
  let ?n = "fromBE 58 ds" and ?d = "rev (toBase 256 (fromBE 58 ds))"
  have bd: "\<forall>d\<in>set ds. d < 58" and rs: "rest = map ((!) ALPHABET) ds"
  proof -
    have len: "length rest = length ds" and "alphabetIndex (rest ! i) = Some (ds ! i)" if "i < length ds" for i
      using ds that by (auto simp: list_all2_conv_all_nth)
    then have al: "ds ! i < 58 \<and> ALPHABET ! (ds ! i) = rest ! i" if "i < length ds" for i
      using alphabetIndex_Some that by blast
    then show "\<forall>d\<in>set ds. d < 58" by (metis in_set_conv_nth)
    show "rest = map ((!) ALPHABET) ds" using al list_all2_lengthD [OF ds] by (simp add: list_eq_iff_nth_eq)
  qed
  have "\<forall>d\<in>set ?d. d < 256" using toBase_bound [of 256] by auto
  then have u: "map unat (map of_nat ?d :: bytes) = ?d" by (simp only: map_map) (auto intro!: map_idI simp: unat_of_nat8)
  have "rest = [] \<or> hd rest \<noteq> CHR ''1''" unfolding rest_def using hd_dropWhile by blast
  then have "ds = [] \<or> hd ds \<noteq> 0" using rs ALPHABET_0 by (cases ds) (auto intro: gr0I)
  then have dd: "rev (toBase 58 ?n) = ds" using rev_toBase_fromBE [of 58 ds] bd by (cases ds) auto
  have hd: "map of_nat ?d = ([] :: bytes) \<or> hd (map of_nat ?d :: bytes) \<noteq> 0"
  proof (cases "?n = 0")
    case False
    then have "toBase 256 ?n \<noteq> []" "last (toBase 256 ?n) \<noteq> 0" using toBase_last [of 256 ?n] by simp_all
    moreover from this have "last (toBase 256 ?n) < 256" using toBase_bound [of 256 _ ?n] by simp
    ultimately show ?thesis by (simp add: hd_map hd_rev byte_eq_iff unat_of_nat8)
  qed simp
  have z: "takeWhile (\<lambda>b. b = 0) bs = replicate z 0"
    unfolding bs byteDigits_eq using hd by (simp add: takeWhile_replicate_append)
  have f: "fromBE 256 (map unat bs) = ?n"
  proof -
    have "rev (toBase 256 (fromBE 256 (map unat bs))) = dropWhile (\<lambda>d. d = 0) (map unat bs)"
      using unat_byte_less by (intro rev_toBase_fromBE) auto
    also have "\<dots> = map unat (dropWhile (\<lambda>b. b = 0) bs)" by (rule dropWhile_map_unat)
    also have "dropWhile (\<lambda>b. b = 0) bs = map of_nat ?d"
      using z unfolding dropWhile_eq_drop by (simp add: bs byteDigits_eq)
    also note u
    finally have "fromBE 256 (rev (toBase 256 (fromBE 256 (map unat bs)))) = fromBE 256 ?d" by (rule arg_cong)
    then show ?thesis by (simp add: fromBE_toBase)
  qed
  have "base58Encode bs = replicate z (CHR ''1'') @ rest" unfolding base58Encode_eq z f dd rs by simp
  also have "\<dots> = str" unfolding z_def rest_def by (rule bytes_split_zeros [symmetric])
  finally show ?thesis .
qed

section \<open>Lemmas: base58check\<close>

lemma checksum_equal:
  assumes "length a = 4" "length b = 4"
  shows "list_all (\<lambda>i. a ! i = b ! i) [0..<4] \<longleftrightarrow> a = b"
  using assms by (auto simp: list_all_iff list_eq_iff_nth_eq)

lemma base58checkDecode_eq:
  "base58checkDecode str = bindR (base58Decode str) (\<lambda>d.
     if length d < 5 then Inl ''base58check string too short''
     else let body = take (length d - 4) d in
       if drop (length d - 4) d = take 4 (hash256 body) then Inr (uint (hd body), tl body)
       else Inl ''invalid base58check checksum'')"
proof -
  have "(let version = d ! 0; payload = slice d 1 (length d - 5); checksum = drop (length d - 4) d;
          toHash = concatBytes [[version], payload]; expectedChecksum = take 4 (hash256 toHash)
        in if \<not> list_all (\<lambda>i. checksum ! i = expectedChecksum ! i) [0..<4] then Inl ''invalid base58check checksum''
           else Inr (uint version, payload))
     = (let body = take (length d - 4) d in
       if drop (length d - 4) d = take 4 (hash256 body) then Inr (uint (hd body), tl body)
       else Inl ''invalid base58check checksum'')" if d: "\<not> length d < 5" for d :: bytes
  proof -
    obtain v r where vr: "d = v # r" using d by (cases d) auto
    have b: "take (length d - 4) d = v # slice d 1 (length d - 5)"
      using d vr by (simp add: slice_def take_Cons' Suc_diff_le)
    have "length (drop (length d - 4) d) = 4" "length (take 4 (hash256 (v # slice d 1 (length d - 5)))) = 4" using d by simp_all
    from checksum_equal [OF this] show ?thesis using vr b by (simp add: Let_def)
  qed
  then show ?thesis unfolding base58checkDecode_def by (intro arg_cong [where f = "bindR _"] ext) simp
qed

lemma base58check_decode_encode:
  "base58checkDecode (base58checkEncode payload version) = Inr (uint (of_int version :: byte), payload)"
  by (simp add: base58checkDecode_eq base58checkEncode_def Let_def)

lemma base58check_encode_decode:
  assumes "base58checkDecode str = Inr (v, payload)"
  shows "base58checkEncode payload v = str \<and> 0 \<le> v \<and> v < 256"
proof -
  obtain d where d: "base58Decode str = Inr d" "\<not> length d < 5"
    and c: "drop (length d - 4) d = take 4 (hash256 (take (length d - 4) d))"
    and v: "v = uint (hd (take (length d - 4) d))" "payload = tl (take (length d - 4) d)"
    using assms by (auto simp: base58checkDecode_eq result_simps Let_def)
  let ?b = "take (length d - 4) d"
  have "?b \<noteq> []" using d by auto
  then have b: "of_int v # payload = ?b" unfolding v word_of_int_uint by (rule list.collapse)
  have "of_int v # payload @ take 4 (hash256 (of_int v # payload)) = d"
    using c b append_take_drop_id [of "length d - 4" d] by (metis append_Cons)
  then have "base58checkEncode payload v = base58Encode d" by (simp add: base58checkEncode_def)
  then show ?thesis using base58Encode_decode [OF d(1)] v uint_byte_less by simp
qed

end
