(* ===== verification/Addr.thy ===== *)
theory Addr
  imports Base58 Ripemd160
begin

text \<open>
  Addresses of \<^verbatim>\<open>contrib/uap-js/addr.js\<close>: pay-to-pubkey-hash scripts, the network version
  bytes, and the conversions between public keys, scripts and address strings. Shows that
  an accepted address determines its script and is recovered from it, and that every version
  byte other than the two pay-to-pubkey-hash ones is refused.
\<close>

section \<open>Model\<close>

datatype network = Mainnet | Testnet | Regtest

record version_bytes =
  PUBKEY_ADDRESS :: int
  SCRIPT_ADDRESS :: int
  SECRET_KEY :: int

fun VERSIONS :: "network \<Rightarrow> version_bytes" where
  "VERSIONS Mainnet = \<lparr>PUBKEY_ADDRESS = 0x49, SCRIPT_ADDRESS = 0x16, SECRET_KEY = 0x9e\<rparr>"
| "VERSIONS Testnet = \<lparr>PUBKEY_ADDRESS = 0x71, SCRIPT_ADDRESS = 0xc4, SECRET_KEY = 0xf1\<rparr>"
| "VERSIONS Regtest = \<lparr>PUBKEY_ADDRESS = 0x49, SCRIPT_ADDRESS = 0xc4, SECRET_KEY = 0xef\<rparr>"

text \<open>\<^verbatim>\<open>OP_DUP OP_HASH160 PUSH(20)\<close>, the hash, \<^verbatim>\<open>OP_EQUALVERIFY OP_CHECKSIG\<close>\<close>

definition p2pkhScript :: "bytes \<Rightarrow> bytes" where
  "p2pkhScript h = concatBytes [[0x76, 0xa9, 0x14], h, [0x88, 0xac]]"

definition buildP2PKHScript :: "bytes \<Rightarrow> bytes" where
  "buildP2PKHScript pubkey = (let h = hash160 pubkey in p2pkhScript h)"

definition pubkeyToAddress :: "bytes \<Rightarrow> int \<Rightarrow> string" where
  "pubkeyToAddress pubkey version = (let h = hash160 pubkey in base58checkEncode h version)"

definition addressToScript :: "string \<Rightarrow> bytes result" where
  "addressToScript address =
    bindR (base58checkDecode address) (\<lambda>(version, payload).
     if version \<notin> set (map (\<lambda>n. PUBKEY_ADDRESS (VERSIONS n)) [Mainnet, Testnet, Regtest])
     then Inl ''addressToScript: refusing to encode address version byte 0x''
     else if length payload \<noteq> 20 then Inl ''addressToScript: expected a 20-byte hash160 payload, got ''
     else Inr (p2pkhScript payload))"

definition scriptToAddress :: "bytes \<Rightarrow> int \<Rightarrow> string result" where
  "scriptToAddress script version =
    (if length script \<noteq> 25 then Inl ''script length is not 25''
     else if script ! 0 \<noteq> 0x76 then Inl ''script does not start with OP_DUP''
     else if script ! 1 \<noteq> 0xa9 then Inl ''script does not have OP_HASH160''
     else if script ! 2 \<noteq> 0x14 then Inl ''script does not have PUSH(20)''
     else if script ! 23 \<noteq> 0x88 then Inl ''script does not have OP_EQUALVERIFY''
     else if script ! 24 \<noteq> 0xac then Inl ''script does not end with OP_CHECKSIG''
     else Inr (base58checkEncode (slice script 3 20) version))"

section \<open>Lemmas\<close>

lemma p2pkhScript_eq: "p2pkhScript h = [0x76, 0xa9, 0x14] @ h @ [0x88, 0xac]"
  by (simp add: p2pkhScript_def)

lemma length_p2pkhScript: "length (p2pkhScript h) = length h + 5"
  by (simp add: p2pkhScript_eq)

lemma scriptToAddress_p2pkh:
  assumes "length h = 20"
  shows "scriptToAddress (p2pkhScript h) v = Inr (base58checkEncode h v)"
proof -
  have "slice (p2pkhScript h) 3 20 = h" using assms by (simp add: p2pkhScript_eq slice_def)
  moreover have "p2pkhScript h ! 23 = 0x88" "p2pkhScript h ! 24 = 0xac"
    using assms by (simp_all add: p2pkhScript_eq nth_append)
  ultimately show ?thesis using assms by (simp add: scriptToAddress_def length_p2pkhScript) (simp add: p2pkhScript_eq)
qed

lemma list_25_split:
  assumes "length (s :: bytes) = 25"
  shows "s = [s ! 0, s ! 1, s ! 2] @ slice s 3 20 @ [s ! 23, s ! 24]"
proof -
  have "take 3 s = [s ! 0, s ! 1, s ! 2]" using assms by (simp add: take_Suc_conv_app_nth numeral_3_eq_3 numeral_2_eq_2)
  moreover have "drop 23 s = [s ! 23, s ! 24]" using assms by (simp add: list_eq_iff_nth_eq nth_Cons split: nat.splits)
  moreover have "s = take 3 s @ take 20 (drop 3 s) @ drop 20 (drop 3 s)" by (metis append_take_drop_id)
  ultimately show ?thesis by (simp add: slice_def)
qed

lemma scriptToAddress_Inr:
  assumes "scriptToAddress s v = Inr a"
  shows "\<exists>h. length h = 20 \<and> s = p2pkhScript h \<and> a = base58checkEncode h v"
proof -
  have s: "length s = 25" "s ! 0 = 0x76" "s ! 1 = 0xa9" "s ! 2 = 0x14" "s ! 23 = 0x88" "s ! 24 = 0xac"
    "a = base58checkEncode (slice s 3 20) v"
    using assms by (auto simp: scriptToAddress_def split: if_splits)
  then have "s = p2pkhScript (slice s 3 20)" using list_25_split [OF s(1)] by (simp add: p2pkhScript_eq)
  moreover have "length (slice s 3 20) = 20" using s by (simp add: length_slice)
  ultimately show ?thesis using s by blast
qed

lemma addressToScript_Inr:
  "addressToScript a = Inr s \<longleftrightarrow> (\<exists>v h. base58checkDecode a = Inr (v, h) \<and> v \<in> {0x49, 0x71} \<and> length h = 20 \<and> s = p2pkhScript h)"
  by (auto simp: addressToScript_def result_simps)

lemma addressToScript_encode:
  assumes "length h = 20" "v \<in> {0x49, 0x71}"
  shows "addressToScript (base58checkEncode h v) = Inr (p2pkhScript h)"
  using assms by (auto simp: addressToScript_def base58check_decode_encode)

section \<open>Properties\<close>

text \<open>Base58 is a bijection: encoding then decoding returns the bytes, and a string that decodes is
  the one encoding of its bytes, so no two different address strings carry the same bytes.\<close>

theorem base58_bijection:
  "base58Decode str = Inr bs \<longleftrightarrow> str = base58Encode bs"
  using base58Encode_decode by auto

text \<open>Base58check is canonical: a string decodes to a version and payload exactly when the version is
  a byte and the string is the checksummed encoding of the two.\<close>

theorem base58check_canonical:
  "base58checkDecode str = Inr (v, payload) \<longleftrightarrow> 0 \<le> v \<and> v < 256 \<and> str = base58checkEncode payload v"
proof
  assume "base58checkDecode str = Inr (v, payload)"
  from base58check_encode_decode [OF this] show "0 \<le> v \<and> v < 256 \<and> str = base58checkEncode payload v" by auto
next
  assume "0 \<le> v \<and> v < 256 \<and> str = base58checkEncode payload v"
  then show "base58checkDecode str = Inr (v, payload)"
    by (auto simp: base58check_decode_encode uint_word_of_int take_bit_int_eq_self)
qed

text \<open>C29: Addresses and scripts. An address is accepted exactly when it is the base58check text of a
  20-byte hash under one of the networks' pay-to-pubkey-hash versions; its script is then the
  25-byte pay-to-pubkey-hash script of that hash, and reading the script back under the same
  version returns the address. In particular script-hash addresses and unknown versions are
  refused.\<close>

theorem address_script_canonical:
  "addressToScript a = Inr s \<longleftrightarrow>
    (\<exists>n. scriptToAddress s (PUBKEY_ADDRESS (VERSIONS n)) = Inr a)"
proof
  assume "addressToScript a = Inr s"
  then obtain v h where h: "base58checkDecode a = Inr (v, h)" "v \<in> {0x49, 0x71}" "length h = 20" "s = p2pkhScript h"
    by (auto simp: addressToScript_Inr)
  then have a: "scriptToAddress s v = Inr a" using base58check_encode_decode [OF h(1)] by (simp add: scriptToAddress_p2pkh)
  have "v = PUBKEY_ADDRESS (VERSIONS Mainnet) \<or> v = PUBKEY_ADDRESS (VERSIONS Testnet)" using h(2) by auto
  with a show "\<exists>n. scriptToAddress s (PUBKEY_ADDRESS (VERSIONS n)) = Inr a" by blast
next
  assume "\<exists>n. scriptToAddress s (PUBKEY_ADDRESS (VERSIONS n)) = Inr a"
  then obtain n h where "length h = 20" "s = p2pkhScript h" "a = base58checkEncode h (PUBKEY_ADDRESS (VERSIONS n))"
    using scriptToAddress_Inr by blast
  then show "addressToScript a = Inr s" by (cases n) (auto intro: addressToScript_encode)
qed

text \<open>The address shown for a public key pays that key: on every network the key's address converts
  to exactly the pay-to-pubkey-hash script of the key.\<close>

theorem address_pays_its_key:
  "addressToScript (pubkeyToAddress pubkey (PUBKEY_ADDRESS (VERSIONS n))) = Inr (buildP2PKHScript pubkey)"
  by (cases n) (auto simp: pubkeyToAddress_def buildP2PKHScript_def intro!: addressToScript_encode)

end
