(* ===== verification/Secp256k1.thy ===== *)
theory Secp256k1
  imports Base58 Script "HOL-Library.Signed_Division"
begin

text \<open>
  The curve library, \<^verbatim>\<open>contrib/uap-js/noble-secp256k1.js\<close>: byte and number conversions, modular
  arithmetic, points in projective coordinates, scalar multiplication with its precomputed
  table for the generator, and ECDSA with the deterministic nonces of RFC 6979.

  A \<^verbatim>\<open>BigInt\<close> is an \<^typ>\<open>int\<close>; its \<^verbatim>\<open>/\<close> and \<^verbatim>\<open>%\<close> truncate towards zero, as \<open>sdiv\<close> and \<open>smod\<close> do.
  A point is a record of its three coordinates, and every operation that constructs one can
  throw, as the constructor checks the coordinates' ranges. The hash the library asks its
  host for (\<^verbatim>\<open>etc.hmacSha256Sync\<close>) is an argument, \<open>None\<close> when it has not been configured, and
  so are the system's random bytes.

  Shows that inversion computes the inverse and fails exactly when there is none, that public
  keys and compact signatures survive their encodings, that the windowed recoding of a scalar
  represents the scalar with table indices in range, that signing follows RFC 6979, and that
  every signature it returns is in range and in the lower half when asked.
\<close>

section \<open>Model: bytes and numbers\<close>

definition CURVE_P :: int where
  "CURVE_P = 0xfffffffffffffffffffffffffffffffffffffffffffffffffffffffefffffc2f"

definition CURVE_N :: int where
  "CURVE_N = 0xfffffffffffffffffffffffffffffffebaaedce6af48a03bbfd25e8cd0364141"

definition CURVE_b :: int where
  "CURVE_b = 7"

definition CURVE_Gx :: int where
  "CURVE_Gx = 0x79be667ef9dcbbac55a06295ce870b07029bfcdb2dce28d959f2815b16f81798"

definition CURVE_Gy :: int where
  "CURVE_Gy = 0x483ada7726a3c4655da4fbfc0e1108a8fd17b448a68554199c47d08ffb10d4b8"

definition abytes :: "bytes \<Rightarrow> nat option \<Rightarrow> bytes result" where
  "abytes a l = (case l of
     Some n \<Rightarrow> (if n > 0 \<and> length a \<noteq> n then Inl ''Uint8Array expected'' else Inr a)
   | None \<Rightarrow> Inr a)"

definition padh :: "nat \<Rightarrow> nat \<Rightarrow> string" where
  "padh n pad = padStart pad (CHR ''0'') (toString16 n)"

text \<open>\<^verbatim>\<open>bytesToHex\<close> of this library writes every byte as \<^verbatim>\<open>padh(e, 2)\<close>.\<close>

definition nobleBytesToHex :: "bytes \<Rightarrow> string" where
  "nobleBytesToHex b = concat (map (\<lambda>e. padh (unat e) 2) b)"

text \<open>\<^verbatim>\<open>_ch\<close>, and \<^verbatim>\<open>hexToBytes\<close>, which unlike the wallet's own rejects every character that is no digit.\<close>

definition charVal :: "nat \<Rightarrow> nat option" where
  "charVal c = (if 48 \<le> c \<and> c \<le> 57 then Some (c - 48)
    else if 65 \<le> c \<and> c \<le> 70 then Some (c - (65 - 10))
    else if 97 \<le> c \<and> c \<le> 102 then Some (c - (97 - 10)) else None)"

fun nobleHexPairs :: "string \<Rightarrow> bytes result" where
  "nobleHexPairs (a # b # r) =
    (case (charVal (of_char a), charVal (of_char b)) of
       (Some n1, Some n2) \<Rightarrow> mapR (Cons (of_nat (n1 * 16 + n2))) (nobleHexPairs r)
     | _ \<Rightarrow> Inl ''hex invalid'')"
| "nobleHexPairs _ = Inr []"

definition nobleHexToBytes :: "string \<Rightarrow> bytes result" where
  "nobleHexToBytes hex = (if length hex mod 2 \<noteq> 0 then Inl ''hex invalid'' else nobleHexPairs hex)"

definition arange :: "int \<Rightarrow> int \<Rightarrow> int \<Rightarrow> error \<Rightarrow> int result" where
  "arange n lo hi msg = (if lo \<le> n \<and> n < hi then Inr n else Inl msg)"

definition badNumber :: error where
  "badNumber = ''bad number: out of range''"

text \<open>\<^verbatim>\<open>M\<close>, with the modulus written out, and its two uses.\<close>

definition modM :: "int \<Rightarrow> int \<Rightarrow> int" where
  "modM a b = (let r = a smod b in if r \<ge> 0 then r else b + r)"

abbreviation modP :: "int \<Rightarrow> int" where "modP a \<equiv> modM a CURVE_P"

definition modN :: "int \<Rightarrow> int" where
  "modN a = modM a CURVE_N"

text \<open>The loop of \<^verbatim>\<open>invert\<close>; it returns the final \<^verbatim>\<open>b\<close> and \<^verbatim>\<open>x\<close>.\<close>

lemma smod_abs_less: "a \<noteq> 0 \<Longrightarrow> nat \<bar>b smod (a :: int)\<bar> < nat \<bar>a\<bar>"
proof -
  assume a: "a \<noteq> 0"
  have "b smod a = sgn b * (\<bar>b\<bar> mod \<bar>a\<bar>)" by (simp add: signed_modulo_int_def signed_divide_int_def sgn_mult algebra_simps minus_mult_div_eq_mod [symmetric] abs_sgn sgn_if)
  then show ?thesis using a by (auto simp: abs_mult sgn_if)
qed

function invertLoop :: "int \<Rightarrow> int \<Rightarrow> int \<Rightarrow> int \<Rightarrow> int \<Rightarrow> int \<Rightarrow> int \<times> int" where
  "invertLoop a b x y u v =
    (if a = 0 then (b, x)
     else (let q = b sdiv a; r = b smod a; m = x - u * q; n = y - v * q in invertLoop r a u v m n))"
  by pat_completeness auto
termination
  by (relation "measure (\<lambda>(a, b, x, y, u, v). nat \<bar>a\<bar>)") (auto simp only: in_measure split_conv wf_measure intro: smod_abs_less)

declare invertLoop.simps [simp del]

definition invert :: "int \<Rightarrow> int \<Rightarrow> int result" where
  "invert num md =
    (if num = 0 \<or> md \<le> 0 then Inl ''no inverse n=''
     else (case invertLoop (modM num md) md 0 1 1 0 of
       (b, x) \<Rightarrow> (if b = 1 then Inr (modM x md) else Inl ''no inverse'')))"

text \<open>\<^verbatim>\<open>bytesToNumBE\<close> reads the hex text as a number.\<close>

definition bytesToNumBE :: "bytes \<Rightarrow> int" where
  "bytesToNumBE b = (let h = nobleBytesToHex b in int (digitsVal (if h = [] then ''0'' else h)))"

definition sliceBytesNumBE :: "bytes \<Rightarrow> nat \<Rightarrow> nat \<Rightarrow> int" where
  "sliceBytesNumBE b from to = bytesToNumBE (slice b from (to - from))"

definition B256 :: int where
  "B256 = 2 ^ 256"

definition numTo32b :: "int \<Rightarrow> bytes result" where
  "numTo32b num = bindR (arange num 0 B256 badNumber) (\<lambda>n. nobleHexToBytes (padh (nat n) 64))"

definition toPrivScalar :: "bytes \<Rightarrow> int result" where
  "toPrivScalar pr = bindR (abytes pr (Some 32)) (\<lambda>b. arange (bytesToNumBE b) 1 CURVE_N ''private key invalid 3'')"

section \<open>Model: points\<close>

definition koblitz :: "int \<Rightarrow> int" where
  "koblitz x = modP (modP (x * x) * x + CURVE_b)"

definition afield0 :: "int \<Rightarrow> int result" where
  "afield0 n = arange n 0 CURVE_P badNumber"

definition afield :: "int \<Rightarrow> int result" where
  "afield n = arange n 1 CURVE_P badNumber"

definition agroup :: "int \<Rightarrow> int result" where
  "agroup n = arange n 1 CURVE_N badNumber"

definition isEvenB :: "int \<Rightarrow> bool" where
  "isEvenB y = (y AND 1 = 0)"

definition getPrefix :: "int \<Rightarrow> bytes" where
  "getPrefix y = [if isEvenB y then 0x02 else 0x03]"

text \<open>The loop of \<^verbatim>\<open>lift_x\<close>.\<close>

function powMod :: "int \<Rightarrow> int \<Rightarrow> int \<Rightarrow> int" where
  "powMod r num e =
    (if e > 0 then powMod (if e AND 1 \<noteq> 0 then (r * num) smod CURVE_P else r) ((num * num) smod CURVE_P) (drop_bit 1 e) else r)"
  by pat_completeness auto
termination
  by (relation "measure (\<lambda>(r, num, e). nat e)") (simp_all add: drop_bit_eq_div)

declare powMod.simps [simp del]

definition lift_x :: "int \<Rightarrow> int result" where
  "lift_x x =
    bindR (afield x) (\<lambda>x.
    let c = koblitz x; r = powMod 1 c ((CURVE_P + 1) sdiv 4) in
    if modP (r * r) = c then Inr r else Inl ''sqrt invalid'')"

record point =
  px :: int
  py :: int
  pz :: int

definition newPoint :: "int \<Rightarrow> int \<Rightarrow> int \<Rightarrow> point result" where
  "newPoint x y z = bindR (afield0 x) (\<lambda>x. bindR (afield y) (\<lambda>y. bindR (afield0 z) (\<lambda>z. Inr \<lparr>px = x, py = y, pz = z\<rparr>)))"

text \<open>The generator and the identity.\<close>

definition Point_BASE :: point where
  "Point_BASE = \<lparr>px = CURVE_Gx, py = CURVE_Gy, pz = 1\<rparr>"

definition Point_ZERO :: point where
  "Point_ZERO = \<lparr>px = 0, py = 1, pz = 0\<rparr>"

definition Point_equals :: "point \<Rightarrow> point \<Rightarrow> bool" where
  "Point_equals p q =
    (let X1Z2 = modP (px p * pz q); X2Z1 = modP (px q * pz p); Y1Z2 = modP (py p * pz q); Y2Z1 = modP (py q * pz p)
     in X1Z2 = X2Z1 \<and> Y1Z2 = Y2Z1)"

definition Point_is0 :: "point \<Rightarrow> bool" where
  "Point_is0 p = Point_equals p Point_ZERO"

definition Point_negate :: "point \<Rightarrow> point result" where
  "Point_negate p = newPoint (px p) (modP (- py p)) (pz p)"

definition Point_add :: "point \<Rightarrow> point \<Rightarrow> point result" where
  "Point_add p q =
    (let X1 = px p; Y1 = py p; Z1 = pz p; X2 = px q; Y2 = py q; Z2 = pz q;
         a = 0; b = CURVE_b; b3 = modP (b * 3);
         t0 = modP (X1 * X2); t1 = modP (Y1 * Y2); t2 = modP (Z1 * Z2); t3 = modP (X1 + Y1);
         t4 = modP (X2 + Y2);
         t3 = modP (t3 * t4);
         t4 = modP (t0 + t1);
         t3 = modP (t3 - t4);
         t4 = modP (X1 + Z1);
         t5 = modP (X2 + Z2);
         t4 = modP (t4 * t5);
         t5 = modP (t0 + t2);
         t4 = modP (t4 - t5);
         t5 = modP (Y1 + Z1);
         X3 = modP (Y2 + Z2);
         t5 = modP (t5 * X3);
         X3 = modP (t1 + t2);
         t5 = modP (t5 - X3);
         Z3 = modP (a * t4);
         X3 = modP (b3 * t2);
         Z3 = modP (X3 + Z3);
         X3 = modP (t1 - Z3);
         Z3 = modP (t1 + Z3);
         Y3 = modP (X3 * Z3);
         t1 = modP (t0 + t0);
         t1 = modP (t1 + t0);
         t2 = modP (a * t2);
         t4 = modP (b3 * t4);
         t1 = modP (t1 + t2);
         t2 = modP (t0 - t2);
         t2 = modP (a * t2);
         t4 = modP (t4 + t2);
         t0 = modP (t1 * t4);
         Y3 = modP (Y3 + t0);
         t0 = modP (t5 * t4);
         X3 = modP (t3 * X3);
         X3 = modP (X3 - t0);
         t0 = modP (t3 * t1);
         Z3 = modP (t5 * Z3);
         Z3 = modP (Z3 + t0)
     in newPoint X3 Y3 Z3)"

definition Point_double :: "point \<Rightarrow> point result" where
  "Point_double p = Point_add p p"

section \<open>Model: multiplication\<close>

text \<open>An array read; past the end it yields \<^verbatim>\<open>undefined\<close>, on which the next method call throws.\<close>

definition pointAt :: "point list \<Rightarrow> int \<Rightarrow> point result" where
  "pointAt tbl i = (if 0 \<le> i \<and> i < int (length tbl) then Inr (tbl ! nat i) else Inl ''TypeError'')"

definition pwindows :: nat where
  "pwindows = 33"

definition pwindowSize :: nat where
  "pwindowSize = 128"

text \<open>\<^verbatim>\<open>precompute\<close>: the inner loop pushes the sums after the first point, the outer one the windows.\<close>

fun windowPoints :: "nat \<Rightarrow> point \<Rightarrow> point \<Rightarrow> point list result" where
  "windowPoints 0 b p = Inr []"
| "windowPoints (Suc k) b p = bindR (Point_add b p) (\<lambda>b'. mapR (Cons b') (windowPoints k b' p))"

fun precomputeLoop :: "nat \<Rightarrow> point \<Rightarrow> point list result" where
  "precomputeLoop 0 p = Inr []"
| "precomputeLoop (Suc k) p =
    bindR (windowPoints (pwindowSize - 1) p p) (\<lambda>rest.
    bindR (Point_double (last (p # rest))) (\<lambda>p'.
    mapR (\<lambda>r. (p # rest) @ r) (precomputeLoop k p')))"

definition precompute :: "point list result" where
  "precompute = precomputeLoop pwindows Point_BASE"

definition ctneg :: "bool \<Rightarrow> point \<Rightarrow> point result" where
  "ctneg cnd p = bindR (Point_negate p) (\<lambda>n. Inr (if cnd then n else p))"

text \<open>One window of the scalar: the signed digit and what is left of the scalar.\<close>

definition wnafDigit :: "int \<Rightarrow> int \<times> int" where
  "wnafDigit n =
    (let wbits = n AND 255; n = drop_bit 8 n in
     if wbits > int pwindowSize then (wbits - 256, n + 1) else (wbits, n))"

fun wNAFLoop :: "point list \<Rightarrow> nat list \<Rightarrow> int \<Rightarrow> point \<Rightarrow> point \<Rightarrow> (point \<times> point) result" where
  "wNAFLoop tbl [] n p f = Inr (p, f)"
| "wNAFLoop tbl (w # ws) n p f =
    (let (wbits, n') = wnafDigit n;
         off = int (w * pwindowSize); offF = off; offP = off + \<bar>wbits\<bar> - 1;
         isEven = (w mod 2 \<noteq> 0); isNeg = (wbits < 0)
     in if wbits = 0
        then bindR (pointAt tbl offF) (\<lambda>c. bindR (ctneg isEven c) (\<lambda>c. bindR (Point_add f c) (\<lambda>f'. wNAFLoop tbl ws n' p f')))
        else bindR (pointAt tbl offP) (\<lambda>c. bindR (ctneg isNeg c) (\<lambda>c. bindR (Point_add p c) (\<lambda>p'. wNAFLoop tbl ws n' p' f))))"

definition wNAF :: "int \<Rightarrow> (point \<times> point) result" where
  "wNAF n = bindR precompute (\<lambda>tbl. wNAFLoop tbl [0..<pwindows] n Point_ZERO Point_BASE)"

lemma bindR_cong [fundef_cong]:
  "m = m' \<Longrightarrow> (\<And>x. m' = Inr x \<Longrightarrow> f x = g x) \<Longrightarrow> bindR m f = bindR m' g"
  by (cases m') simp_all

text \<open>The loop of \<^verbatim>\<open>multiply\<close>: the point \<^verbatim>\<open>f\<close> only absorbs the additions of zero bits.\<close>

function mulLoop :: "bool \<Rightarrow> point \<Rightarrow> point \<Rightarrow> point \<Rightarrow> int \<Rightarrow> point result" where
  "mulLoop safe p f d n =
    (if n > 0 then
       bindR (if n AND 1 \<noteq> 0 then mapR (\<lambda>p'. (p', f)) (Point_add p d)
              else if safe then mapR (\<lambda>f'. (p, f')) (Point_add f d) else Inr (p, f)) (\<lambda>pf.
       bindR (Point_double d) (\<lambda>d'. mulLoop safe (fst pf) (snd pf) d' (drop_bit 1 n)))
     else Inr p)"
  by pat_completeness auto
termination
  by (relation "measure (\<lambda>(safe, p, f, d, n). nat n)") (simp_all add: drop_bit_eq_div)

declare mulLoop.simps [simp del]

definition Point_multiply :: "point \<Rightarrow> int \<Rightarrow> bool \<Rightarrow> point result" where
  "Point_multiply this n safe =
    (if \<not> safe \<and> n = 0 then Inr Point_ZERO
     else bindR (agroup n) (\<lambda>n.
       if n = 1 then Inr this
       else if Point_equals this Point_BASE then mapR fst (wNAF n)
       else mulLoop safe Point_ZERO Point_BASE this n))"

definition toAffine :: "point \<Rightarrow> (int \<times> int) result" where
  "toAffine p =
    (if Point_equals p Point_ZERO then Inr (0, 0)
     else if pz p = 1 then Inr (px p, py p)
     else bindR (invert (pz p) CURVE_P) (\<lambda>iz.
       if modP (pz p * iz) \<noteq> 1 then Inl ''inverse invalid''
       else Inr (modP (px p * iz), modP (py p * iz))))"

definition assertValidity :: "point \<Rightarrow> point result" where
  "assertValidity p =
    bindR (toAffine p) (\<lambda>(x, y).
    bindR (afield x) (\<lambda>_. bindR (afield y) (\<lambda>_.
    if modP (y * y) = koblitz x then Inr p else Inl ''bad point: not on curve'')))"

definition Point_toBytes :: "point \<Rightarrow> bool \<Rightarrow> bytes result" where
  "Point_toBytes p isCompressed =
    bindR (assertValidity p) (\<lambda>p. bindR (toAffine p) (\<lambda>(x, y).
    bindR (numTo32b x) (\<lambda>x32b.
    if isCompressed then Inr (concatBytes [getPrefix y, x32b])
    else bindR (numTo32b y) (\<lambda>y32b. Inr (concatBytes [[0x04], x32b, y32b])))))"

definition fromAffine :: "int \<Rightarrow> int \<Rightarrow> point result" where
  "fromAffine x y = (if x = 0 \<and> y = 0 then Inr Point_ZERO else newPoint x y 1)"

definition Point_fromBytes :: "bytes \<Rightarrow> point result" where
  "Point_fromBytes bs =
    (let tail = drop 1 bs; x = sliceBytesNumBE tail 0 32; len = length bs in
     bindR (if len = 33 \<and> bs ! 0 \<in> {0x02, 0x03} then
              bindR (lift_x x) (\<lambda>y.
              let evenY = isEvenB y; evenH = isEvenB (uint (bs ! 0)); y = (if evenH \<noteq> evenY then modP (- y) else y) in
              mapR Some (newPoint x y 1))
            else if len = 65 \<and> bs ! 0 = 0x04 then mapR Some (newPoint x (sliceBytesNumBE tail 32 64) 1)
            else Inr None) (\<lambda>p.
     case p of Some p \<Rightarrow> assertValidity p | None \<Rightarrow> Inl ''bad point: not on curve''))"

definition fromPrivateKey :: "bytes \<Rightarrow> point result" where
  "fromPrivateKey k = bindR (toPrivScalar k) (\<lambda>d. Point_multiply Point_BASE d True)"

definition doubleScalarMulUns :: "point \<Rightarrow> int \<Rightarrow> int \<Rightarrow> point result" where
  "doubleScalarMulUns R u1 u2 =
    bindR (Point_multiply Point_BASE u1 False) (\<lambda>a. bindR (Point_multiply R u2 False) (\<lambda>b.
    bindR (Point_add a b) assertValidity))"

definition getPublicKey :: "bytes \<Rightarrow> bool \<Rightarrow> bytes result" where
  "getPublicKey privKey isCompressed =
    bindR (toPrivScalar privKey) (\<lambda>d. bindR (Point_multiply Point_BASE d True) (\<lambda>p. Point_toBytes p isCompressed))"

definition getSharedSecret :: "bytes \<Rightarrow> bytes \<Rightarrow> bool \<Rightarrow> bytes result" where
  "getSharedSecret privA pubB isCompressed =
    bindR (Point_fromBytes pubB) (\<lambda>p. bindR (toPrivScalar privA) (\<lambda>d.
    bindR (Point_multiply p d True) (\<lambda>q. Point_toBytes q isCompressed)))"

definition hashToPrivateKey :: "bytes \<Rightarrow> bytes result" where
  "hashToPrivateKey hash =
    (if length hash < 40 \<or> length hash > 1024 then Inl ''expected 40-1024b''
     else numTo32b (modM (bytesToNumBE hash) (CURVE_N - 1) + 1))"

definition isValidPrivateKey :: "bytes \<Rightarrow> bool" where
  "isValidPrivateKey key = (case toPrivScalar key of Inr d \<Rightarrow> d \<noteq> 0 | Inl _ \<Rightarrow> False)"

section \<open>Model: signatures\<close>

record signature =
  sig_r :: int
  sig_s :: int
  sig_recovery :: "nat option"

definition newSignature :: "int \<Rightarrow> int \<Rightarrow> nat option \<Rightarrow> signature result" where
  "newSignature r s recovery =
    bindR (agroup r) (\<lambda>r. bindR (agroup s) (\<lambda>s. Inr \<lparr>sig_r = r, sig_s = s, sig_recovery = recovery\<rparr>))"

definition highS :: "int \<Rightarrow> bool" where
  "highS n = (n > drop_bit 1 CURVE_N)"

definition Signature_fromBytes :: "bytes \<Rightarrow> signature result" where
  "Signature_fromBytes b =
    bindR (abytes b (Some 64)) (\<lambda>b. newSignature (sliceBytesNumBE b 0 32) (sliceBytesNumBE b 32 64) None)"

definition Signature_toBytes :: "signature \<Rightarrow> bytes result" where
  "Signature_toBytes sg = bindR (numTo32b (sig_r sg)) (\<lambda>r. bindR (numTo32b (sig_s sg)) (\<lambda>s. Inr (concatBytes [r, s])))"

definition addRecoveryBit :: "signature \<Rightarrow> nat \<Rightarrow> signature result" where
  "addRecoveryBit sg recbit = newSignature (sig_r sg) (sig_s sg) (Some recbit)"

definition hasHighS :: "signature \<Rightarrow> bool" where
  "hasHighS sg = highS (sig_s sg)"

definition normalizeS :: "signature \<Rightarrow> signature result" where
  "normalizeS sg =
    (if highS (sig_s sg) then newSignature (sig_r sg) (modN (- sig_s sg)) (sig_recovery sg) else Inr sg)"

definition bits2int :: "bytes \<Rightarrow> int result" where
  "bits2int bs =
    (let delta = int (length bs) * 8 - 256 in
     if delta > 1024 then Inl ''msg invalid''
     else (let num = bytesToNumBE bs in Inr (if delta > 0 then drop_bit (nat delta) num else num)))"

definition bits2int_modN :: "bytes \<Rightarrow> int result" where
  "bits2int_modN bs = mapR modN (bits2int bs)"

text \<open>
  The options of \<^verbatim>\<open>sign\<close>: \<open>sgn_legacy\<close> says that one of the option names of the library's
  first version is present. Extra entropy is absent, asked of the system, or given.
\<close>

datatype entropy = NoEntropy | SystemEntropy | EntropyBytes bytes

record sgn_opts =
  sgn_legacy :: bool
  sgn_lowS :: "bool option"
  sgn_extraEntropy :: entropy

text \<open>\<^verbatim>\<open>k2sig\<close> of \<^verbatim>\<open>prepSig\<close>; \<^term>\<open>None\<close> is \<^verbatim>\<open>undefined\<close>, which asks for another nonce.\<close>

definition k2sig :: "int \<Rightarrow> int \<Rightarrow> bool \<Rightarrow> bytes \<Rightarrow> signature option result" where
  "k2sig m d lowS kBytes =
    bindR (bits2int kBytes) (\<lambda>k.
    if \<not> (1 \<le> k \<and> k < CURVE_N) then Inr None
    else
      bindR (Point_multiply Point_BASE k True) (\<lambda>kG. bindR (toAffine kG) (\<lambda>(qx, qy).
      let r = modN qx in
      if r = 0 then Inr None
      else
        bindR (invert k CURVE_N) (\<lambda>ik.
        let s = modN (ik * modN (m + modN (d * r))) in
        if s = 0 then Inr None
        else
          (let recovery = (if qx = r then 0 else 2) OR nat (qy AND 1);
               flip = (lowS \<and> highS s);
               normS = (if flip then modN (- s) else s);
               recovery = (if flip then recovery XOR 1 else recovery)
           in mapR Some (newSignature r normS (Some recovery)))))))"

definition prepSig :: "bytes \<Rightarrow> bytes \<Rightarrow> bytes \<Rightarrow> sgn_opts \<Rightarrow> (bytes \<times> (bytes \<Rightarrow> signature option result)) result" where
  "prepSig rnd msgh priv opts =
    (if sgn_legacy opts then Inl ''option not supported''
     else
       (let lowS = (case sgn_lowS opts of None \<Rightarrow> True | Some b \<Rightarrow> b) in
        bindR (bits2int_modN msgh) (\<lambda>h1i. bindR (numTo32b h1i) (\<lambda>h1o.
        bindR (toPrivScalar priv) (\<lambda>d. bindR (numTo32b d) (\<lambda>dOct.
        let seed = [dOct, h1o] @ (case sgn_extraEntropy opts of
                 NoEntropy \<Rightarrow> [] | SystemEntropy \<Rightarrow> [rnd] | EntropyBytes e \<Rightarrow> [e])
        in Inr (concatBytes seed, k2sig h1i d lowS)))))))"

text \<open>\<^verbatim>\<open>hmacDrbg(false)\<close>, its state \<^verbatim>\<open>k\<close> and \<^verbatim>\<open>v\<close> passed along and its counter an argument of the loop.\<close>

type_synonym hmac_hook = "(bytes \<Rightarrow> bytes list \<Rightarrow> bytes) option"

definition drbgH :: "hmac_hook \<Rightarrow> bytes \<Rightarrow> bytes \<Rightarrow> bytes list \<Rightarrow> bytes result" where
  "drbgH hook k v b = (case hook of None \<Rightarrow> Inl ''hashes.hmacSha256Sync not set'' | Some f \<Rightarrow> Inr (f k (v # b)))"

definition reseed :: "hmac_hook \<Rightarrow> bytes \<Rightarrow> bytes \<Rightarrow> bytes \<Rightarrow> (bytes \<times> bytes) result" where
  "reseed hook k v seed =
    bindR (drbgH hook k v [[0x00], seed]) (\<lambda>k. bindR (drbgH hook k v []) (\<lambda>v.
    if length seed = 0 then Inr (k, v)
    else bindR (drbgH hook k v [[0x01], seed]) (\<lambda>k. bindR (drbgH hook k v []) (\<lambda>v. Inr (k, v)))))"

definition drbgMax :: nat where
  "drbgMax = 1000"

function drbgLoop :: "hmac_hook \<Rightarrow> (bytes \<Rightarrow> 'a option result) \<Rightarrow> nat \<Rightarrow> bytes \<Rightarrow> bytes \<Rightarrow> 'a result" where
  "drbgLoop hook pred i k v =
    (if i \<ge> drbgMax then Inl ''drbg: tried 1000 values''
     else bindR (drbgH hook k v []) (\<lambda>v. bindR (pred v) (\<lambda>res.
       case res of Some x \<Rightarrow> Inr x
       | None \<Rightarrow> bindR (reseed hook k v []) (\<lambda>kv. drbgLoop hook pred (Suc i) (fst kv) (snd kv)))))"
  by pat_completeness auto
termination
  by (relation "measure (\<lambda>(hook, pred, i, k, v). drbgMax - i)") auto

declare drbgLoop.simps [simp del]

definition hmacDrbg :: "hmac_hook \<Rightarrow> bytes \<Rightarrow> (bytes \<Rightarrow> 'a option result) \<Rightarrow> 'a result" where
  "hmacDrbg hook seed pred =
    bindR (reseed hook (replicate 32 0) (replicate 32 1) seed) (\<lambda>(k, v). drbgLoop hook pred 0 k v)"

definition nobleSign :: "hmac_hook \<Rightarrow> bytes \<Rightarrow> bytes \<Rightarrow> bytes \<Rightarrow> sgn_opts \<Rightarrow> signature result" where
  "nobleSign hook rnd msgh priv opts = bindR (prepSig rnd msgh priv opts) (\<lambda>(seed, toSig). hmacDrbg hook seed toSig)"

datatype sig_arg = SigObject int int | SigBytes bytes

text \<open>
  \<^verbatim>\<open>verify\<close>: an error of the checks before the \<^verbatim>\<open>try\<close> block is thrown, one inside it is the
  answer \<^const>\<open>False\<close>.
\<close>

definition verifyBody :: "sig_arg \<Rightarrow> bytes \<Rightarrow> bytes \<Rightarrow> bool \<Rightarrow> bool result" where
  "verifyBody sg msgh pub lowS =
    bindR (case sg of SigObject r s \<Rightarrow> newSignature r s None | SigBytes b \<Rightarrow> Signature_fromBytes b) (\<lambda>sigg.
    bindR (bits2int_modN msgh) (\<lambda>h. bindR (Point_fromBytes pub) (\<lambda>Q.
    if lowS \<and> highS (sig_s sigg) then Inr False
    else bindR (invert (sig_s sigg) CURVE_N) (\<lambda>is.
      let u1 = modN (h * is); u2 = modN (sig_r sigg * is) in
      bindR (doubleScalarMulUns Q u1 u2) (\<lambda>R'. bindR (toAffine R') (\<lambda>(x, y). Inr (modN x = sig_r sigg)))))))"

definition verify :: "sig_arg \<Rightarrow> bytes \<Rightarrow> bytes \<Rightarrow> bool option \<Rightarrow> bool \<Rightarrow> bool result" where
  "verify sg msgh pub lowSOpt strict =
    (if strict then Inl ''option not supported''
     else if (case sg of SigBytes b \<Rightarrow> length b \<noteq> 64 | SigObject _ _ \<Rightarrow> False) then Inl ''signature must be 64 bytes''
     else Inr (case verifyBody sg msgh pub (case lowSOpt of None \<Rightarrow> True | Some b \<Rightarrow> b) of Inr b \<Rightarrow> b | Inl _ \<Rightarrow> False))"

definition recoverPublicKey :: "signature \<Rightarrow> bytes \<Rightarrow> point result" where
  "recoverPublicKey sg msgh =
    (case sig_recovery sg of
       None \<Rightarrow> Inl ''recovery id invalid''
     | Some recovery \<Rightarrow>
       if recovery \<notin> {0, 1, 2, 3} then Inl ''recovery id invalid''
       else
         bindR (abytes msgh (Some 32)) (\<lambda>msgh. bindR (bits2int_modN msgh) (\<lambda>h.
         let radj = (if recovery = 2 \<or> recovery = 3 then sig_r sg + CURVE_N else sig_r sg) in
         bindR (afield radj) (\<lambda>_. bindR (numTo32b radj) (\<lambda>rb.
         bindR (Point_fromBytes (concatBytes [getPrefix (int recovery), rb])) (\<lambda>R'.
         bindR (invert radj CURVE_N) (\<lambda>ir.
         doubleScalarMulUns R' (modN (- h * ir)) (modN (sig_s sg * ir)))))))))"

section \<open>Lemmas: arithmetic\<close>

lemma CURVE_pos [simp]: "0 < CURVE_P" "0 < CURVE_N" "CURVE_P \<noteq> 0" "CURVE_N \<noteq> 0"
  by (simp_all add: CURVE_P_def CURVE_N_def)

lemma CURVE_bounds: "1 < CURVE_P" "1 < CURVE_N" "CURVE_N < CURVE_P" "CURVE_P < B256" "odd CURVE_P" "odd CURVE_N"
  by (simp_all add: CURVE_P_def CURVE_N_def B256_def)

lemma smod_nonneg: "0 \<le> a \<Longrightarrow> 0 \<le> b \<Longrightarrow> a smod b = a mod (b :: int)" "0 \<le> a \<Longrightarrow> 0 \<le> b \<Longrightarrow> a sdiv b = a div (b :: int)"
  by (auto simp: signed_modulo_int_def signed_divide_int_def sgn_if minus_mult_div_eq_mod algebra_simps)

lemma modM_eq: "0 < b \<Longrightarrow> modM a b = a mod b"
proof -
  assume b: "0 < b"
  show ?thesis
  proof (cases "0 \<le> a")
    case True
    then show ?thesis using b by (simp add: modM_def Let_def smod_nonneg)
  next
    case False
    then have "a smod b = - ((- a) mod b)"
      using b by (simp add: signed_modulo_int_def signed_divide_int_def sgn_if algebra_simps minus_div_mult_eq_mod [symmetric])
    moreover have "a mod b = (if (- a) mod b = 0 then 0 else b - (- a) mod b)"
      using zmod_zminus1_eq_if [of "- a" b] by simp
    moreover have "0 \<le> (- a) mod b" using b by simp
    ultimately show ?thesis by (auto simp: modM_def Let_def)
  qed
qed

lemma modP_eq: "modP a = a mod CURVE_P"
  by (simp add: modM_eq)

lemma modN_eq: "modN a = a mod CURVE_N"
  by (simp add: modN_def modM_eq)

lemma arange_Inr [result_simps]: "arange n lo hi e = Inr m \<longleftrightarrow> lo \<le> n \<and> n < hi \<and> m = n"
  by (auto simp: arange_def)

lemma invertLoop_spec:
  assumes "invertLoop a b x y u v = (g, x')" "0 \<le> a" "0 \<le> b"
    and "(x * num) mod md = (b) mod md" "(u * num) mod md = (a) mod md"
  shows "g = gcd a b \<and> (x' * num) mod md = (g) mod md"
  using assms
proof (induction a b x y u v arbitrary: g x' rule: invertLoop.induct)
  case (1 a b x y u v)
  show ?case
  proof (cases "a = 0")
    case True
    then show ?thesis using 1 by (simp add: invertLoop.simps)
  next
    case False
    let ?q = "b sdiv a" and ?r = "b smod a"
    have q: "?r = b mod a" "?q = b div a" using 1(3,4) by (simp_all add: smod_nonneg)
    have e: "invertLoop ?r a u v (x - u * ?q) (y - v * ?q) = (g, x')"
      using 1(2) False by (simp add: invertLoop.simps [of a b] Let_def)
    have c: "((x - u * ?q) * num) mod md = (?r) mod md"
    proof -
      have "(x * num - u * num * (b div a)) mod md = (b - a * (b div a)) mod md"
        using 1(5,6) by (metis mod_diff_cong mod_mult_cong)
      then show ?thesis unfolding q by (simp add: algebra_simps minus_mult_div_eq_mod)
    qed
    have "g = gcd ?r a \<and> (x' * num) mod md = (g) mod md"
      using 1(1) [OF False refl refl refl refl e _ 1(3) 1(6) c] 1(3,4) False q by simp
    then show ?thesis using q by (metis gcd.commute gcd_red_int)
  qed
qed

lemma invert_cases:
  assumes "0 < md" "num \<noteq> 0"
  shows "if coprime num md then \<exists>i. invert num md = Inr i \<and> 0 \<le> i \<and> i < md \<and> (num * i) mod md = 1 mod md
    else invert num md = Inl ''no inverse''"
proof -
  obtain g x where g: "invertLoop (modM num md) md 0 1 1 0 = (g, x)" by fastforce
  have "0 \<le> modM num md" "0 \<le> md" "(0 * num) mod md = md mod md" "(1 * num) mod md = modM num md mod md"
    using assms by (simp_all add: modM_eq)
  from invertLoop_spec [OF g this] have s: "g = gcd (num mod md) md" "(x * num) mod md = g mod md"
    using assms by (simp_all add: modM_eq)
  have g': "g = gcd num md" using s(1) by (metis gcd.commute gcd_red_int)
  show ?thesis
  proof (cases "coprime num md")
    case True
    then have "g = 1" using g' by (simp add: coprime_iff_gcd_eq_1)
    then have i: "invert num md = Inr (x mod md)" unfolding invert_def g using assms by (simp add: modM_eq)
    have "(num * (x mod md)) mod md = 1 mod md" using s(2) \<open>g = 1\<close> by (simp add: mod_mult_right_eq mult.commute)
    then show ?thesis using True i assms(1) by simp
  next
    case False
    then have "g \<noteq> 1" using g' by (simp add: coprime_iff_gcd_eq_1)
    then show ?thesis unfolding invert_def g using False assms by simp
  qed
qed

section \<open>Lemmas: encodings\<close>

lemma nobleBytesToHex_eq: "nobleBytesToHex b = bytesToHex b"
  by (simp add: nobleBytesToHex_def bytesToHex_def byteToHex_def padh_def fun_eq_iff cong: map_cong)

lemma digitsVal_snoc2:
  "digitsVal (s @ [c, d]) = 256 * digitsVal s + 16 * (case hexVal c of Some d \<Rightarrow> d | None \<Rightarrow> 0) + (case hexVal d of Some d \<Rightarrow> d | None \<Rightarrow> 0)"
  by (simp add: digitsVal_def)

lemma digitsVal_bytes: "digitsVal (bytesToHex bs) = fromBE 256 (map unat bs)"
proof (induction bs rule: rev_induct)
  case Nil
  then show ?case by (simp add: bytesToHex_def digitsVal_def)
next
  case (snoc b bs)
  have "bytesToHex (bs @ [b]) = bytesToHex bs @ [hexDigit (unat b div 16), hexDigit (unat b mod 16)]"
    by (simp add: bytesToHex_def byteToHex_eq)
  moreover have "unat b div 16 < 16" "unat b mod 16 < 16" using unat_byte_less [of b] by simp_all
  ultimately show ?case using snoc by (simp add: digitsVal_snoc2)
qed

lemma bytesToNumBE_eq: "bytesToNumBE b = int (fromBE 256 (map unat b))"
proof (cases "b = []")
  case True
  then show ?thesis by (simp add: bytesToNumBE_def nobleBytesToHex_def digitsVal_def) (simp add: hexVal_def)
next
  case False
  then have "bytesToHex b \<noteq> []" using length_bytesToHex [of b] by (metis length_0_conv mult_eq_0_iff zero_neq_numeral)
  then show ?thesis by (simp add: bytesToNumBE_def nobleBytesToHex_eq digitsVal_bytes)
qed

text \<open>Big-endian bytes of a number, to a fixed width.\<close>

fun beBytes :: "nat \<Rightarrow> nat \<Rightarrow> bytes" where
  "beBytes 0 n = []"
| "beBytes (Suc k) n = beBytes k (n div 256) @ [of_nat n]"

lemma length_beBytes [simp]: "length (beBytes k n) = k"
  by (induction k arbitrary: n) auto

lemma unat_of_nat_byte: "unat (of_nat n :: byte) = n mod 256"
  by (simp add: of_nat_low_byte)

lemma fromBE_beBytes: "fromBE 256 (map unat (beBytes k n)) = n mod 256 ^ k"
proof (induction k arbitrary: n)
  case 0
  then show ?case by simp
next
  case (Suc k)
  then show ?case using mod_mult2_eq [of n 256 "256 ^ k"] by (simp add: unat_of_nat_byte mult.commute)
qed

lemma beBytes_fromBE: "length bs = k \<Longrightarrow> beBytes k (fromBE 256 (map unat bs)) = bs"
proof (induction bs arbitrary: k rule: rev_induct)
  case Nil
  then show ?case by simp
next
  case (snoc b bs)
  then obtain j where k: "k = Suc j" "length bs = j" by auto
  have "(fromBE 256 (map unat bs) * 256 + unat b) div 256 = fromBE 256 (map unat bs)"
    using unat_byte_less [of b] by simp
  moreover have "(of_nat (fromBE 256 (map unat bs) * 256 + unat b) :: byte) = b"
    using unat_byte_less [of b] by (simp add: byte_eq_iff unat_of_nat_byte del: of_nat_add of_nat_mult)
  ultimately show ?case using snoc.IH [OF k(2)] k(1) by (simp del: of_nat_add of_nat_mult)
qed

lemma fromBE_less: "fromBE 256 (map unat (bs :: bytes)) < 256 ^ length bs"
proof (induction bs rule: rev_induct)
  case (snoc b bs)
  then show ?case using unat_byte_less [of b] by simp
qed simp

lemma length_toString16: "n < 16 ^ k \<Longrightarrow> 0 < k \<Longrightarrow> length (toString16 n) \<le> k"
proof (induction k arbitrary: n)
  case (Suc k)
  show ?case
  proof (cases "n < 16")
    case True
    then show ?thesis by (simp add: toString16.simps)
  next
    case False
    then have "0 < k" using Suc.prems by (cases k) auto
    moreover have "n div 16 < 16 ^ k" using Suc.prems by (simp add: less_mult_imp_div_less mult.commute)
    ultimately show ?thesis using Suc.IH [of "n div 16"] False by (subst toString16.simps) simp
  qed
qed simp

lemma padStart_snoc2:
  assumes "length s + 2 \<le> n"
  shows "padStart n c (s @ [x, y]) = padStart (n - 2) c s @ [x, y]"
  using assms by (simp add: padStart_def)

lemma byteToHex_of_nat_byte: "byteToHex (of_nat m) = [hexDigit (m div 16 mod 16), hexDigit (m mod 16)]"
proof -
  have "m mod 256 div 16 = m div 16 mod 16" "m mod 256 mod 16 = m mod 16"
    using mod_mult2_eq [of m 16 16] by (simp_all add: mod_mod_cancel)
  then show ?thesis by (simp add: byteToHex_eq of_nat_low_byte)
qed

lemma padh_beBytes: "n < 256 ^ Suc k \<Longrightarrow> padh n (2 * Suc k) = bytesToHex (beBytes (Suc k) n)"
proof (induction k arbitrary: n)
  case 0
  then show ?case
  proof (cases "n < 16")
    case True
    then show ?thesis by (simp add: padh_def padStart_def toString16.simps [of n] bytesToHex_def byteToHex_of_nat_byte hexDigit_0)
  next
    case False
    moreover from 0 have "n div 16 < 16" by simp
    ultimately show ?thesis
      by (simp add: padh_def padStart_def toString16.simps [of n] toString16.simps [of "n div 16"] bytesToHex_def byteToHex_of_nat_byte)
  qed
next
  case (Suc k)
  have d: "n div 256 < 256 ^ Suc k" using Suc.prems by (simp add: less_mult_imp_div_less mult.commute)
  have "padh n (2 * Suc (Suc k)) = padh (n div 256) (2 * Suc k) @ [hexDigit (n div 16 mod 16), hexDigit (n mod 16)]"
  proof (cases "n < 256")
    case True
    then have z: "n div 256 = 0" "n div 16 < 16" by simp_all
    show ?thesis
    proof (cases "n < 16")
      case True
      then show ?thesis using z
        by (simp add: padh_def padStart_def toString16.simps [of n] toString16.simps [of 0] hexDigit_0 replicate_append_same [symmetric])
    next
      case False
      then show ?thesis using z
        by (simp add: padh_def padStart_def toString16.simps [of n] toString16.simps [of "n div 16"] toString16.simps [of 0] hexDigit_0
            replicate_append_same [symmetric])
    qed
  next
    case False
    have "toString16 n = toString16 (n div 256) @ [hexDigit (n div 16 mod 16), hexDigit (n mod 16)]"
    proof -
      have "toString16 n = toString16 (n div 16) @ [hexDigit (n mod 16)]" using False by (subst toString16.simps) simp
      moreover have "toString16 (n div 16) = toString16 (n div 16 div 16) @ [hexDigit (n div 16 mod 16)]"
      proof -
        have "\<not> n div 16 < 16" using False by simp
        then show ?thesis by (subst toString16.simps) simp
      qed
      ultimately show ?thesis by (simp add: div_mult2_eq [symmetric])
    qed
    moreover have "length (toString16 (n div 256)) \<le> 2 * Suc k"
      using d by (intro length_toString16) (simp_all add: power_mult [symmetric] flip: power_Suc, simp add: power_mult)
    ultimately show ?thesis by (simp add: padh_def padStart_snoc2)
  qed
  then show ?case using Suc.IH [OF d] by (simp add: bytesToHex_def byteToHex_of_nat_byte)
qed

lemma charVal_hexDigit: "d < 16 \<Longrightarrow> charVal (of_char (hexDigit d)) = Some d"
  by (simp add: charVal_def hexDigit_def)

lemma nobleHexPairs_bytesToHex: "nobleHexPairs (bytesToHex bs) = Inr bs"
proof (induction bs)
  case Nil
  then show ?case by (simp add: bytesToHex_def)
next
  case (Cons b bs)
  have "unat b div 16 < 16" "unat b mod 16 < 16" using unat_byte_less [of b] by simp_all
  moreover have "(of_nat (unat b div 16 * 16 + unat b mod 16) :: byte) = b" by (simp only: div_mult_mod_eq) simp
  ultimately show ?case using Cons by (simp add: bytesToHex_Cons byteToHex_eq charVal_hexDigit del: of_nat_add of_nat_mult)
qed

lemma numTo32b_eq: "0 \<le> n \<Longrightarrow> n < B256 \<Longrightarrow> numTo32b n = Inr (beBytes 32 (nat n))"
proof -
  assume n: "0 \<le> n" "n < B256"
  then have "nat n < 256 ^ Suc 31" by (simp add: B256_def nat_less_iff)
  moreover have k: "Suc 31 = 32" "2 * 32 = (64 :: nat)" by simp_all
  ultimately have "padh (nat n) 64 = bytesToHex (beBytes 32 (nat n))" using padh_beBytes [of "nat n" 31] unfolding k by blast
  then show ?thesis using n by (simp add: numTo32b_def arange_def nobleHexToBytes_def nobleHexPairs_bytesToHex)
qed

lemma numTo32b_Inr: "numTo32b n = Inr bs \<longleftrightarrow> 0 \<le> n \<and> n < B256 \<and> bs = beBytes 32 (nat n)"
proof (cases "0 \<le> n \<and> n < B256")
  case True
  then show ?thesis by (auto simp: numTo32b_eq)
next
  case False
  then show ?thesis by (auto simp: numTo32b_def arange_def)
qed

lemma bytesToNumBE_bounds: "0 \<le> bytesToNumBE bs" "length bs = 32 \<Longrightarrow> bytesToNumBE bs < B256"
proof -
  show "0 \<le> bytesToNumBE bs" by (simp add: bytesToNumBE_eq)
  assume "length bs = 32"
  then have "fromBE 256 (map unat bs) < 256 ^ 32" using fromBE_less [of bs] by simp
  then have "int (fromBE 256 (map unat bs)) < int (256 ^ 32)" by (simp only: of_nat_less_iff)
  then show "bytesToNumBE bs < B256" unfolding bytesToNumBE_eq B256_def by simp
qed

lemma numTo32b_bytesToNumBE: "length bs = 32 \<Longrightarrow> numTo32b (bytesToNumBE bs) = Inr bs"
  unfolding numTo32b_eq [OF bytesToNumBE_bounds] unfolding bytesToNumBE_eq nat_int by (simp add: beBytes_fromBE)

lemma bytesToNumBE_numTo32b:
  assumes "numTo32b n = Inr bs"
  shows "bytesToNumBE bs = n"
proof -
  have n: "0 \<le> n" "n < B256" "bs = beBytes 32 (nat n)" using assms by (auto simp: numTo32b_Inr)
  then have "nat n < 256 ^ 32" by (simp add: B256_def nat_less_iff)
  then show ?thesis using n(1) unfolding n(3) bytesToNumBE_eq fromBE_beBytes by simp
qed

section \<open>Lemmas: points\<close>

lemma isEvenB_eq: "isEvenB y \<longleftrightarrow> even y"
  by (simp add: isEvenB_def and_one_eq even_iff_mod_2_eq_zero)

lemma powMod_range:
  assumes "0 \<le> r" "r < CURVE_P" "0 \<le> num"
  shows "0 \<le> powMod r num e \<and> powMod r num e < CURVE_P"
  using assms
proof (induction r num e rule: powMod.induct)
  case (1 r num e)
  have "0 \<le> x smod CURVE_P \<and> x smod CURVE_P < CURVE_P" if "0 \<le> x" for x
    using that CURVE_pos(1) by (simp add: smod_nonneg order_less_imp_le)
  then show ?case using 1 by (subst (1 2) powMod.simps) (simp add: order_less_imp_le)
qed

lemma lift_x_Inr:
  assumes "lift_x x = Inr y"
  shows "1 \<le> x \<and> x < CURVE_P \<and> 0 \<le> y \<and> y < CURVE_P \<and> y * y mod CURVE_P = koblitz x"
proof -
  let ?y = "powMod 1 (koblitz x) ((CURVE_P + 1) sdiv 4)"
  have y: "1 \<le> x" "x < CURVE_P" "y = ?y" "modP (y * y) = koblitz x"
    using assms by (auto simp: lift_x_def afield_def result_simps Let_def split: if_splits)
  have "0 \<le> koblitz x" by (simp add: koblitz_def modP_eq)
  then show ?thesis using y powMod_range [of 1 "koblitz x"] CURVE_bounds(1) by (simp add: modP_eq)
qed

lemma newPoint_Inr [result_simps]:
  "newPoint x y z = Inr p \<longleftrightarrow> 0 \<le> x \<and> x < CURVE_P \<and> 1 \<le> y \<and> y < CURVE_P \<and> 0 \<le> z \<and> z < CURVE_P \<and> p = \<lparr>px = x, py = y, pz = z\<rparr>"
  by (auto simp: newPoint_def afield0_def afield_def result_simps)

lemma toAffine_one [simp]: "toAffine \<lparr>px = x, py = y, pz = 1\<rparr> = Inr (x, y)"
  using CURVE_bounds(1) by (simp add: toAffine_def Point_equals_def Point_ZERO_def modP_eq)

lemma assertValidity_one:
  "assertValidity \<lparr>px = x, py = y, pz = 1\<rparr> = Inr p \<longleftrightarrow>
    p = \<lparr>px = x, py = y, pz = 1\<rparr> \<and> 1 \<le> x \<and> x < CURVE_P \<and> 1 \<le> y \<and> y < CURVE_P \<and> modP (y * y) = koblitz x"
  by (auto simp: assertValidity_def afield_def result_simps)

lemma toBytes_one:
  assumes "1 \<le> x" "x < CURVE_P" "1 \<le> y" "y < CURVE_P" "modP (y * y) = koblitz x"
  shows "Point_toBytes \<lparr>px = x, py = y, pz = 1\<rparr> True = Inr (getPrefix y @ beBytes 32 (nat x))"
    "Point_toBytes \<lparr>px = x, py = y, pz = 1\<rparr> False = Inr (0x04 # beBytes 32 (nat x) @ beBytes 32 (nat y))"
proof -
  have v: "assertValidity \<lparr>px = x, py = y, pz = 1\<rparr> = Inr \<lparr>px = x, py = y, pz = 1\<rparr>" using assms by (simp add: assertValidity_one)
  have b: "numTo32b x = Inr (beBytes 32 (nat x))" "numTo32b y = Inr (beBytes 32 (nat y))"
    using assms CURVE_bounds(4) by (simp_all add: numTo32b_eq)
  show "Point_toBytes \<lparr>px = x, py = y, pz = 1\<rparr> True = Inr (getPrefix y @ beBytes 32 (nat x))"
    "Point_toBytes \<lparr>px = x, py = y, pz = 1\<rparr> False = Inr (0x04 # beBytes 32 (nat x) @ beBytes 32 (nat y))"
    by (simp_all add: Point_toBytes_def v b concatBytes_def)
qed

lemma beBytes_num: "length bs = 32 \<Longrightarrow> beBytes 32 (nat (bytesToNumBE bs)) = bs"
  by (simp add: bytesToNumBE_eq beBytes_fromBE)

lemma modP_negate_parity:
  assumes "0 \<le> y" "y < CURVE_P" "1 \<le> modP (- y)"
  shows "even (modP (- y)) \<longleftrightarrow> odd y"
proof -
  have "y \<noteq> 0" using assms(3) by (auto simp: modP_eq)
  then have "modP (- y) = CURVE_P - y" using assms zmod_zminus1_eq_if [of y CURVE_P] by (simp add: modP_eq)
  then show ?thesis using CURVE_bounds(5) by simp
qed

text \<open>What \<^verbatim>\<open>Point.fromBytes\<close> accepts.\<close>

lemma fromBytes_cases:
  assumes "Point_fromBytes bs = Inr p"
  obtains (compressed) h t x y where "bs = h # t" "length t = 32" "h = 0x02 \<or> h = 0x03" "x = bytesToNumBE t"
      "even y \<longleftrightarrow> h = 0x02" "assertValidity \<lparr>px = x, py = y, pz = 1\<rparr> = Inr p"
    | (uncompressed) t u x y where "bs = 0x04 # t @ u" "length t = 32" "length u = 32" "x = bytesToNumBE t" "y = bytesToNumBE u"
      "assertValidity \<lparr>px = x, py = y, pz = 1\<rparr> = Inr p"
proof -
  consider "length bs = 33" "bs ! 0 \<in> {0x02, 0x03}" | "length bs = 65" "bs ! 0 = 0x04"
    using assms by (auto simp: Point_fromBytes_def Let_def split: if_splits)
  then show thesis
  proof cases
    case 1
    then obtain h t where bs: "bs = h # t" "length t = 32" by (cases bs) auto
    let ?x = "bytesToNumBE t"
    have x: "sliceBytesNumBE t 0 32 = ?x" using bs(2) by (simp add: sliceBytesNumBE_def slice_def)
    obtain y0 where l: "lift_x ?x = Inr y0"
      and v: "bindR (newPoint ?x (if isEvenB (uint h) \<noteq> isEvenB y0 then modP (- y0) else y0) 1) assertValidity = Inr p"
      using assms 1 bs by (cases "lift_x ?x") (auto simp: Point_fromBytes_def x Let_def mapR_def bindR_assoc)
    let ?y = "if isEvenB (uint h) \<noteq> isEvenB y0 then modP (- y0) else y0"
    have n: "1 \<le> ?y" "assertValidity \<lparr>px = ?x, py = ?y, pz = 1\<rparr> = Inr p" using v by (simp_all add: result_simps)
    have h: "h = 0x02 \<or> h = 0x03" using 1 bs by auto
    then have "even (uint h) \<longleftrightarrow> h = 0x02" by auto
    moreover have "even ?y \<longleftrightarrow> even (uint h)"
      using lift_x_Inr [OF l] n(1) modP_negate_parity [of y0] by (auto simp: isEvenB_eq split: if_splits)
    ultimately show thesis using compressed [OF bs h refl _ n(2)] by simp
  next
    case 2
    then obtain t where bs: "bs = 0x04 # t" "length t = 64" by (cases bs) auto
    have "sliceBytesNumBE t 0 32 = bytesToNumBE (take 32 t)" "sliceBytesNumBE t 32 64 = bytesToNumBE (drop 32 t)"
      using bs(2) by (simp_all add: sliceBytesNumBE_def slice_def)
    then have "assertValidity \<lparr>px = bytesToNumBE (take 32 t), py = bytesToNumBE (drop 32 t), pz = 1\<rparr> = Inr p"
      using assms 2 bs by (auto simp: Point_fromBytes_def Let_def result_simps)
    then show thesis using uncompressed [of "take 32 t" "drop 32 t"] bs by simp
  qed
qed

lemma fromBytes_toBytes:
  assumes "Point_fromBytes bs = Inr p"
  shows "Point_toBytes p (length bs = 33) = Inr bs \<and> pz p = 1 \<and> 1 \<le> px p \<and> px p < CURVE_P \<and> 1 \<le> py p \<and> py p < CURVE_P
    \<and> py p ^ 2 mod CURVE_P = (px p ^ 3 + 7) mod CURVE_P"
proof -
  have k: "modP (y * y) = koblitz x \<Longrightarrow> y ^ 2 mod CURVE_P = (x ^ 3 + 7) mod CURVE_P" for x y
    by (simp add: koblitz_def modP_eq CURVE_b_def power2_eq_square power3_eq_cube) (metis mod_add_left_eq mod_mult_left_eq)
  from assms show ?thesis
  proof (cases rule: fromBytes_cases)
    case (compressed h t x y)
    then show ?thesis using toBytes_one(1) [of x y] k [of y x]
      by (auto simp: assertValidity_one getPrefix_def isEvenB_eq beBytes_num)
  next
    case (uncompressed t u x y)
    then show ?thesis using toBytes_one(2) [of x y] k [of y x] by (auto simp: assertValidity_one beBytes_num)
  qed
qed

section \<open>Lemmas: recoding, nonces and signatures\<close>

fun wnafDigits :: "nat \<Rightarrow> int \<Rightarrow> int list \<times> int" where
  "wnafDigits 0 n = ([], n)"
| "wnafDigits (Suc k) n = (let (d, n') = wnafDigit n; (ds, r) = wnafDigits k n' in (d # ds, r))"

definition wnafValue :: "int list \<Rightarrow> int" where
  "wnafValue ds = foldr (\<lambda>d acc. d + 256 * acc) ds 0"

lemma wnafDigit_spec:
  assumes "wnafDigit n = (d, n')"
  shows "n = d + 256 * n' \<and> - 127 \<le> d \<and> d \<le> 128"
proof -
  have m: "n AND 255 = n mod 256" using take_bit_eq_mask [of 8 n] by (simp add: take_bit_eq_mod mask_eq_exp_minus_1)
  have "n = n mod 256 + 256 * (n div 256)" "0 \<le> n mod 256" "n mod 256 < 256" by simp_all
  then show ?thesis using assms
    by (auto simp: wnafDigit_def Let_def m drop_bit_eq_div pwindowSize_def split: if_splits)
qed

lemma wnafDigits_spec:
  "wnafDigits k n = (ds, r) \<Longrightarrow> length ds = k \<and> n = wnafValue ds + 256 ^ k * r \<and> (\<forall>d\<in>set ds. - 127 \<le> d \<and> d \<le> 128)"
proof (induction k arbitrary: n ds r)
  case 0
  then show ?case by (simp add: wnafValue_def)
next
  case (Suc k)
  obtain d n' ds' where s: "wnafDigit n = (d, n')" "wnafDigits k n' = (ds', r)" "ds = d # ds'"
    using Suc.prems by (auto simp: split: prod.splits)
  have "n' = wnafValue ds' + 256 ^ k * r" using Suc.IH [OF s(2)] by simp
  then have "n = wnafValue ds + 256 ^ Suc k * r" using wnafDigit_spec [OF s(1)] s(3) by (simp add: wnafValue_def algebra_simps)
  then show ?case using Suc.IH [OF s(2)] wnafDigit_spec [OF s(1)] s(3) by simp
qed

lemma wnafDigit_le: "wnafDigit n = (d, n') \<Longrightarrow> 0 \<le> n \<Longrightarrow> n \<le> 256 ^ Suc k \<Longrightarrow> 0 \<le> n' \<and> n' \<le> 256 ^ k"
  using wnafDigit_spec [of n d n'] by auto

lemma wnafDigits_rest: "wnafDigits k n = (ds, r) \<Longrightarrow> 0 \<le> n \<Longrightarrow> n \<le> 256 ^ k \<Longrightarrow> 0 \<le> r \<and> r \<le> 1"
proof (induction k arbitrary: n ds)
  case (Suc k)
  then show ?case using wnafDigit_le by (fastforce split: prod.splits)
qed simp

lemma wnafDigits_Suc: "wnafDigits (Suc k) n = (let (ds, r) = wnafDigits k n; (d, r') = wnafDigit r in (ds @ [d], r'))"
proof (induction k arbitrary: n)
  case 0
  then show ?case by (simp split: prod.splits)
next
  case (Suc k)
  obtain d n' where d: "wnafDigit n = (d, n')" by fastforce
  obtain ds r where ds: "wnafDigits k n' = (ds, r)" by fastforce
  obtain e r' where e: "wnafDigit r = (e, r')" by fastforce
  have i: "wnafDigits (Suc k) n' = (ds @ [e], r')" using Suc.IH [of n'] ds e by simp
  have "wnafDigits (Suc (Suc k)) n = (d # ds @ [e], r')" by (subst wnafDigits.simps(2)) (simp only: d i Let_def split_conv)
  moreover have "wnafDigits (Suc k) n = (d # ds, r)" using d ds by simp
  ultimately show ?case using e by (simp only: Let_def split_conv append_Cons)
qed

lemma wnafDigits_full:
  assumes "0 \<le> n" "n < 2 ^ 256"
  shows "snd (wnafDigits 33 n) = 0"
proof -
  obtain ds r where ds: "wnafDigits 32 n = (ds, r)" by fastforce
  have "n \<le> 256 ^ 32" using assms by simp
  then have r: "0 \<le> r \<and> r \<le> 1" using wnafDigits_rest [OF ds] assms by simp
  then have "r = 0 \<or> r = 1" by linarith
  then have "wnafDigit r = (r, 0)" by (auto simp: wnafDigit_def pwindowSize_def)
  then show ?thesis using wnafDigits_Suc [of 32 n] ds by simp
qed

lemma pointAt_ok: "0 \<le> i \<Longrightarrow> i < int (length tbl) \<Longrightarrow> pointAt tbl i = Inr (tbl ! nat i)"
  by (simp add: pointAt_def)

lemma not_TypeError:
  "newPoint x y z \<noteq> Inl ''TypeError''" "Point_add p q \<noteq> Inl ''TypeError''" "ctneg c p \<noteq> Inl ''TypeError''"
proof -
  show n: "newPoint x y z \<noteq> Inl ''TypeError''" for x y z
    by (simp add: newPoint_def afield0_def afield_def arange_def badNumber_def bindR_def split: sum.splits)
  show "Point_add p q \<noteq> Inl ''TypeError''" unfolding Point_add_def Let_def by (rule n)
  show "ctneg c p \<noteq> Inl ''TypeError''" using n by (auto simp: ctneg_def Point_negate_def bindR_def split: sum.splits)
qed

lemma bindR_Inl_eq: "bindR m f = Inl e \<longleftrightarrow> m = Inl e \<or> (\<exists>x. m = Inr x \<and> f x = Inl e)"
  by (cases m) auto

lemma wNAFLoop_in_bounds:
  assumes "\<forall>w\<in>set ws. w < pwindows" "length tbl = pwindows * pwindowSize"
  shows "wNAFLoop tbl ws n p f \<noteq> Inl ''TypeError''"
  using assms(1)
proof (induction ws arbitrary: n p f)
  case (Cons w ws)
  obtain d n' where d: "wnafDigit n = (d, n')" by fastforce
  have "Suc w * pwindowSize \<le> pwindows * pwindowSize" using Cons.prems by (intro mult_le_mono1) simp
  then have w: "int (w * pwindowSize) + 128 \<le> int (length tbl)" unfolding assms(2) by (simp add: pwindowSize_def)
  have "pointAt tbl (int (w * pwindowSize)) \<noteq> Inl ''TypeError''" using w by (simp add: pointAt_ok)
  moreover have "pointAt tbl (int (w * pwindowSize) + \<bar>d\<bar> - 1) \<noteq> Inl ''TypeError''" if "d \<noteq> 0"
  proof -
    have "\<bar>d\<bar> \<le> 128" using wnafDigit_spec [OF d] by auto
    then have "0 \<le> int (w * pwindowSize) + \<bar>d\<bar> - 1" "int (w * pwindowSize) + \<bar>d\<bar> - 1 < int (length tbl)" using w that by linarith+
    then show ?thesis by (simp add: pointAt_ok del: of_nat_mult)
  qed
  ultimately show ?case using Cons not_TypeError by (auto simp: d bindR_Inl_eq Let_def split: if_splits)
qed simp

text \<open>RFC 6979, section 3.2, with HMAC over concatenated messages.\<close>

definition rfcInit :: "bytes \<Rightarrow> bytes \<times> bytes" where
  "rfcInit x =
    (let V0 = replicate 32 1; K1 = hmacSha256 (replicate 32 0) [V0 @ [0x00] @ x]; V1 = hmacSha256 K1 [V0];
         K2 = hmacSha256 K1 [V1 @ [0x01] @ x] in (K2, hmacSha256 K2 [V1]))"

definition rfcT :: "bytes \<times> bytes \<Rightarrow> bytes" where
  "rfcT s = (case s of (k, v) \<Rightarrow> hmacSha256 k [v])"

definition rfcNext :: "bytes \<times> bytes \<Rightarrow> bytes \<times> bytes" where
  "rfcNext s = (let K' = hmacSha256 (fst s) [rfcT s @ [0x00]] in (K', hmacSha256 K' [rfcT s]))"

definition rfcNonce :: "bytes \<Rightarrow> nat \<Rightarrow> bytes" where
  "rfcNonce x i = rfcT ((rfcNext ^^ i) (rfcInit x))"

text \<open>The first of the nonces numbered below \<open>n\<close> that the test does not turn down decides.\<close>

definition firstNonce :: "nat \<Rightarrow> (nat \<Rightarrow> bytes) \<Rightarrow> (bytes \<Rightarrow> 'a option result) \<Rightarrow> 'a result" where
  "firstNonce n t test =
    (case List.find (\<lambda>i. test (t i) \<noteq> Inr None) [0..<n] of
       None \<Rightarrow> Inl ''drbg: tried 1000 values''
     | Some i \<Rightarrow> mapR the (test (t i)))"

lemma hmacSha256_concat: "hmacSha256 k ps = hmacSha256 k [concat ps]"
  by (simp add: hmacSha256_def concatBytes_def Let_def)

lemma hmac_parts:
  "hmacSha256 k [v, [b], s] = hmacSha256 k [v @ b # s]" "hmacSha256 k [v, [b], []] = hmacSha256 k [v @ [b]]"
  by (simp_all add: hmacSha256_concat [of k "[v, [b], s]"] hmacSha256_concat [of k "[v, [b], []]"])

lemma reseed_init: "seed \<noteq> [] \<Longrightarrow> reseed (Some hmacSha256) (replicate 32 0) (replicate 32 1) seed = Inr (rfcInit seed)"
  by (simp add: reseed_def drbgH_def rfcInit_def Let_def hmac_parts)

lemma reseed_next: "reseed (Some hmacSha256) (fst s) (rfcT s) [] = Inr (rfcNext s)"
  by (simp add: reseed_def drbgH_def rfcNext_def Let_def hmac_parts)

lemma find_upt_Suc:
  "List.find q [i..<n] = (if n \<le> i then None else if q i then Some i else List.find q [Suc i..<n])"
  by (simp add: upt_conv_Cons)

lemma drbgLoop_first:
  assumes "i \<le> drbgMax"
  shows "drbgLoop (Some hmacSha256) test i (fst ((rfcNext ^^ i) s)) (snd ((rfcNext ^^ i) s))
    = (case List.find (\<lambda>j. test (rfcT ((rfcNext ^^ j) s)) \<noteq> Inr None) [i..<drbgMax] of
         None \<Rightarrow> Inl ''drbg: tried 1000 values'' | Some j \<Rightarrow> mapR the (test (rfcT ((rfcNext ^^ j) s))))"
  using assms
proof (induction "drbgMax - i" arbitrary: i)
  case 0
  then show ?case by (simp add: drbgLoop.simps find_upt_Suc [of _ i])
next
  case (Suc m)
  let ?st = "(rfcNext ^^ i) s"
  have t: "drbgH (Some hmacSha256) (fst ?st) (snd ?st) [] = Inr (rfcT ?st)" by (simp add: drbgH_def rfcT_def split: prod.splits)
  have i: "\<not> drbgMax \<le> i" using Suc(2) by simp
  show ?case
  proof (cases "test (rfcT ?st) = Inr None")
    case True
    have "drbgLoop (Some hmacSha256) test (Suc i) (fst ((rfcNext ^^ Suc i) s)) (snd ((rfcNext ^^ Suc i) s))
      = (case List.find (\<lambda>j. test (rfcT ((rfcNext ^^ j) s)) \<noteq> Inr None) [Suc i..<drbgMax] of
         None \<Rightarrow> Inl ''drbg: tried 1000 values'' | Some j \<Rightarrow> mapR the (test (rfcT ((rfcNext ^^ j) s))))"
      using Suc.hyps(2) i by (intro Suc.hyps(1)) auto
    then show ?thesis using i True t
      by (subst drbgLoop.simps) (simp add: reseed_next find_upt_Suc [of _ i])
  next
    case False
    then show ?thesis using i t
      by (subst drbgLoop.simps) (auto simp: find_upt_Suc [of _ i] bindR_def split: sum.splits option.splits)
  qed
qed

lemma hmacDrbg_first: "seed \<noteq> [] \<Longrightarrow> hmacDrbg (Some hmacSha256) seed test = firstNonce drbgMax (rfcNonce seed) test"
  using drbgLoop_first [of 0 test "rfcInit seed"]
  by (simp add: hmacDrbg_def reseed_init firstNonce_def rfcNonce_def case_prod_beta cong: option.case_cong)

lemma prepSig_Inr:
  assumes "prepSig rnd msgh priv opts = Inr (seed, test)"
  shows "\<exists>m d e r. numTo32b d = Inr e \<and> seed = e @ r \<and> test = k2sig m d (case sgn_lowS opts of None \<Rightarrow> True | Some b \<Rightarrow> b)"
  using assms unfolding prepSig_def Let_def bindR_eq_Inr if_eq_Inr by (auto simp: concatBytes_def)

lemma prepSig_seed: "prepSig rnd msgh priv opts = Inr (seed, test) \<Longrightarrow> seed \<noteq> []"
proof -
  assume "prepSig rnd msgh priv opts = Inr (seed, test)"
  then obtain d e r where "numTo32b d = Inr e" "seed = e @ r" using prepSig_Inr by blast
  then show ?thesis using length_beBytes [of 32 "nat d"] by (metis append_is_Nil_conv list.size(3) numTo32b_Inr zero_neq_numeral)
qed

definition goodSignature :: "bool \<Rightarrow> signature \<Rightarrow> bool" where
  "goodSignature lowS sg \<longleftrightarrow> 1 \<le> sig_r sg \<and> sig_r sg < CURVE_N \<and> 1 \<le> sig_s sg \<and> sig_s sg < CURVE_N
    \<and> (\<not> lowS \<or> 2 * sig_s sg < CURVE_N) \<and> (\<exists>v<4. sig_recovery sg = Some v)"

lemma newSignature_Inr [result_simps]:
  "newSignature r s v = Inr sg \<longleftrightarrow> 1 \<le> r \<and> r < CURVE_N \<and> 1 \<le> s \<and> s < CURVE_N \<and> sg = \<lparr>sig_r = r, sig_s = s, sig_recovery = v\<rparr>"
  by (auto simp: newSignature_def agroup_def result_simps)

lemma highS_eq: "highS s \<longleftrightarrow> CURVE_N < 2 * s"
proof -
  have "CURVE_N = 2 * (CURVE_N div 2) + 1" using CURVE_bounds(6) by presburger
  then show ?thesis by (auto simp: highS_def drop_bit_eq_div)
qed

lemma or_xor_less4: "v \<in> {0, 2 :: nat} \<Longrightarrow> b \<in> {0, 1} \<Longrightarrow> v OR b < 4 \<and> (v OR b) XOR 1 < 4"
  by auto

lemma if_None_eq: "(if c then Inr None else m) = Inr (Some x) \<longleftrightarrow> \<not> c \<and> m = Inr (Some x)"
  by simp

lemma k2sig_Some:
  assumes "k2sig m d lowS kb = Inr (Some sg)"
  shows "\<exists>r s v b. s \<noteq> 0 \<and> 0 \<le> s \<and> s < CURVE_N \<and> v \<in> {0, 2 :: nat} \<and> b \<in> {0, 1 :: nat}
    \<and> newSignature r (if lowS \<and> highS s then modN (- s) else s) (Some (if lowS \<and> highS s then (v OR b) XOR 1 else v OR b)) = Inr sg"
proof -
  obtain q ik where q: "modN (ik * modN (m + modN (d * modN (fst q)))) \<noteq> 0"
    "newSignature (modN (fst q)) (if lowS \<and> highS (modN (ik * modN (m + modN (d * modN (fst q)))))
        then modN (- modN (ik * modN (m + modN (d * modN (fst q))))) else modN (ik * modN (m + modN (d * modN (fst q)))))
      (Some (if lowS \<and> highS (modN (ik * modN (m + modN (d * modN (fst q)))))
        then ((if fst q = modN (fst q) then 0 else 2) OR nat (snd q AND 1)) XOR 1
        else (if fst q = modN (fst q) then 0 else 2) OR nat (snd q AND 1))) = Inr sg"
    using assms unfolding k2sig_def Let_def bindR_eq_Inr mapR_eq_Inr if_None_eq case_prod_beta option.inject by blast
  have "nat (snd q AND 1) \<in> {0, 1}" unfolding and_one_eq by (cases "even (snd q)") (simp_all add: odd_iff_mod_2_eq_one)
  then show ?thesis
    using q by (intro exI [of _ "modN (fst q)"] exI [of _ "modN (ik * modN (m + modN (d * modN (fst q))))"]
        exI [of _ "if fst q = modN (fst q) then 0 else 2"] exI [of _ "nat (snd q AND 1)"]) (simp add: modN_eq)
qed

lemma k2sig_good:
  assumes "k2sig m d lowS kb = Inr (Some sg)"
  shows "goodSignature lowS sg"
proof -
  obtain r s v b where s: "s \<noteq> 0" "0 \<le> s" "s < CURVE_N" and v: "v \<in> {0, 2 :: nat}" "b \<in> {0, 1}"
    and sg: "newSignature r (if lowS \<and> highS s then modN (- s) else s) (Some (if lowS \<and> highS s then (v OR b) XOR 1 else v OR b)) = Inr sg"
    using k2sig_Some [OF assms] by blast
  have n: "modN (- s) = CURVE_N - s" using s zmod_zminus1_eq_if [of s CURVE_N] by (simp add: modN_eq)
  have odd: "2 * s \<noteq> CURVE_N" using CURVE_bounds(6) by (metis dvd_triv_left)
  show ?thesis
  proof (cases "lowS \<and> highS s")
    case True
    then show ?thesis using sg s n or_xor_less4 [OF v] by (simp add: goodSignature_def result_simps highS_eq)
  next
    case False
    then have "\<not> lowS \<or> 2 * s < CURVE_N" using odd by (auto simp: highS_eq)
    then show ?thesis using False sg s or_xor_less4 [OF v] by (auto simp: goodSignature_def result_simps)
  qed
qed

lemma drbgLoop_Inr: "drbgLoop hook test i k v = Inr x \<Longrightarrow> \<exists>b. test b = Inr (Some x)"
proof (induction hook test i k v rule: drbgLoop.induct)
  case (1 hook test i k v)
  obtain v' o' where r: "\<not> drbgMax \<le> i" "drbgH hook k v [] = Inr v'" "test v' = Inr o'"
    "(case o' of None \<Rightarrow> bindR (reseed hook k v' []) (\<lambda>kv. drbgLoop hook test (Suc i) (fst kv) (snd kv)) | Some x \<Rightarrow> Inr x) = Inr x"
    using 1(2) unfolding drbgLoop.simps [of hook test i] bindR_eq_Inr if_eq_Inr by blast
  show ?case
  proof (cases o')
    case None
    then obtain kv where "reseed hook k v' [] = Inr kv" "drbgLoop hook test (Suc i) (fst kv) (snd kv) = Inr x"
      using r(4) by (auto simp: bindR_eq_Inr)
    then show ?thesis using 1(1) [OF r(1,2,3) None] by blast
  next
    case (Some y)
    then show ?thesis using r by auto
  qed
qed

lemma nobleSign_good:
  assumes "nobleSign hook rnd msgh priv opts = Inr sg"
  shows "goodSignature (case sgn_lowS opts of None \<Rightarrow> True | Some b \<Rightarrow> b) sg"
proof -
  obtain seed test where p: "prepSig rnd msgh priv opts = Inr (seed, test)" and h: "hmacDrbg hook seed test = Inr sg"
    using assms by (auto simp: nobleSign_def bindR_eq_Inr)
  then obtain b where "test b = Inr (Some sg)" using drbgLoop_Inr by (fastforce simp: hmacDrbg_def bindR_eq_Inr)
  then show ?thesis using prepSig_Inr [OF p] k2sig_good by blast
qed

text \<open>The addition formulas, with the intermediate reductions gone.\<close>

lemma Point_add_eq:
  "Point_add p q =
    (let X1 = px p; Y1 = py p; Z1 = pz p; X2 = px q; Y2 = py q; Z2 = pz q;
         u = X1 * Y2 + X2 * Y1; v = Y1 * Z2 + Y2 * Z1; w = X1 * Z2 + X2 * Z1; m = Y1 * Y2 - 21 * (Z1 * Z2); n = Y1 * Y2 + 21 * (Z1 * Z2)
     in newPoint ((u * m - 21 * v * w) mod CURVE_P) ((m * n + 63 * (X1 * X2) * w) mod CURVE_P) ((v * n + 3 * (X1 * X2) * u) mod CURVE_P))"
proof -
  obtain X1 Y1 Z1 X2 Y2 Z2 where p: "p = \<lparr>px = X1, py = Y1, pz = Z1\<rparr>" "q = \<lparr>px = X2, py = Y2, pz = Z2\<rparr>"
    by (metis (full_types) point.cases_scheme old.unit.exhaust point.cases)
  show ?thesis
    unfolding p Point_add_def Let_def point.simps modP_eq CURVE_b_def
    by (simp only: mod_simps) (simp add: algebra_simps)
qed

section \<open>Properties\<close>

text \<open>C35: Modular inversion. For a positive modulus and a non-zero number the extended Euclidean loop ends,
  returns the inverse in the modulus' range when the two are coprime, and throws when not.\<close>

theorem invert_correct:
  assumes "0 < md" and "num \<noteq> 0"
  shows "if coprime num md then \<exists>i. invert num md = Inr i \<and> 0 \<le> i \<and> i < md \<and> (num * i) mod md = 1 mod md
    else invert num md = Inl ''no inverse''"
  using invert_cases [OF assms] .

theorem invert_correct_witness:
  "(\<exists>i. invert (- 3) 7 = Inr i \<and> (- 3 * i) mod 7 = 1) \<and> invert 4 6 = Inl ''no inverse''"
proof -
  have "coprime (- 3) (7 :: int)" "\<not> coprime 4 (6 :: int)" by code_simp+
  then show ?thesis using invert_correct [of 7 "- 3"] invert_correct [of 6 4] by auto
qed

text \<open>C33: Public keys are canonical. Every byte string the point decoder accepts names a point of the curve
  whose coordinates are non-zero field elements, and encoding that point in the same form
  (compressed for 33 bytes, uncompressed for 65) gives back exactly these bytes.\<close>

theorem pubkey_roundtrip:
  assumes "Point_fromBytes bs = Inr p"
  shows "Point_toBytes p (length bs = 33) = Inr bs \<and> pz p = 1 \<and> 1 \<le> px p \<and> px p < CURVE_P \<and> 1 \<le> py p \<and> py p < CURVE_P
    \<and> py p ^ 2 mod CURVE_P = (px p ^ 3 + 7) mod CURVE_P"
  using fromBytes_toBytes [OF assms] .

lemma mod_by_quotient: "(a :: int) = q * m + r \<Longrightarrow> 0 \<le> r \<Longrightarrow> r < m \<Longrightarrow> a mod m = r"
  by simp

lemma base_on_curve: "modP (CURVE_Gy * CURVE_Gy) = koblitz CURVE_Gx"
proof -
  let ?r = "0x8550e7d238fcf3086ba9adcf0fb52a9de3652194d06cb5bb38d50229b854fc49" and ?s = "0x4866d6a5ab41ab2c6bcc57ccd3735da5f16f80a548e5e20a44e4e9b8118c26f2"
  have "CURVE_Gx * CURVE_Gx mod CURVE_P = ?r"
    by (rule mod_by_quotient [where q = "0x39e58a8055b6fb264b75ec8c646509784204ac15a8c24e05babc9729e58090b9"]) (simp_all add: CURVE_Gx_def CURVE_P_def)
  moreover have "(?r * CURVE_Gx + CURVE_b) mod CURVE_P = ?s"
    by (rule mod_by_quotient [where q = "0x3f6664fec7445b86bad8c9a43effc5dc7384557bb62eadd8e2177ae0a2039723"]) (simp_all add: CURVE_Gx_def CURVE_P_def CURVE_b_def)
  moreover have "CURVE_Gy * CURVE_Gy mod CURVE_P = ?s"
    by (rule mod_by_quotient [where q = "0x1461286abe28c5f1df2d7d4bca391b5070f6ec678fe75b56871bf154987e3e12"]) (simp_all add: CURVE_Gy_def CURVE_P_def)
  ultimately show ?thesis unfolding koblitz_def modP_eq by (simp only:)
qed

lemma base_range: "1 \<le> CURVE_Gx" "CURVE_Gx < CURVE_P" "1 \<le> CURVE_Gy" "CURVE_Gy < CURVE_P"
  by (simp_all add: CURVE_Gx_def CURVE_Gy_def CURVE_P_def)

text \<open>The uncompressed encoding of the generator.\<close>

definition baseBytes :: bytes where
  "baseBytes = 0x04 # beBytes 32 (nat CURVE_Gx) @ beBytes 32 (nat CURVE_Gy)"

lemma fromBytes_base: "Point_fromBytes baseBytes = Inr Point_BASE"
proof -
  let ?x = "beBytes 32 (nat CURVE_Gx)" and ?y = "beBytes 32 (nat CURVE_Gy)"
  have n: "bytesToNumBE ?x = CURVE_Gx" "bytesToNumBE ?y = CURVE_Gy"
    using bytesToNumBE_numTo32b numTo32b_eq base_range CURVE_bounds(4) by simp_all
  have "sliceBytesNumBE (?x @ ?y) 0 32 = CURVE_Gx" "sliceBytesNumBE (?x @ ?y) 32 64 = CURVE_Gy"
    using n by (simp_all add: sliceBytesNumBE_def slice_def)
  moreover have "newPoint CURVE_Gx CURVE_Gy 1 = Inr Point_BASE" using base_range CURVE_bounds(1) by (simp add: newPoint_Inr Point_BASE_def)
  moreover have "assertValidity Point_BASE = Inr Point_BASE" using base_range base_on_curve by (simp add: Point_BASE_def assertValidity_one)
  ultimately show ?thesis by (simp add: Point_fromBytes_def baseBytes_def Let_def)
qed

theorem pubkey_roundtrip_witness:
  "Point_toBytes Point_BASE False = Inr baseBytes \<and> py Point_BASE ^ 2 mod CURVE_P = (px Point_BASE ^ 3 + 7) mod CURVE_P"
  using pubkey_roundtrip [OF fromBytes_base] by (simp add: baseBytes_def)

text \<open>C34: Windowed multiplication reads a scalar correctly. The signed digits taken from a 256-bit scalar
  over the 33 windows lie between -127 and 128 and sum, weighted by powers of 256, to the
  scalar with nothing left over; and the loop never reads the table outside its bounds.\<close>

theorem wnaf_recoding:
  assumes "0 \<le> n" and "n < 2 ^ 256" and "length tbl = pwindows * pwindowSize"
  shows "\<exists>ds. wnafDigits pwindows n = (ds, 0) \<and> length ds = pwindows \<and> wnafValue ds = n \<and> (\<forall>d\<in>set ds. - 127 \<le> d \<and> d \<le> 128)
    \<and> wNAFLoop tbl [0..<pwindows] n p f \<noteq> Inl ''TypeError''"
proof -
  obtain ds r where ds: "wnafDigits 33 n = (ds, r)" by fastforce
  have "r = 0" using wnafDigits_full [OF assms(1,2)] ds by simp
  then show ?thesis using wnafDigits_spec [OF ds] ds wNAFLoop_in_bounds [OF _ assms(3), of "[0..<pwindows]" n p f]
    by (auto simp: pwindows_def)
qed

theorem wnaf_recoding_witness:
  "\<exists>ds. wnafDigits pwindows 1000 = (ds, 0) \<and> wnafValue ds = 1000 \<and> take 2 ds = [- 24, 4]"
proof -
  have "take 2 (fst (wnafDigits pwindows 1000)) = [- 24, 4]" by code_simp
  then show ?thesis
    using wnaf_recoding [of 1000 "replicate (pwindows * pwindowSize) Point_BASE" Point_ZERO Point_BASE] by auto
qed

text \<open>C32: Signing is deterministic as RFC 6979 prescribes. With the wallet's HMAC configured, the closure-based
  generator produces the RFC's sequence of nonces for the key and message, and the signature
  is the one made from the first nonce that is not turned down among the first thousand.\<close>

theorem sign_follows_rfc6979:
  "nobleSign (Some hmacSha256) rnd msgh priv opts
    = bindR (prepSig rnd msgh priv opts) (\<lambda>(seed, toSig). firstNonce 1000 (rfcNonce seed) toSig)"
proof (cases "prepSig rnd msgh priv opts")
  case (Inr st)
  then obtain seed toSig where "st = (seed, toSig)" by fastforce
  then show ?thesis using Inr hmacDrbg_first [OF prepSig_seed, of rnd msgh priv opts seed toSig toSig]
    by (simp add: nobleSign_def drbgMax_def)
qed (simp add: nobleSign_def)

text \<open>Every signature is well formed: whatever hash function is configured, a returned signature has both
  components between 1 and the group order, a two-bit recovery id, and its second component in
  the lower half unless the caller switched that off.\<close>

theorem sign_in_range:
  "case nobleSign hook rnd msgh priv opts of Inl e \<Rightarrow> True
   | Inr sg \<Rightarrow> 1 \<le> sig_r sg \<and> sig_r sg < CURVE_N \<and> 1 \<le> sig_s sg \<and> sig_s sg < CURVE_N
       \<and> (sgn_lowS opts = Some False \<or> 2 * sig_s sg < CURVE_N) \<and> sig_recovery sg \<in> {Some 0, Some 1, Some 2, Some 3}"
proof (cases "nobleSign hook rnd msgh priv opts")
  case (Inr sg)
  obtain v where v: "v < 4" "sig_recovery sg = Some v" using nobleSign_good [OF Inr] by (auto simp: goodSignature_def)
  then have "v = 0 \<or> v = 1 \<or> v = 2 \<or> v = 3" by linarith
  then show ?thesis using nobleSign_good [OF Inr] v(2) Inr
    by (cases "sgn_lowS opts") (auto simp: goodSignature_def)
qed simp

end
