(* ===== verification/Der.thy ===== *)
theory Der
  imports Secp256k1
begin

text \<open>
  The signing entry point, \<^verbatim>\<open>contrib/uap-js/secp.js\<close> (\<^verbatim>\<open>derInt\<close>, \<^verbatim>\<open>toDER\<close>, \<^verbatim>\<open>signSync\<close>) and
  \<^verbatim>\<open>configureSecp\<close> of \<^verbatim>\<open>contrib/uap-js/uap.js\<close>, on top of the curve library. The node's check of
  a signature's encoding (\<^verbatim>\<open>IsValidSignatureEncoding\<close> in \<^verbatim>\<open>src/script/interpreter.cpp\<close>) is
  modelled beside it, and every signature the wallet makes is shown to pass it.
\<close>

section \<open>Model\<close>

text \<open>The \<^verbatim>\<open>while\<close> loop that drops redundant leading zero bytes.\<close>

fun derTrim :: "bytes \<Rightarrow> bytes" where
  "derTrim (a # b # r) = (if a = 0x00 \<and> b AND 0x80 = 0 then derTrim (b # r) else a # b # r)"
| "derTrim bs = bs"

definition derInt :: "nat \<Rightarrow> bytes" where
  "derInt v =
    (let hex0 = toString16 v;
         hex = (if length hex0 mod 2 \<noteq> 0 then CHR ''0'' # hex0 else hex0);
         bs0 = derTrim (hexPairs hex);
         bs = (if bs0 ! 0 AND 0x80 \<noteq> 0 then 0x00 # bs0 else bs0)
     in 0x02 # of_nat (length bs) # bs)"

definition toDER :: "signature \<Rightarrow> bytes" where
  "toDER sig =
    (let r = derInt (nat (sig_r sig)); s = derInt (nat (sig_s sig));
         body = setAt (length r) s (setAt 0 r (replicate (length r + length s) 0));
         out = replicate (2 + length body) 0
     in setAt 2 body (out[0 := 0x30, 1 := of_nat (length body)]))"

record sign_opts =
  opt_lowS :: "bool option"
  opt_canonical :: "bool option"
  opt_extraEntropy :: entropy
  opt_der :: "bool option"

definition signSync :: "hmac_hook \<Rightarrow> bytes \<Rightarrow> bytes \<Rightarrow> bytes \<Rightarrow> sign_opts \<Rightarrow> bytes result" where
  "signSync hook rnd msgHash privKey o' =
    (let lowS = (case opt_lowS o' of Some b \<Rightarrow> b | None \<Rightarrow> (case opt_canonical o' of Some b \<Rightarrow> b | None \<Rightarrow> True));
         nobleOpts = \<lparr>sgn_legacy = False, sgn_lowS = Some lowS, sgn_extraEntropy = opt_extraEntropy o'\<rparr> in
     bindR (nobleSign hook rnd msgHash privKey nobleOpts) (\<lambda>sig.
     if opt_der o' = Some False then Signature_toBytes sig else Inr (toDER sig)))"

text \<open>The options with which the wallet library calls it: canonical and DER.\<close>

definition walletSigner :: "hmac_hook \<Rightarrow> bytes \<Rightarrow> bytes \<Rightarrow> bytes result" where
  "walletSigner hook msgHash privKey =
    signSync hook [] msgHash privKey \<lparr>opt_lowS = None, opt_canonical = Some True, opt_extraEntropy = NoEntropy, opt_der = Some True\<rparr>"

text \<open>
  \<^verbatim>\<open>configureSecp\<close> installs the wallet's HMAC on whichever of the two objects the curve module
  has; \<^term>\<open>None\<close> is an object that is absent.
\<close>

record secp_module =
  mod_etc :: "hmac_hook option"
  mod_utils :: "hmac_hook option"

definition configureSecp :: "secp_module \<Rightarrow> secp_module result" where
  "configureSecp m =
    (case mod_etc m of
       Some _ \<Rightarrow> Inr (m\<lparr>mod_etc := Some (Some hmacSha256)\<rparr>)
     | None \<Rightarrow> (case mod_utils m of
         Some _ \<Rightarrow> Inr (m\<lparr>mod_utils := Some (Some hmacSha256)\<rparr>)
       | None \<Rightarrow> Inl ''configureSecp: secp module exposes neither etc nor utils''))"

section \<open>The node's encoding check\<close>

definition IsValidSignatureEncoding :: "bytes \<Rightarrow> bool" where
  "IsValidSignatureEncoding sig =
    (if length sig < 9 then False
     else if length sig > 73 then False
     else if sig ! 0 \<noteq> 0x30 then False
     else if unat (sig ! 1) \<noteq> length sig - 3 then False
     else (let lenR = unat (sig ! 3) in
     if 5 + lenR \<ge> length sig then False
     else (let lenS = unat (sig ! (5 + lenR)) in
     if lenR + lenS + 7 \<noteq> length sig then False
     else if sig ! 2 \<noteq> 0x02 then False
     else if lenR = 0 then False
     else if sig ! 4 AND 0x80 \<noteq> 0 then False
     else if lenR > 1 \<and> sig ! 4 = 0x00 \<and> sig ! 5 AND 0x80 = 0 then False
     else if sig ! (lenR + 4) \<noteq> 0x02 then False
     else if lenS = 0 then False
     else if sig ! (lenR + 6) AND 0x80 \<noteq> 0 then False
     else if lenS > 1 \<and> sig ! (lenR + 6) = 0x00 \<and> sig ! (lenR + 7) AND 0x80 = 0 then False
     else True)))"

section \<open>Lemmas\<close>

text \<open>The bytes of the hex text are the big-endian bytes of the number.\<close>

definition evenHex :: "nat \<Rightarrow> string" where
  "evenHex v = (let h = toString16 v in if length h mod 2 \<noteq> 0 then CHR ''0'' # h else h)"

lemma toString16_two:
  assumes "256 \<le> n"
  shows "toString16 n = toString16 (n div 256) @ [hexDigit (n div 16 mod 16), hexDigit (n mod 16)]"
proof -
  have "toString16 n = toString16 (n div 16) @ [hexDigit (n mod 16)]" using assms by (subst toString16.simps) simp
  moreover have "toString16 (n div 16) = toString16 (n div 16 div 16) @ [hexDigit (n div 16 mod 16)]"
  proof -
    have "\<not> n div 16 < 16" using assms by simp
    then show ?thesis by (subst toString16.simps) simp
  qed
  moreover have "n div 16 div 16 = n div 256" by (simp add: div_mult2_eq [symmetric])
  ultimately show ?thesis by simp
qed

lemma evenHex_bytes: "0 < n \<Longrightarrow> evenHex n = bytesToHex (rev (magnitudeBytes n))"
proof (induction n rule: less_induct)
  case (less n)
  show ?case
  proof (cases "n < 256")
    case True
    then have "n div 256 = 0" by simp
    then have m: "magnitudeBytes n = [of_nat n]" using less.prems by (simp add: magnitudeBytes_pos)
    have "evenHex n = [hexDigit (n div 16 mod 16), hexDigit (n mod 16)]"
    proof (cases "n < 16")
      case True
      then show ?thesis by (simp add: evenHex_def toString16.simps [of n] hexDigit_0)
    next
      case False
      moreover from \<open>n < 256\<close> have "n div 16 < 16" by simp
      ultimately show ?thesis by (simp add: evenHex_def toString16.simps [of n] toString16.simps [of "n div 16"])
    qed
    then show ?thesis by (simp add: m bytesToHex_def byteToHex_of_nat_byte)
  next
    case False
    then have "evenHex n = evenHex (n div 256) @ [hexDigit (n div 16 mod 16), hexDigit (n mod 16)]"
      using toString16_two [of n] by (simp add: evenHex_def Let_def)
    also have "evenHex (n div 256) = bytesToHex (rev (magnitudeBytes (n div 256)))"
      using False by (intro less.IH) (simp_all add: div_greater_zero_iff)
    finally show ?thesis using less.prems
      by (simp add: magnitudeBytes_pos bytesToHex_def byteToHex_of_nat_byte)
  qed
qed

text \<open>A positive integer's content bytes, without the tag and length.\<close>

definition derBody :: "nat \<Rightarrow> bytes" where
  "derBody v = (let m = rev (magnitudeBytes v) in if 128 \<le> unat (hd m) then 0 # m else m)"

lemma derTrim_nonzero: "xs ! 0 \<noteq> 0 \<Longrightarrow> derTrim xs = xs"
  by (cases xs rule: derTrim.cases) auto

lemma derInt_eq:
  assumes "0 < v"
  shows "derInt v = 0x02 # of_nat (length (derBody v)) # derBody v"
proof -
  let ?m = "rev (magnitudeBytes v)"
  have ne: "?m \<noteq> []" using assms by simp
  have "hd ?m \<noteq> 0" using assms last_magnitudeBytes by (simp add: hd_rev)
  then have t: "derTrim ?m = ?m" using ne by (intro derTrim_nonzero) (simp add: hd_conv_nth)
  have h: "hexPairs (evenHex v) = ?m" using assms by (simp add: evenHex_bytes hexPairs_bytesToHex)
  have "derInt v = (let bs0 = derTrim (hexPairs (evenHex v));
         bs = (if bs0 ! 0 AND 0x80 \<noteq> 0 then 0x00 # bs0 else bs0) in 0x02 # of_nat (length bs) # bs)"
    by (simp add: derInt_def evenHex_def Let_def)
  also have "\<dots> = 0x02 # of_nat (length (derBody v)) # derBody v"
    unfolding h t using ne by (simp add: derBody_def and_0x80 hd_conv_nth Let_def)
  finally show ?thesis .
qed

definition goodInt :: "bytes \<Rightarrow> bool" where
  "goodInt bs \<longleftrightarrow> bs \<noteq> [] \<and> length bs \<le> 33 \<and> unat (bs ! 0) < 128 \<and> (1 < length bs \<longrightarrow> bs ! 0 = 0 \<longrightarrow> 128 \<le> unat (bs ! 1))"

lemma derBody_good:
  assumes "0 < v" "v < 2 ^ 256"
  shows "goodInt (derBody v)"
proof -
  let ?m = "rev (magnitudeBytes v)"
  have ne: "?m \<noteq> []" and nz: "hd ?m \<noteq> 0" using assms last_magnitudeBytes by (simp_all add: hd_rev)
  have "length ?m \<le> 32" using assms length_magnitudeBytes [of v 32] by simp
  with ne nz show ?thesis by (cases ?m) (auto simp: goodInt_def derBody_def Let_def)
qed

lemma derBody_inj: "derBody v = derBody w \<Longrightarrow> 0 < v \<Longrightarrow> 0 < w \<Longrightarrow> v = w"
proof -
  assume e: "derBody v = derBody w" and p: "0 < v" "0 < w"
  have *: "leVal (rev (derBody n)) = n" for n
    by (simp add: derBody_def Let_def leVal_append)
  show "v = w" using * e by metis
qed

lemma toDER_eq:
  assumes "0 < sig_r sg" "sig_r sg < 2 ^ 256" "0 < sig_s sg" "sig_s sg < 2 ^ 256"
  shows "toDER sg = [0x30, of_nat (length (derBody (nat (sig_r sg))) + length (derBody (nat (sig_s sg))) + 4),
      0x02, of_nat (length (derBody (nat (sig_r sg))))] @ derBody (nat (sig_r sg))
    @ [0x02, of_nat (length (derBody (nat (sig_s sg))))] @ derBody (nat (sig_s sg))"
proof -
  let ?r = "derInt (nat (sig_r sg))" and ?s = "derInt (nat (sig_s sg))"
  have b: "setAt (length ?r) ?s (setAt 0 ?r (replicate (length ?r + length ?s) 0)) = ?r @ ?s"
    by (simp add: setAt_def)
  have "toDER sg = [0x30, of_nat (length (?r @ ?s))] @ ?r @ ?s"
    unfolding toDER_def Let_def b by (simp add: setAt_def numeral_2_eq_2)
  then show ?thesis using assms by (simp add: derInt_eq)
qed

lemma and_0x80_eq_0: "(b :: byte) AND 0x80 = 0 \<longleftrightarrow> unat b < 128"
  using and_0x80 [of b] by auto

lemma IsValidSignatureEncoding_intro:
  assumes "length sg = lr + ls + 7" "0 < lr" "lr \<le> 33" "0 < ls" "ls \<le> 33"
    and "sg ! 0 = 0x30" "unat (sg ! 1) = length sg - 3" "sg ! 2 = 0x02" "unat (sg ! 3) = lr"
    and "unat (sg ! 4) < 128" "1 < lr \<Longrightarrow> sg ! 4 = 0 \<Longrightarrow> 128 \<le> unat (sg ! 5)"
    and "sg ! (lr + 4) = 0x02" "unat (sg ! (5 + lr)) = ls"
    and "unat (sg ! (lr + 6)) < 128" "1 < ls \<Longrightarrow> sg ! (lr + 6) = 0 \<Longrightarrow> 128 \<le> unat (sg ! (lr + 7))"
  shows "IsValidSignatureEncoding sg"
proof -
  have "\<not> length sg < 9" "\<not> 73 < length sg" "\<not> 5 + lr \<ge> length sg" using assms(1-5) by linarith+
  moreover have "\<not> (1 < lr \<and> sg ! 4 = 0 \<and> sg ! 5 AND 0x80 = 0)" "\<not> (1 < ls \<and> sg ! (lr + 6) = 0 \<and> sg ! (lr + 7) AND 0x80 = 0)"
    using assms(11,15) by (auto simp: and_0x80_eq_0)
  ultimately show ?thesis
    unfolding IsValidSignatureEncoding_def Let_def assms(9) assms(13)
    using assms(1,2,4,6-8,10,12,14) by (simp add: and_0x80_eq_0)
qed

lemma valid_encoding:
  assumes "goodInt R" "goodInt S"
  shows "IsValidSignatureEncoding ([0x30, of_nat (length R + length S + 4), 0x02, of_nat (length R)] @ R
    @ [0x02, of_nat (length S)] @ S @ [ht])" (is "IsValidSignatureEncoding ?sig")
proof (rule IsValidSignatureEncoding_intro [where lr = "length R" and ls = "length S"])
  show l: "0 < length R" "length R \<le> 33" "0 < length S" "length S \<le> 33" using assms by (auto simp: goodInt_def)
  have u: "unat (of_nat (length R + length S + 4) :: byte) = length R + length S + 4"
    "unat (of_nat (length R) :: byte) = length R" "unat (of_nat (length S) :: byte) = length S"
    using l by (auto intro!: unat_of_nat8 simp del: of_nat_add)
  show "unat (?sig ! 1) = length ?sig - 3" using u(1) by (simp del: of_nat_add)
  show "unat (?sig ! 3) = length R" using u(2) by simp
  show "?sig ! (length R + 4) = 0x02" by (simp add: nth_append nth_Cons')
  show "unat (?sig ! (5 + length R)) = length S" using u(3) by (simp add: nth_append nth_Cons')
  have s: "?sig ! (length R + 6 + i) = S ! i" if "i < length S" for i using that by (simp add: nth_append nth_Cons')
  have r: "?sig ! (4 + i) = R ! i" if "i < length R" for i using that by (simp add: nth_append)
  show "unat (?sig ! 4) < 128" using r [of 0] l assms(1) by (simp add: goodInt_def)
  show "unat (?sig ! (length R + 6)) < 128" using s [of 0] l assms(2) by (simp add: goodInt_def)
  show "128 \<le> unat (?sig ! 5)" if "1 < length R" "?sig ! 4 = 0"
    using r [of 0] r [of 1] that l assms(1) by (simp add: goodInt_def)
  show "128 \<le> unat (?sig ! (length R + 7))" if "1 < length S" "?sig ! (length R + 6) = 0"
    using s [of 0] s [of 1] that l assms(2) by (simp add: goodInt_def)
qed simp_all

lemma derBody_good_int: "0 < v \<Longrightarrow> v < 2 ^ 256 \<Longrightarrow> goodInt (derBody (nat v))"
  by (rule derBody_good) (simp_all add: nat_less_iff)

lemma toDER_valid:
  assumes "0 < sig_r sg" "sig_r sg < 2 ^ 256" "0 < sig_s sg" "sig_s sg < 2 ^ 256"
  shows "IsValidSignatureEncoding (toDER sg @ [ht])"
  using valid_encoding [OF derBody_good_int [OF assms(1,2)] derBody_good_int [OF assms(3,4)], of ht]
  by (simp add: toDER_eq [OF assms])

lemma CURVE_N_less: "CURVE_N < 2 ^ 256"
  by (simp add: CURVE_N_def)

section \<open>Properties\<close>

text \<open>C31: Signatures are strictly encoded. Whatever key and message hash the wallet signs with, the DER bytes
  it produces, followed by any hash-type byte, pass the node's signature encoding check, and
  they encode a signature whose second component is in the lower half of the group order.\<close>

theorem der_signature_valid:
  "case walletSigner hook h k of Inl e \<Rightarrow> True
   | Inr der \<Rightarrow> IsValidSignatureEncoding (der @ [ht]) \<and> (\<exists>sg. der = toDER sg \<and> 1 \<le> sig_s sg \<and> 2 * sig_s sg < CURVE_N)"
proof (cases "walletSigner hook h k")
  case (Inr der)
  then obtain sg where sg: "nobleSign hook [] h k \<lparr>sgn_legacy = False, sgn_lowS = Some True, sgn_extraEntropy = NoEntropy\<rparr> = Inr sg"
    "der = toDER sg"
    by (auto simp: walletSigner_def signSync_def bindR_eq_Inr)
  have g: "goodSignature True sg" using nobleSign_good [OF sg(1)] by simp
  then have "IsValidSignatureEncoding (der @ [ht])"
    unfolding sg(2) using CURVE_N_less by (intro toDER_valid) (auto simp: goodSignature_def)
  then show ?thesis using Inr g sg(2) by (auto simp: goodSignature_def)
qed simp

text \<open>The DER encoding loses nothing: different pairs of components in range have different encodings.\<close>

theorem der_injective:
  assumes "0 < sig_r a" "sig_r a < 2 ^ 256" "0 < sig_s a" "sig_s a < 2 ^ 256"
    and "0 < sig_r b" "sig_r b < 2 ^ 256" "0 < sig_s b" "sig_s b < 2 ^ 256" and "toDER a = toDER b"
  shows "sig_r a = sig_r b \<and> sig_s a = sig_s b"
proof -
  let ?b = "\<lambda>v. derBody (nat v)"
  have l: "length (?b (sig_r a)) < 256" "length (?b (sig_r b)) < 256"
    using derBody_good_int [OF assms(1,2)] derBody_good_int [OF assms(5,6)] by (simp_all add: goodInt_def)
  have e: "of_nat (length (?b (sig_r a))) = (of_nat (length (?b (sig_r b))) :: byte)"
    and r: "?b (sig_r a) @ 0x02 # of_nat (length (?b (sig_s a))) # ?b (sig_s a)
      = ?b (sig_r b) @ 0x02 # of_nat (length (?b (sig_s b))) # ?b (sig_s b)"
    using assms(9) unfolding toDER_eq [OF assms(1-4)] toDER_eq [OF assms(5-8)] by simp_all
  have "length (?b (sig_r a)) = length (?b (sig_r b))" using l unat_of_nat8 e by metis
  with r have "?b (sig_r a) = ?b (sig_r b)" "?b (sig_s a) = ?b (sig_s b)" by auto
  then have "nat (sig_r a) = nat (sig_r b)" "nat (sig_s a) = nat (sig_s b)" using derBody_inj assms by auto
  then show ?thesis using assms by (metis int_nat_eq less_imp_le)
qed

theorem der_injective_witness:
  "toDER \<lparr>sig_r = 1, sig_s = 255, sig_recovery = None\<rparr> \<noteq> toDER \<lparr>sig_r = 255, sig_s = 1, sig_recovery = None\<rparr>"
  using der_injective [of "\<lparr>sig_r = 1, sig_s = 255, sig_recovery = None\<rparr>" "\<lparr>sig_r = 255, sig_s = 1, sig_recovery = None\<rparr>"] by auto

end
