(* ===== verification/Sighash.thy ===== *)
theory Sighash
  imports Tx
begin

text \<open>
  Signature hashes of \<^verbatim>\<open>contrib/uap-js/uap.js\<close>: the opcode walk \<^verbatim>\<open>nextOp\<close>, the removal of
  code separators \<^verbatim>\<open>serializeScriptCode\<close>, \<^verbatim>\<open>signatureHash\<close> with its base types and the
  ANYONECANPAY flag, and the two signers. The elliptic curve library is the argument
  \<open>signSync\<close> (message hash, private key, DER signature or a thrown error).

  Shows that the walk drops exactly the OP_CODESEPARATOR instructions and leaves every
  covenant unchanged, what each hash type commits to, and what it leaves open.
\<close>

section \<open>Hash types\<close>

abbreviation SIGHASH_ALL :: int where "SIGHASH_ALL \<equiv> 1"
abbreviation SIGHASH_NONE :: int where "SIGHASH_NONE \<equiv> 2"
abbreviation SIGHASH_SINGLE :: int where "SIGHASH_SINGLE \<equiv> 3"
abbreviation SIGHASH_ANYONECANPAY :: int where "SIGHASH_ANYONECANPAY \<equiv> 0x80"

definition SIGHASH_DEGENERATE_HASH :: bytes where
  "SIGHASH_DEGENERATE_HASH = concatBytes [[1], replicate 31 0]"

section \<open>The opcode walk\<close>

record op_step =
  step_ok :: bool
  step_pos :: nat
  step_opcode :: int

text \<open>The common tail of \<^verbatim>\<open>nextOp\<close>: skip \<open>n\<close> bytes of push data at \<open>pc\<close>.\<close>

definition skipData :: "bytes \<Rightarrow> int \<Rightarrow> nat \<Rightarrow> nat \<Rightarrow> op_step" where
  "skipData script opc pc n =
    (if length script - pc < n then \<lparr>step_ok = False, step_pos = pc, step_opcode = opc\<rparr>
     else \<lparr>step_ok = True, step_pos = pc + n, step_opcode = opc\<rparr>)"

definition nextOp :: "bytes \<Rightarrow> nat \<Rightarrow> op_step" where
  "nextOp script pc0 =
    (if pc0 \<ge> length script then \<lparr>step_ok = False, step_pos = pc0, step_opcode = - 1\<rparr>
     else (let opc = script ! pc0; pc = pc0 + 1; fail = \<lparr>step_ok = False, step_pos = pc, step_opcode = uint opc\<rparr> in
       if opc \<le> OP_PUSHDATA4 then
         (if opc = OP_PUSHDATA1 then
            (if length script - pc < 1 then fail
             else skipData script (uint opc) (pc + 1) (unat (script ! pc)))
          else if opc = OP_PUSHDATA2 then
            (if length script - pc < 2 then fail
             else skipData script (uint opc) (pc + 2) (unat (join16 (script ! pc) (script ! (pc + 1)))))
          else if opc = OP_PUSHDATA4 then
            (if length script - pc < 4 then fail
             else skipData script (uint opc) (pc + 4)
               (unat (join32 (script ! pc) (script ! (pc + 1)) (script ! (pc + 2)) (script ! (pc + 3)))))
          else skipData script (uint opc) pc (unat opc))
       else \<lparr>step_ok = True, step_pos = pc, step_opcode = uint opc\<rparr>))"

lemma nextOp_bounds:
  assumes "step_ok (nextOp s pc)"
  shows "pc < step_pos (nextOp s pc) \<and> step_pos (nextOp s pc) \<le> length s"
  using assms by (auto simp: nextOp_def skipData_def Let_def split: if_splits)

lemma nextOp_progress: "step_ok (nextOp s pc) \<Longrightarrow> length s - step_pos (nextOp s pc) < length s - pc"
  using nextOp_bounds [of s pc] by linarith

record code_scan =
  scan_runs :: "bytes list"
  scan_separators :: nat
  scan_begin :: nat
  scan_pc :: nat

text \<open>\<^verbatim>\<open>scriptCode.subarray(a, b)\<close>\<close>

definition subarray :: "bytes \<Rightarrow> nat \<Rightarrow> nat \<Rightarrow> bytes" where
  "subarray bs a b = slice bs a (b - a)"

text \<open>The \<^verbatim>\<open>for (;;)\<close> loop of \<^verbatim>\<open>serializeScriptCode\<close>; it ends because every step that succeeds moves on.\<close>

function codeLoop :: "bytes \<Rightarrow> code_scan \<Rightarrow> code_scan" where
  "codeLoop script st =
    (let step = nextOp script (scan_pc st); pc = step_pos step in
     if \<not> step_ok step then st\<lparr>scan_pc := pc\<rparr>
     else if step_opcode step = uint OP_CODESEPARATOR then
       codeLoop script (st\<lparr>scan_runs := scan_runs st @ [subarray script (scan_begin st) (pc - 1)],
         scan_begin := pc, scan_separators := scan_separators st + 1, scan_pc := pc\<rparr>)
     else codeLoop script (st\<lparr>scan_pc := pc\<rparr>))"
  by pat_completeness auto
termination
  by (relation "measure (\<lambda>(s, st). length s - scan_pc st)")
    (auto dest: nextOp_progress)

declare codeLoop.simps [simp del]

definition serializeScriptCode :: "bytes \<Rightarrow> bytes \<times> nat" where
  "serializeScriptCode scriptCode =
    (let st = codeLoop scriptCode \<lparr>scan_runs = [], scan_separators = 0, scan_begin = 0, scan_pc = 0\<rparr>;
         runs = (if scan_begin st \<noteq> length scriptCode
                 then scan_runs st @ [subarray scriptCode (scan_begin st) (scan_pc st)] else scan_runs st)
     in (concatBytes runs, length scriptCode - scan_separators st))"

section \<open>The signature hash\<close>

definition baseType :: "int \<Rightarrow> 32 word" where
  "baseType hashType = toInt32 hashType AND 0x1f"

definition anyoneCanPay :: "int \<Rightarrow> bool" where
  "anyoneCanPay hashType = (toInt32 hashType AND toInt32 SIGHASH_ANYONECANPAY \<noteq> 0)"

text \<open>The inputs and outputs of the transaction that is hashed.\<close>

definition sighashInput :: "bytes \<Rightarrow> transaction \<Rightarrow> nat \<Rightarrow> int \<Rightarrow> nat \<Rightarrow> tx_in" where
  "sighashInput scriptCode tx nIn hashType i =
    (let vin = tx_vin tx ! i; isSigned = (i = nIn); (code, declaredLength) = serializeScriptCode scriptCode;
         zeroSequence = (\<not> isSigned \<and> (baseType hashType = toInt32 SIGHASH_SINGLE \<or> baseType hashType = toInt32 SIGHASH_NONE))
     in \<lparr>in_txid = in_txid vin, in_vout = in_vout vin,
         in_scriptSig = (if isSigned then code else []),
         in_scriptSigLength = (if isSigned then Some declaredLength else None),
         in_sequence = (if zeroSequence then Some 0 else in_sequence vin)\<rparr>)"

definition sighashOutputs :: "transaction \<Rightarrow> nat \<Rightarrow> int \<Rightarrow> tx_out list" where
  "sighashOutputs tx nIn hashType =
    (if baseType hashType = toInt32 SIGHASH_NONE then []
     else if baseType hashType = toInt32 SIGHASH_SINGLE
     then replicate nIn \<lparr>out_value = - 1, out_scriptPubKey = []\<rparr> @ [tx_vout tx ! nIn]
     else tx_vout tx)"

definition sighashTx :: "bytes \<Rightarrow> transaction \<Rightarrow> nat \<Rightarrow> int \<Rightarrow> transaction" where
  "sighashTx scriptCode tx nIn hashType =
    (let inputIndices = (if anyoneCanPay hashType then [nIn] else [0..<length (tx_vin tx)]) in
     \<lparr>tx_version = tx_version tx, tx_vin = map (sighashInput scriptCode tx nIn hashType) inputIndices,
      tx_vout = sighashOutputs tx nIn hashType, tx_locktime = tx_locktime tx\<rparr>)"

definition sighashPreimage :: "bytes \<Rightarrow> transaction \<Rightarrow> nat \<Rightarrow> int \<Rightarrow> bytes result" where
  "sighashPreimage scriptCode tx nIn hashType =
    bindR (serializeTx (sighashTx scriptCode tx nIn hashType)) (\<lambda>bs. Inr (concatBytes [bs, encodeUint32LE hashType]))"

definition signatureHash :: "bytes \<Rightarrow> transaction \<Rightarrow> nat \<Rightarrow> int \<Rightarrow> bytes result" where
  "signatureHash scriptCode tx nIn hashType =
    (if nIn \<ge> length (tx_vin tx) then Inr SIGHASH_DEGENERATE_HASH
     else if baseType hashType = toInt32 SIGHASH_SINGLE \<and> nIn \<ge> length (tx_vout tx) then Inr SIGHASH_DEGENERATE_HASH
     else mapR hash256 (sighashPreimage scriptCode tx nIn hashType))"

section \<open>Signing\<close>

type_synonym signer = "bytes \<Rightarrow> bytes \<Rightarrow> bytes result"

definition signSpend :: "signer \<Rightarrow> bytes \<Rightarrow> bytes \<Rightarrow> transaction \<Rightarrow> nat \<Rightarrow> int \<Rightarrow> bytes result" where
  "signSpend signSync scriptCode privKey tx nIn hashType =
    bindR (signatureHash scriptCode tx nIn hashType) (\<lambda>hash.
    bindR (signSync hash privKey) (\<lambda>der.
    pushData (concatBytes [der, [of_int hashType]])))"

definition signP2PKHInput :: "signer \<Rightarrow> bytes \<Rightarrow> bytes \<Rightarrow> bytes \<Rightarrow> transaction \<Rightarrow> nat \<Rightarrow> int \<Rightarrow> bytes result" where
  "signP2PKHInput signSync scriptCode privKey pubKey tx nIn hashType =
    bindR (signatureHash scriptCode tx nIn hashType) (\<lambda>hash.
    bindR (signSync hash privKey) (\<lambda>der.
    bindR (pushData (concatBytes [der, [of_int hashType]])) (\<lambda>s.
    bindR (pushData pubKey) (\<lambda>p.
    Inr (concatBytes [s, p])))))"

section \<open>Lemmas: the opcode walk\<close>

text \<open>The instructions of a script as byte strings; the last one may be cut off.\<close>

function rawOps :: "bytes \<Rightarrow> nat \<Rightarrow> bytes list" where
  "rawOps s pc =
    (let step = nextOp s pc in
     if pc \<ge> length s then []
     else if step_ok step then subarray s pc (step_pos step) # rawOps s (step_pos step)
     else [subarray s pc (step_pos step)])"
  by pat_completeness auto
termination
  by (relation "measure (\<lambda>(s, pc). length s - pc)") (auto dest: nextOp_progress)

declare rawOps.simps [simp del]

lemma nextOp_drop:
  assumes "pc \<le> length s"
  shows "nextOp s pc = (let st = nextOp (drop pc s) 0 in st\<lparr>step_pos := pc + step_pos st\<rparr>)"
  using assms by (auto simp: nextOp_def skipData_def Let_def add.commute [of pc])

lemma nextOp_end: "length s \<le> pc \<Longrightarrow> \<not> step_ok (nextOp s pc) \<and> step_pos (nextOp s pc) = pc"
  by (simp add: nextOp_def)

lemma nextOp_fail_pos:
  assumes "\<not> step_ok (nextOp s pc)" "pc \<le> length s"
  shows "pc \<le> step_pos (nextOp s pc) \<and> step_pos (nextOp s pc) \<le> length s"
  using assms by (auto simp: nextOp_def skipData_def Let_def)

lemma length_subarray: "b \<le> length s \<Longrightarrow> length (subarray s a b) = b - a"
  by (simp add: subarray_def slice_def)

lemma subarray_same [simp]: "subarray s a a = []"
  by (simp add: subarray_def slice_def)

lemma subarray_split: "a \<le> b \<Longrightarrow> b \<le> c \<Longrightarrow> subarray s a b @ subarray s b c = subarray s a c"
proof -
  assume "a \<le> b" "b \<le> c"
  then obtain m n where "b = a + m" "c = a + m + n" by (metis add.assoc le_Suc_ex)
  then show ?thesis by (simp add: subarray_def slice_def take_add add.commute)
qed

lemma subarray_nth0: "a < b \<Longrightarrow> b \<le> length s \<Longrightarrow> subarray s a b ! 0 = s ! a"
  by (simp add: subarray_def slice_def)

lemma subarray_single: "a < length s \<Longrightarrow> subarray s a (Suc a) = [s ! a]"
  by (simp add: subarray_def slice_def take_Suc_conv_app_nth)

text \<open>A step reads OP_CODESEPARATOR exactly when the instruction is that single byte.\<close>

lemma step_separator:
  assumes "step_ok (nextOp s pc)"
  shows "step_opcode (nextOp s pc) = uint OP_CODESEPARATOR \<longleftrightarrow> subarray s pc (step_pos (nextOp s pc)) = [OP_CODESEPARATOR]"
proof -
  have pc: "pc < length s" using nextOp_bounds [OF assms] by linarith
  have o: "step_opcode (nextOp s pc) = uint (s ! pc)" using pc by (auto simp: nextOp_def skipData_def Let_def)
  show ?thesis
  proof
    assume "step_opcode (nextOp s pc) = uint OP_CODESEPARATOR"
    then have e: "s ! pc = OP_CODESEPARATOR" using o by (simp add: word_uint_eq_iff)
    then have "step_pos (nextOp s pc) = Suc pc" using pc by (simp add: nextOp_def Let_def)
    with e pc show "subarray s pc (step_pos (nextOp s pc)) = [OP_CODESEPARATOR]" by (simp add: subarray_single)
  next
    assume a: "subarray s pc (step_pos (nextOp s pc)) = [OP_CODESEPARATOR]"
    then have "s ! pc = OP_CODESEPARATOR" using subarray_nth0 [of pc "step_pos (nextOp s pc)" s] nextOp_bounds [OF assms] by simp
    with o show "step_opcode (nextOp s pc) = uint OP_CODESEPARATOR" by simp
  qed
qed

lemma fail_not_separator:
  assumes "\<not> step_ok (nextOp s pc)" "pc < length s"
  shows "subarray s pc (step_pos (nextOp s pc)) \<noteq> [OP_CODESEPARATOR]"
proof
  assume a: "subarray s pc (step_pos (nextOp s pc)) = [OP_CODESEPARATOR]"
  then have "pc < step_pos (nextOp s pc)" using nextOp_fail_pos [OF assms(1)] assms(2)
    by (metis le_neq_implies_less less_imp_le not_Cons_self2 subarray_same)
  then have "s ! pc = OP_CODESEPARATOR"
    using a subarray_nth0 [of pc "step_pos (nextOp s pc)" s] nextOp_fail_pos [OF assms(1)] assms(2) by simp
  then show False using assms by (simp add: nextOp_def Let_def)
qed

abbreviation isSeparator :: "bytes \<Rightarrow> bool" where
  "isSeparator opn \<equiv> opn = [OP_CODESEPARATOR]"

lemma codeLoop_spec:
  assumes "scan_begin st \<le> scan_pc st" "scan_pc st \<le> length s"
  shows "concat (scan_runs (codeLoop s st)) @ subarray s (scan_begin (codeLoop s st)) (scan_pc (codeLoop s st))
      = concat (scan_runs st) @ subarray s (scan_begin st) (scan_pc st)
        @ concat (filter (\<lambda>opn. \<not> isSeparator opn) (rawOps s (scan_pc st)))
    \<and> scan_separators (codeLoop s st) = scan_separators st + length (filter isSeparator (rawOps s (scan_pc st)))
    \<and> scan_begin (codeLoop s st) \<le> scan_pc (codeLoop s st) \<and> scan_pc (codeLoop s st) \<le> length s"
  using assms
proof (induction s st rule: codeLoop.induct)
  case (1 s st)
  let ?n = "nextOp s (scan_pc st)"
  show ?case
  proof (cases "step_ok ?n")
    case False
    then have c: "codeLoop s st = st\<lparr>scan_pc := step_pos ?n\<rparr>" by (simp add: codeLoop.simps Let_def)
    show ?thesis
    proof (cases "scan_pc st < length s")
      case True
      then have r: "rawOps s (scan_pc st) = [subarray s (scan_pc st) (step_pos ?n)]"
        using False by (subst rawOps.simps) (simp add: Let_def)
      show ?thesis
        using False True nextOp_fail_pos [OF False] fail_not_separator [OF False True] "1.prems"
        by (simp add: c r subarray_split)
    next
      case f: False
      then have "rawOps s (scan_pc st) = []" "step_pos ?n = scan_pc st"
        using nextOp_end [of s "scan_pc st"] by (simp_all add: rawOps.simps)
      then show ?thesis using "1.prems" by (simp add: c)
    qed
  next
    case ok: True
    note b = nextOp_bounds [OF ok]
    then have r: "rawOps s (scan_pc st) = subarray s (scan_pc st) (step_pos ?n) # rawOps s (step_pos ?n)"
      using ok by (subst rawOps.simps) (simp add: Let_def)
    show ?thesis
    proof (cases "step_opcode ?n = uint OP_CODESEPARATOR")
      case True
      then have sep: "subarray s (scan_pc st) (step_pos ?n) = [OP_CODESEPARATOR]" using step_separator [OF ok] by simp
      then have pos: "step_pos ?n - Suc 0 = scan_pc st" using length_subarray [of "step_pos ?n" s "scan_pc st"] b by simp
      let ?st = "st\<lparr>scan_runs := scan_runs st @ [subarray s (scan_begin st) (step_pos ?n - 1)],
         scan_begin := step_pos ?n, scan_separators := scan_separators st + 1, scan_pc := step_pos ?n\<rparr>"
      have c: "codeLoop s st = codeLoop s ?st" using ok True by (subst codeLoop.simps) (simp add: Let_def)
      show ?thesis
        using "1.IH"(1) [OF refl refl _ True] ok b "1.prems" by (simp only: c) (simp add: r sep pos)
    next
      case False
      then have ns: "subarray s (scan_pc st) (step_pos ?n) \<noteq> [OP_CODESEPARATOR]" using step_separator [OF ok] by simp
      have c: "codeLoop s st = codeLoop s (st\<lparr>scan_pc := step_pos ?n\<rparr>)"
        using ok False by (subst codeLoop.simps) (simp add: Let_def)
      show ?thesis
        using "1.IH"(2) [OF refl refl _ False] ok b "1.prems" subarray_split [of "scan_begin st" "scan_pc st" "step_pos ?n" s]
        by (simp only: c) (simp add: r ns flip: append_assoc)
    qed
  qed
qed

lemma serializeScriptCode_spec:
  "serializeScriptCode s = (concat (filter (\<lambda>opn. \<not> isSeparator opn) (rawOps s 0)),
     length s - length (filter isSeparator (rawOps s 0)))"
proof -
  define st where "st = codeLoop s \<lparr>scan_runs = [], scan_separators = 0, scan_begin = 0, scan_pc = 0\<rparr>"
  have c: "concat (scan_runs st) @ subarray s (scan_begin st) (scan_pc st) = concat (filter (\<lambda>opn. \<not> isSeparator opn) (rawOps s 0))"
    "scan_separators st = length (filter isSeparator (rawOps s 0))"
    "scan_begin st \<le> scan_pc st" "scan_pc st \<le> length s"
    using codeLoop_spec [of "\<lparr>scan_runs = [], scan_separators = 0, scan_begin = 0, scan_pc = 0\<rparr>" s] by (simp_all add: st_def)
  show ?thesis
  proof (cases "scan_begin st = length s")
    case True
    then have "scan_pc st = scan_begin st" using c by simp
    with True c show ?thesis by (simp add: serializeScriptCode_def Let_def flip: st_def)
  next
    case False
    with c show ?thesis by (simp add: serializeScriptCode_def Let_def flip: st_def)
  qed
qed

text \<open>On a script that \<open>readPushes\<close> accepts the walk yields the same elements.\<close>

lemma nextOp_rawPush:
  assumes "wfPush p"
  shows "step_ok (nextOp (rawPush p @ r) 0) \<and> step_pos (nextOp (rawPush p @ r) 0) = length (rawPush p)"
proof (cases "isPush p")
  case False
  then have "\<not> opcode p \<le> 0x4e" using assms by (auto simp: wfPush_def not_le split: if_splits)
  with False show ?thesis by (simp add: rawPush_def nextOp_def)
next
  case True
  note o = wfPush_opcode [OF assms True]
  then have le: "opcode p \<le> 0x4e" by (simp add: byte_le_iff)
  consider (z) "opcode p = OP_0" | (pd1) "opcode p = OP_PUSHDATA1" | (pd2) "opcode p = OP_PUSHDATA2" | (pd4) "opcode p = OP_PUSHDATA4"
    | (d) "opcode p \<noteq> OP_0" "opcode p \<noteq> OP_PUSHDATA1" "opcode p \<noteq> OP_PUSHDATA2" "opcode p \<noteq> OP_PUSHDATA4" by blast
  then show ?thesis
  proof cases
    case z
    with True assms show ?thesis by (simp add: rawPush_def nextOp_def skipData_def)
  next
    case pd1
    then have "unat (of_nat (length (data p)) :: byte) = length (data p)"
      using assms True by (intro unat_of_nat8) (simp add: wfPush_def)
    with True pd1 show ?thesis by (simp add: rawPush_def nextOp_def skipData_def)
  next
    case pd2
    let ?w = "of_nat (length (data p)) :: 32 word"
    have w: "unat ?w = length (data p)" "take_bit 16 ?w = ?w"
      using assms True pd2 by (simp_all add: wfPush_def unat_of_nat32 take_bit_16_of_nat)
    obtain x y where xy: "split16 ?w = [x, y]" by (simp add: split16_def)
    then have "join16 x y = ?w" using join16_split16 [OF w(2)] by simp
    with True pd2 xy w show ?thesis by (simp add: rawPush_def nextOp_def skipData_def)
  next
    case pd4
    let ?w = "of_nat (length (data p)) :: 32 word"
    have w: "unat ?w = length (data p)"
      using assms True pd4 by (simp add: wfPush_def unat_of_nat32)
    obtain x y z t where xy: "split32 ?w = [x, y, z, t]" by (simp add: split32_def)
    then have "join32 x y z t = ?w" using join32_split32 [of ?w] by simp
    with True pd4 xy w show ?thesis by (simp add: rawPush_def nextOp_def skipData_def)
  next
    case d
    with True le assms show ?thesis by (simp add: rawPush_def wfPush_def nextOp_def skipData_def Let_def)
  qed
qed

lemma rawPush_ne: "rawPush p \<noteq> []"
  by (simp add: rawPush_def)

lemma rawOps_pushes:
  "readPushes (drop pc s) = Inr ps \<Longrightarrow> pc \<le> length s \<Longrightarrow> rawOps s pc = map rawPush ps"
proof (induction ps arbitrary: pc)
  case Nil
  then show ?case using readPushes_raw [OF Nil.prems(1)] by (simp add: rawOps.simps)
next
  case (Cons p ps)
  have ne: "drop pc s \<noteq> []" using Cons.prems(1) by (metis list.discI readPushes.simps(1) sum.inject(2))
  then obtain b r where br: "drop pc s = b # r" by (meson neq_Nil_conv)
  then obtain r' where r': "drop pc s = rawPush p @ r'" "wfPush p" "readPushes r' = Inr ps"
    using Cons.prems(1) by (auto elim!: readPushes_raw_step simp del: readPushes.simps)
  let ?n = "nextOp s pc" and ?q = "pc + length (rawPush p)"
  have n: "step_ok ?n" "step_pos ?n = ?q"
    using nextOp_drop [OF Cons.prems(2)] nextOp_rawPush [OF r'(2), of r'] r'(1) by (simp_all add: Let_def)
  have d: "drop ?q s = r'" using r'(1) by (metis append_eq_conv_conj drop_drop add.commute)
  have le: "?q \<le> length s" using nextOp_bounds [OF n(1)] n(2) by simp
  have "rawOps s ?q = map rawPush ps" using d r'(3) le by (intro Cons.IH) simp_all
  moreover have "subarray s pc ?q = rawPush p" using r'(1) by (simp add: subarray_def slice_def)
  ultimately show ?case using n ne by (subst rawOps.simps) (simp add: Let_def)
qed

lemma decodeMultiplier_not_separator:
  assumes "wfPush p" "decodeMultiplier p = Some m"
  shows "rawPush p \<noteq> [OP_CODESEPARATOR]"
proof
  assume a: "rawPush p = [OP_CODESEPARATOR]"
  then have o: "opcode p = OP_CODESEPARATOR" by (auto simp: rawPush_def split: if_splits)
  show False
  proof (cases "isPush p")
    case True
    then show False using wfPush_opcode [OF assms(1)] o by simp
  next
    case False
    then show False using assms(2) o by (simp add: decodeMultiplier_def)
  qed
qed

lemma push_not_separator: "wfPush p \<Longrightarrow> isPush p \<Longrightarrow> rawPush p \<noteq> [OP_CODESEPARATOR]"
  using wfPush_opcode [of p] by (auto simp: rawPush_def split: if_splits)

text \<open>A covenant is signed as it stands.\<close>

lemma serializeScriptCode_covenant:
  assumes "parseUapScript s = Some u"
  shows "serializeScriptCode s = (s, length s)"
proof -
  obtain ps where ps: "readPushes s = Inr ps" using assms by (auto simp: parseUapScript_Some)
  have r: "rawOps s 0 = map rawPush ps" using ps by (intro rawOps_pushes) simp_all
  note raw = readPushes_raw [OF ps]
  have "\<not> isSeparator (rawPush p)" if "p \<in> set ps" for p
  proof -
    have w: "wfPush p" using raw that by (simp add: list_all_iff)
    have "isPush p \<or> (\<exists>m. decodeMultiplier p = Some m) \<or> \<not> isPush p \<and> opcode p \<in> {OP_MINT, OP_MINT_TRANSFER}"
      using assms ps that by (auto simp: parseUapScript_Some)
    then show ?thesis
      using push_not_separator [OF w] decodeMultiplier_not_separator [OF w] by (auto simp: rawPush_def)
  qed
  then have "filter (\<lambda>opn. \<not> isSeparator opn) (map rawPush ps) = map rawPush ps" "filter isSeparator (map rawPush ps) = []"
    by (auto simp: filter_id_conv filter_empty_conv)
  moreover have "concat (map rawPush ps) = s" using raw by simp
  ultimately show ?thesis by (simp add: serializeScriptCode_spec r)
qed

section \<open>Lemmas: what a hash type commits to\<close>

text \<open>A script is signed verbatim when the walk removes nothing; every covenant is such a script.\<close>

definition signedVerbatim :: "bytes \<Rightarrow> bool" where
  "signedVerbatim s \<longleftrightarrow> serializeScriptCode s = (s, length s)"

lemma hashType_all [simp]:
  "baseType 1 = 1" "\<not> anyoneCanPay 1"
  by (simp_all add: baseType_def anyoneCanPay_def toInt32_def)

lemma hashType_single_acp [simp]:
  "baseType 0x83 = 3" "anyoneCanPay 0x83"
  by (simp_all add: baseType_def anyoneCanPay_def toInt32_def)

lemma toInt32_numeral [simp]: "toInt32 (numeral n) = numeral n" "toInt32 1 = 1" "toInt32 0 = 0"
  by (simp_all add: toInt32_def)

text \<open>The input a signature commits to under SINGLE and ANYONECANPAY: outpoint and sequence only.\<close>

definition outpointSeq :: "tx_in \<Rightarrow> string \<times> int \<times> int option" where
  "outpointSeq i = (in_txid i, in_vout i, in_sequence i)"

lemma sighash_single_acp_cong:
  assumes "n < length (tx_vin tx)" "n < length (tx_vout tx)" "n < length (tx_vin tx')" "n < length (tx_vout tx')"
    and "outpointSeq (tx_vin tx ! n) = outpointSeq (tx_vin tx' ! n)" "tx_vout tx ! n = tx_vout tx' ! n"
    and "tx_version tx = tx_version tx'" "tx_locktime tx = tx_locktime tx'"
  shows "signatureHash s tx n 0x83 = signatureHash s tx' n 0x83"
proof -
  have "sighashTx s tx n 0x83 = sighashTx s tx' n 0x83"
    using assms by (simp add: sighashTx_def sighashInput_def sighashOutputs_def outpointSeq_def Let_def)
  with assms show ?thesis by (simp add: signatureHash_def sighashPreimage_def)
qed

text \<open>The transaction hashed under ALL, with the declared script length made implicit.\<close>

definition allInput :: "bytes \<Rightarrow> nat \<Rightarrow> nat \<Rightarrow> tx_in \<Rightarrow> tx_in" where
  "allInput s n i vin = vin\<lparr>in_scriptSig := (if i = n then s else []), in_scriptSigLength := None\<rparr>"

definition allTx :: "bytes \<Rightarrow> transaction \<Rightarrow> nat \<Rightarrow> transaction" where
  "allTx s tx n = tx\<lparr>tx_vin := map (\<lambda>i. allInput s n i (tx_vin tx ! i)) [0..<length (tx_vin tx)]\<rparr>"

lemma serializeInput_cong:
  assumes "in_txid i = in_txid j" "in_vout i = in_vout j" "in_scriptSig i = in_scriptSig j" "in_sequence i = in_sequence j"
    "(case in_scriptSigLength i of None \<Rightarrow> length (in_scriptSig i) | Some n \<Rightarrow> n)
      = (case in_scriptSigLength j of None \<Rightarrow> length (in_scriptSig j) | Some n \<Rightarrow> n)"
  shows "serializeInput i = serializeInput j"
  using assms by (simp add: serializeInput_def Let_def cong: if_cong)

lemma serializeInput_all:
  assumes "signedVerbatim s"
  shows "serializeInput (sighashInput s tx n 1 i) = serializeInput (allInput s n i (tx_vin tx ! i))"
  using assms by (intro serializeInput_cong) (simp_all add: sighashInput_def allInput_def signedVerbatim_def Let_def)

lemma mapM_map: "mapM f (map g xs) = mapM (\<lambda>x. f (g x)) xs"
  by (induction xs) auto

lemma serializeTx_all:
  assumes "signedVerbatim s"
  shows "serializeTx (sighashTx s tx n 1) = serializeTx (allTx s tx n)"
  by (simp add: serializeTx_def sighashTx_def allTx_def sighashOutputs_def mapM_map serializeInput_all [OF assms])

lemma wfTx_allTx:
  assumes "wfTx tx" "length s \<le> 0xffffffff"
  shows "wfTx (allTx s tx n)"
  using assms by (auto simp: wfTx_def allTx_def list_all_length wfIn_def allInput_def)

lemma sighashPreimage_all:
  assumes "signedVerbatim s" "wfTx tx" "length s \<le> 0xffffffff"
  shows "sighashPreimage s tx n 1 = Inr (txBytes (allTx s tx n) @ encodeUint32LE 1)"
  by (simp add: sighashPreimage_def serializeTx_all [OF assms(1)] serializeTx_wf [OF wfTx_allTx [OF assms(2,3)]])

lemma allTx_inj:
  assumes e: "allTx s tx n = allTx s' tx' n'" and n: "n < length (tx_vin tx)" "n' < length (tx_vin tx')" and ne: "s \<noteq> []" "s' \<noteq> []"
  shows "s = s' \<and> n = n' \<and> tx_version tx = tx_version tx' \<and> tx_locktime tx = tx_locktime tx'
    \<and> tx_vout tx = tx_vout tx' \<and> map outpointSeq (tx_vin tx) = map outpointSeq (tx_vin tx')"
proof -
  let ?f = "\<lambda>s n tx. map (\<lambda>i. allInput s n i (tx_vin tx ! i)) [0..<length (tx_vin tx)]"
  have vin: "?f s n tx = ?f s' n' tx'" using arg_cong [OF e, of tx_vin] by (simp add: allTx_def)
  have len: "length (tx_vin tx) = length (tx_vin tx')" using arg_cong [OF vin, of length] by simp
  have i: "allInput s n i (tx_vin tx ! i) = allInput s' n' i (tx_vin tx' ! i)" if "i < length (tx_vin tx)" for i
    using that len arg_cong [OF vin, of "\<lambda>xs. xs ! i"] by simp
  have sn: "(if n = n' then s' else []) = s" using arg_cong [OF i [OF n(1)], of in_scriptSig] by (simp add: allInput_def)
  then have "n = n'" "s = s'" using ne by (auto split: if_splits)
  moreover have "outpointSeq (tx_vin tx ! i) = outpointSeq (tx_vin tx' ! i)" if "i < length (tx_vin tx)" for i
    using arg_cong [OF i [OF that], of outpointSeq] by (simp add: allInput_def outpointSeq_def)
  then have "map outpointSeq (tx_vin tx) = map outpointSeq (tx_vin tx')" using len by (simp add: list_eq_iff_nth_eq)
  ultimately show ?thesis
    using arg_cong [OF e, of tx_version] arg_cong [OF e, of tx_locktime] arg_cong [OF e, of tx_vout] by (simp add: allTx_def)
qed

lemma length_signatureHash: "signatureHash s tx n ht = Inr h \<Longrightarrow> length h = 32"
  by (auto simp: signatureHash_def result_simps SIGHASH_DEGENERATE_HASH_def split: if_splits)

section \<open>Properties\<close>

text \<open>C30: Code separators. Preparing a script for signing keeps the bytes of every instruction except
  the OP_CODESEPARATOR instructions, which it drops, in order; a separator byte inside push
  data stays. The declared length is the script's length minus the number of separators.\<close>

theorem script_code_drops_separators:
  "serializeScriptCode s = (concat (filter (\<lambda>opn. opn \<noteq> [OP_CODESEPARATOR]) (rawOps s 0)),
     length s - length (filter (\<lambda>opn. opn = [OP_CODESEPARATOR]) (rawOps s 0)))"
  by (rule serializeScriptCode_spec)

text \<open>A covenant is signed exactly as it stands on chain: nothing is removed and the declared
  length is its own.\<close>

theorem covenant_signed_verbatim:
  assumes "parseUapScript s = Some u"
  shows "serializeScriptCode s = (s, length s)"
  using assms by (rule serializeScriptCode_covenant)

theorem covenant_signed_verbatim_witness:
  "serializeScriptCode (33 # replicate 33 0xab @ [OP_0, OP_MINT]) = (33 # replicate 33 0xab @ [OP_0, OP_MINT], 36)"
proof -
  let ?u = "\<lparr>pubkey = replicate 33 0xab, multiplier = 0, origin = [], isMint = True\<rparr> :: uap_script"
  have "parseUapScript (33 # replicate 33 0xab @ [OP_0, OP_MINT]) = Some ?u" by code_simp
  from covenant_signed_verbatim [OF this] show ?thesis by simp
qed

text \<open>C23: SIGHASH_ALL commits to everything. If two well-formed transactions, with scripts that are
  signed verbatim, have the same preimage under SIGHASH_ALL, then the signed script, the input
  index, the version, the lock time, all outputs and the outpoint and sequence of every input
  agree: only the other inputs' scriptSigs are left open.\<close>

theorem sighash_all_commits:
  assumes "wfTx tx" "wfTx tx'" and "n < length (tx_vin tx)" "n' < length (tx_vin tx')"
    and "signedVerbatim s" "signedVerbatim s'" and "s \<noteq> []" "s' \<noteq> []"
    and "length s \<le> 0xffffffff" "length s' \<le> 0xffffffff"
    and "sighashPreimage s tx n SIGHASH_ALL = sighashPreimage s' tx' n' SIGHASH_ALL"
  shows "s = s' \<and> n = n' \<and> tx_version tx = tx_version tx' \<and> tx_locktime tx = tx_locktime tx'
    \<and> tx_vout tx = tx_vout tx' \<and> map outpointSeq (tx_vin tx) = map outpointSeq (tx_vin tx')"
proof (rule allTx_inj)
  have "txBytes (allTx s tx n) = txBytes (allTx s' tx' n')"
    using assms by (simp add: sighashPreimage_all)
  then show "allTx s tx n = allTx s' tx' n'" using assms by (intro txBytes_inj) (simp_all add: wfTx_allTx)
qed (use assms in simp_all)

text \<open>SIGHASH_SINGLE with ANYONECANPAY leaves a signature valid when the rest of the transaction is
  filled in: the hash is unchanged as long as the signed input keeps its index, outpoint and
  sequence, the output at that index is the same, and version and lock time are kept.\<close>

theorem sighash_single_acp_stable:
  assumes "n < length (tx_vin tx)" "n < length (tx_vout tx)" "n < length (tx_vin tx')" "n < length (tx_vout tx')"
    and "outpointSeq (tx_vin tx ! n) = outpointSeq (tx_vin tx' ! n)" "tx_vout tx ! n = tx_vout tx' ! n"
    and "tx_version tx = tx_version tx'" "tx_locktime tx = tx_locktime tx'"
  shows "signatureHash s tx n 0x83 = signatureHash s tx' n 0x83"
  using assms by (rule sighash_single_acp_cong)

section \<open>Witnesses\<close>

definition sampleIn :: tx_in where
  "sampleIn = \<lparr>in_txid = replicate 64 (CHR ''0''), in_vout = 1, in_scriptSig = [], in_scriptSigLength = None, in_sequence = Some 0xffffffff\<rparr>"

definition sampleTx :: transaction where
  "sampleTx = \<lparr>tx_version = 1, tx_vin = [sampleIn], tx_vout = [\<lparr>out_value = 5000000, out_scriptPubKey = [OP_1]\<rparr>], tx_locktime = 0\<rparr>"

lemma wfTx_sampleTx: "wfTx sampleTx"
proof -
  have "isTxid (replicate 64 (CHR ''0''))" by code_simp
  then show ?thesis by (simp add: sampleTx_def sampleIn_def wfTx_def wfIn_def wfOut_def MAX_SAFE_INTEGER_def)
qed

text \<open>The same transaction before and after its input is signed.\<close>

definition sampleSigned :: transaction where
  "sampleSigned = sampleTx\<lparr>tx_vin := [sampleIn\<lparr>in_scriptSig := [1, 2]\<rparr>]\<rparr>"

lemma wfTx_sampleSigned: "wfTx sampleSigned"
  using wfTx_sampleTx by (simp add: sampleSigned_def sampleTx_def wfTx_def wfIn_def sampleIn_def)

theorem sighash_all_commits_witness:
  "sighashPreimage [OP_1] sampleTx 0 SIGHASH_ALL = sighashPreimage [OP_1] sampleSigned 0 SIGHASH_ALL
    \<and> tx_vout sampleTx = tx_vout sampleSigned \<and> map outpointSeq (tx_vin sampleTx) = map outpointSeq (tx_vin sampleSigned)"
proof -
  have v: "signedVerbatim [OP_1]" unfolding signedVerbatim_def by code_simp
  have "allTx [OP_1] sampleTx 0 = allTx [OP_1] sampleSigned 0"
    by (simp add: allTx_def allInput_def sampleTx_def sampleSigned_def sampleIn_def)
  then have e: "sighashPreimage [OP_1] sampleTx 0 SIGHASH_ALL = sighashPreimage [OP_1] sampleSigned 0 SIGHASH_ALL"
    using v wfTx_sampleTx wfTx_sampleSigned by (simp add: sighashPreimage_all)
  then show ?thesis
    using sighash_all_commits [OF wfTx_sampleTx wfTx_sampleSigned _ _ v v _ _ _ _ e]
    by (simp add: sampleTx_def sampleSigned_def)
qed

theorem sighash_single_acp_stable_witness:
  "signatureHash [OP_1] sampleTx 0 0x83
    = signatureHash [OP_1] (sampleTx\<lparr>tx_vin := [sampleIn, sampleIn\<lparr>in_vout := 7\<rparr>], tx_vout := tx_vout sampleTx @ tx_vout sampleTx\<rparr>) 0 0x83"
  by (rule sighash_single_acp_stable) (simp_all add: sampleTx_def sampleIn_def)

end
