(* ===== verification/Payment.thy ===== *)
theory Payment
  imports Sighash "HOL-Library.Multiset"
begin

text \<open>
  Transaction builders of \<^verbatim>\<open>contrib/uap-js/uap.js\<close>: fee estimation, coin selection,
  \<^verbatim>\<open>buildPaymentTx\<close>, \<^verbatim>\<open>buildTransferTx\<close> and \<^verbatim>\<open>buildMeltTx\<close>. Amounts are integers (satoshis); the
  fee rate may be fractional and is a rational. An absent option is \<open>None\<close>; a fee cap is the
  default, a number, or Infinity.

  Shows that no builder creates or loses value: inputs equal outputs plus a fee within the
  caller's cap and above the relay minimum, change worth spending is never dropped, coin
  selection takes the smallest coins first and fails only when the coins do not cover the
  amount with its fee, covenant outputs carry the right lineage, and every scriptSig signs
  the finished transaction.
\<close>

section \<open>Constants and options\<close>

definition COIN :: int where "COIN = 100000000"
definition RECOMMENDED_MIN_TX_FEE :: int where "RECOMMENDED_MIN_TX_FEE = COIN div 100"
definition DEFAULT_DUST_LIMIT :: int where "DEFAULT_DUST_LIMIT = RECOMMENDED_MIN_TX_FEE"
definition DEFAULT_HARD_DUST_LIMIT :: int where "DEFAULT_HARD_DUST_LIMIT = DEFAULT_DUST_LIMIT div 10"
definition DEFAULT_TRANSACTION_MAXFEE :: int where "DEFAULT_TRANSACTION_MAXFEE = RECOMMENDED_MIN_TX_FEE * 10000"

datatype fee_cap = DefaultCap | Cap int | NoCap

fun exceedsCap :: "int \<Rightarrow> fee_cap \<Rightarrow> bool" where
  "exceedsCap fee DefaultCap = (fee > DEFAULT_TRANSACTION_MAXFEE)"
| "exceedsCap fee (Cap m) = (fee > m)"
| "exceedsCap fee NoCap = False"

record coin =
  coin_txid :: string
  coin_vout :: int
  coin_value :: int
  coin_scriptCode :: bytes
  coin_privKey :: bytes
  coin_pubKey :: bytes

section \<open>Coin selection\<close>

definition estimateTxSize :: "nat \<Rightarrow> nat \<Rightarrow> nat" where
  "estimateTxSize nInputs nOutputs = 10 + nInputs * 150 + nOutputs * 34"

record selection =
  sel_coins :: "coin list"
  sel_totalInput :: int
  sel_change :: int
  sel_fee :: int

text \<open>The estimate for a prefix of the sorted candidates, floored at the recommended minimum.\<close>

definition estimatedFee :: "int \<Rightarrow> nat \<Rightarrow> rat \<Rightarrow> nat \<Rightarrow> nat \<Rightarrow> int \<Rightarrow> int" where
  "estimatedFee targetAmount changeScriptLen feeRate nOutputs nSelected tot =
    (let estimatedOutputs = nOutputs + (if tot > targetAmount \<and> changeScriptLen > 0 then 1 else 0);
         estimatedSize = estimateTxSize nSelected estimatedOutputs;
         f = \<lceil>of_nat estimatedSize * feeRate / 1000\<rceil>
     in if f < RECOMMENDED_MIN_TX_FEE then RECOMMENDED_MIN_TX_FEE else f)"

fun selectLoop :: "int \<Rightarrow> nat \<Rightarrow> rat \<Rightarrow> nat \<Rightarrow> coin list \<Rightarrow> int \<Rightarrow> coin list \<Rightarrow> selection result" where
  "selectLoop targetAmount changeScriptLen feeRate nOutputs sel tot [] =
    Inl ''insufficient funds for transaction (cannot select enough UTXOs to cover target + fee)''"
| "selectLoop targetAmount changeScriptLen feeRate nOutputs sel tot (input # rest) =
    (let sel' = sel @ [input]; tot' = tot + coin_value input;
         est = estimatedFee targetAmount changeScriptLen feeRate nOutputs (length sel') tot'
     in if tot' \<ge> targetAmount + est
        then Inr \<lparr>sel_coins = sel', sel_totalInput = tot', sel_change = tot' - targetAmount - est, sel_fee = est\<rparr>
        else selectLoop targetAmount changeScriptLen feeRate nOutputs sel' tot' rest)"

definition selectCoins :: "coin list \<Rightarrow> int \<Rightarrow> nat \<Rightarrow> rat \<Rightarrow> nat \<Rightarrow> selection result" where
  "selectCoins candidateInputs targetAmount changeScriptLen feeRate nOutputs =
    selectLoop targetAmount changeScriptLen feeRate nOutputs [] 0 (sort_key coin_value candidateInputs)"

section \<open>Payments\<close>

definition unsignedInput :: "string \<Rightarrow> int \<Rightarrow> tx_in" where
  "unsignedInput txid vout =
    \<lparr>in_txid = txid, in_vout = vout, in_scriptSig = [], in_scriptSigLength = None, in_sequence = Some 0xffffffff\<rparr>"

definition setScriptSig :: "transaction \<Rightarrow> nat \<Rightarrow> bytes \<Rightarrow> transaction" where
  "setScriptSig tx i s = tx\<lparr>tx_vin := (tx_vin tx)[i := (tx_vin tx ! i)\<lparr>in_scriptSig := s\<rparr>]\<rparr>"

text \<open>The signing loop: input \<open>i\<close> is signed in the transaction that already holds the earlier signatures.\<close>

fun signInputs :: "signer \<Rightarrow> coin list \<Rightarrow> nat \<Rightarrow> transaction \<Rightarrow> transaction result" where
  "signInputs signSync [] i tx = Inr tx"
| "signInputs signSync (c # cs) i tx =
    bindR (signP2PKHInput signSync (coin_scriptCode c) (coin_privKey c) (coin_pubKey c) tx i SIGHASH_ALL) (\<lambda>s.
    signInputs signSync cs (i + 1) (setScriptSig tx i s))"

record payment_opts =
  pay_inputs :: "coin list"
  pay_outputs :: "tx_out list"
  pay_changeScript :: "bytes option"
  pay_feeRate :: "rat option"
  pay_maxFee :: fee_cap

definition outputSum :: "tx_out list \<Rightarrow> int" where
  "outputSum outs = foldl (\<lambda>acc ou. acc + out_value ou) 0 outs"

definition buildPaymentTx :: "signer \<Rightarrow> payment_opts \<Rightarrow> transaction result" where
  "buildPaymentTx signSync opts =
    (let feeRate = (case pay_feeRate opts of None \<Rightarrow> 1000 | Some r \<Rightarrow> if r = 0 then 1000 else r);
         requestedOutputs = pay_outputs opts; changeScript = pay_changeScript opts;
         totalOutputValue = outputSum requestedOutputs
     in bindR (selectCoins (pay_inputs opts) totalOutputValue
          (case changeScript of None \<Rightarrow> 0 | Some s \<Rightarrow> length s) feeRate (length requestedOutputs)) (\<lambda>sel.
     (let vin = map (\<lambda>input. unsignedInput (coin_txid input) (coin_vout input)) (sel_coins sel) in
      if sel_change sel \<ge> DEFAULT_DUST_LIMIT \<and> changeScript = None then Inl ''change of ''
      else
        (let vout = requestedOutputs @
               (case changeScript of
                  Some s \<Rightarrow> if sel_change sel \<ge> DEFAULT_DUST_LIMIT then [\<lparr>out_value = sel_change sel, out_scriptPubKey = s\<rparr>] else []
                | None \<Rightarrow> []);
             actualFee = sel_totalInput sel - outputSum vout
         in if exceedsCap actualFee (pay_maxFee opts) then Inl ''refusing to build a transaction paying ''
            else signInputs signSync (sel_coins sel) 0
              \<lparr>tx_version = 1, tx_vin = vin, tx_vout = vout, tx_locktime = 0\<rparr>))))"

section \<open>Transfers and melts\<close>

record position_input =
  pos_txid :: string
  pos_vout :: int
  pos_scriptCode :: bytes
  pos_value :: int
  pos_privKey :: bytes

record transfer_opts =
  tr_input :: position_input
  tr_toPubkey :: bytes
  tr_multiplier :: int
  tr_fee :: "int option"
  tr_maxFee :: fee_cap

definition signFirst :: "signer \<Rightarrow> position_input \<Rightarrow> transaction \<Rightarrow> transaction result" where
  "signFirst signSync input tx =
    bindR (signSpend signSync (pos_scriptCode input) (pos_privKey input) tx 0 SIGHASH_ALL) (\<lambda>s.
    Inr (setScriptSig tx 0 s))"

definition buildTransferTx :: "signer \<Rightarrow> transfer_opts \<Rightarrow> transaction result" where
  "buildTransferTx signSync opts =
    (let f = (case tr_fee opts of None \<Rightarrow> 50000 | Some f \<Rightarrow> f); input = tr_input opts; outValue = pos_value input - f in
     if exceedsCap f (tr_maxFee opts) then Inl ''refusing to build a transfer paying ''
     else if outValue \<le> 0 then Inl ''fee exceeds input value''
     else
       bindR (originForSpend (pos_scriptCode input) (pos_txid input) (pos_vout input)) (\<lambda>origin.
       bindR (buildTransferScript (tr_toPubkey opts) (tr_multiplier opts) origin) (\<lambda>spk.
       signFirst signSync input
         \<lparr>tx_version = 1, tx_vin = [unsignedInput (pos_txid input) (pos_vout input)],
          tx_vout = [\<lparr>out_value = outValue, out_scriptPubKey = spk\<rparr>], tx_locktime = 0\<rparr>)))"

record melt_opts =
  melt_input :: position_input
  melt_toPubkey :: bytes
  melt_multiplier :: int
  melt_remainderScript :: "bytes option"
  melt_fee :: "int option"
  melt_maxFee :: fee_cap

definition buildMeltTx :: "signer \<Rightarrow> melt_opts \<Rightarrow> transaction result" where
  "buildMeltTx signSync opts =
    (let f = (case melt_fee opts of None \<Rightarrow> 50000 | Some f \<Rightarrow> f); input = melt_input opts in
     if exceedsCap f (melt_maxFee opts) then Inl ''refusing to build a melt paying ''
     else (case melt_remainderScript opts of
       None \<Rightarrow> Inl ''buildMeltTx requires remainderScript''
     | Some remainderScript \<Rightarrow>
       if remainderScript = [] then Inl ''buildMeltTx requires remainderScript''
       else
         (let dustValue = DEFAULT_DUST_LIMIT; remainder = pos_value input - dustValue - f in
          if remainder < DEFAULT_DUST_LIMIT then Inl ''position value ''
          else
            bindR (originForSpend (pos_scriptCode input) (pos_txid input) (pos_vout input)) (\<lambda>origin.
            bindR (buildTransferScript (melt_toPubkey opts) (melt_multiplier opts) origin) (\<lambda>spk.
            signFirst signSync input
              \<lparr>tx_version = 1, tx_vin = [unsignedInput (pos_txid input) (pos_vout input)],
               tx_vout = [\<lparr>out_value = dustValue, out_scriptPubKey = spk\<rparr>, \<lparr>out_value = remainder, out_scriptPubKey = remainderScript\<rparr>],
               tx_locktime = 0\<rparr>)))))"

section \<open>Lemmas: coin selection\<close>

abbreviation coinSum :: "coin list \<Rightarrow> int" where
  "coinSum cs \<equiv> sum_list (map coin_value cs)"

lemma estimatedFee_min: "RECOMMENDED_MIN_TX_FEE \<le> estimatedFee t l r n k tot"
  by (simp add: estimatedFee_def Let_def)

lemma selectLoop_Inr:
  assumes "selectLoop t l r n sel (coinSum sel) cs = Inr s"
  shows "\<exists>k\<le>length cs. 0 < k \<and> sel_coins s = sel @ take k cs \<and> sel_totalInput s = coinSum (sel_coins s)
    \<and> sel_fee s = estimatedFee t l r n (length (sel_coins s)) (sel_totalInput s)
    \<and> sel_change s = sel_totalInput s - t - sel_fee s \<and> 0 \<le> sel_change s
    \<and> (\<forall>j<k. 0 < j \<longrightarrow> coinSum (sel @ take j cs) < t + estimatedFee t l r n (length sel + j) (coinSum (sel @ take j cs)))"
  using assms
proof (induction cs arbitrary: sel)
  case (Cons c cs)
  let ?sel = "sel @ [c]"
  let ?est = "estimatedFee t l r n (length ?sel) (coinSum ?sel)"
  show ?case
  proof (cases "coinSum ?sel \<ge> t + ?est")
    case True
    then have "s = \<lparr>sel_coins = ?sel, sel_totalInput = coinSum ?sel, sel_change = coinSum ?sel - t - ?est, sel_fee = ?est\<rparr>"
      using Cons.prems by (simp add: Let_def)
    with True show ?thesis by (intro exI [of _ 1]) auto
  next
    case False
    then have "selectLoop t l r n ?sel (coinSum ?sel) cs = Inr s" using Cons.prems by (simp add: Let_def)
    from Cons.IH [OF this] obtain k where k: "k \<le> length cs" "0 < k" "sel_coins s = ?sel @ take k cs" "sel_totalInput s = coinSum (sel_coins s)"
      "sel_fee s = estimatedFee t l r n (length (sel_coins s)) (sel_totalInput s)" "sel_change s = sel_totalInput s - t - sel_fee s" "0 \<le> sel_change s"
      and m: "\<forall>j<k. 0 < j \<longrightarrow> coinSum (?sel @ take j cs) < t + estimatedFee t l r n (length ?sel + j) (coinSum (?sel @ take j cs))"
      by blast
    have "coinSum (sel @ take j (c # cs)) < t + estimatedFee t l r n (length sel + j) (coinSum (sel @ take j (c # cs)))"
      if j: "j < Suc k" "0 < j" for j
    proof (cases "j = 1")
      case True
      with False show ?thesis by simp
    next
      case f: False
      then obtain i where i: "j = Suc i" "0 < i" "i < k" using j by (cases j) auto
      with m show ?thesis by (auto simp: add.assoc)
    qed
    with k show ?thesis by (intro exI [of _ "Suc k"]) auto
  qed
qed simp

lemma selectLoop_Inl:
  assumes "selectLoop t l r n sel (coinSum sel) cs = Inl e"
  shows "\<forall>j\<le>length cs. 0 < j \<longrightarrow> coinSum (sel @ take j cs) < t + estimatedFee t l r n (length sel + j) (coinSum (sel @ take j cs))"
  using assms
proof (induction cs arbitrary: sel)
  case (Cons c cs)
  let ?sel = "sel @ [c]"
  let ?est = "estimatedFee t l r n (length ?sel) (coinSum ?sel)"
  have f: "\<not> coinSum ?sel \<ge> t + ?est" using Cons.prems by (auto simp: Let_def split: if_splits)
  then have "selectLoop t l r n ?sel (coinSum ?sel) cs = Inl e" using Cons.prems by (simp add: Let_def)
  note m = Cons.IH [OF this]
  show ?case
  proof (intro allI impI)
    fix j assume j: "j \<le> length (c # cs)" "0 < j"
    show "coinSum (sel @ take j (c # cs)) < t + estimatedFee t l r n (length sel + j) (coinSum (sel @ take j (c # cs)))"
    proof (cases "j = 1")
      case True
      with f show ?thesis by simp
    next
      case False
      then obtain i where i: "j = Suc i" "0 < i" "i \<le> length cs" using j by (cases j) auto
      with m show ?thesis by (auto simp: add.assoc)
    qed
  qed
qed simp

lemma selectLoop_Inl_msg:
  "selectLoop t l r n sel tot cs = Inl e \<Longrightarrow> e = ''insufficient funds for transaction (cannot select enough UTXOs to cover target + fee)''"
  by (induction cs arbitrary: sel tot) (auto simp: Let_def split: if_splits)

lemma selectCoins_Inr:
  assumes "selectCoins cs t l r n = Inr s"
  obtains k where "0 < k" "k \<le> length cs" "sel_coins s = take k (sort_key coin_value cs)"
    "sel_totalInput s = coinSum (sel_coins s)" "sel_fee s = estimatedFee t l r n (length (sel_coins s)) (sel_totalInput s)"
    "sel_change s = sel_totalInput s - t - sel_fee s" "0 \<le> sel_change s"
    "\<forall>j<k. 0 < j \<longrightarrow> coinSum (take j (sort_key coin_value cs)) < t + estimatedFee t l r n j (coinSum (take j (sort_key coin_value cs)))"
proof -
  let ?cs = "sort_key coin_value cs"
  have "selectLoop t l r n [] (coinSum []) ?cs = Inr s" using assms by (simp add: selectCoins_def)
  from selectLoop_Inr [OF this] show ?thesis using that by auto
qed

lemma mset_selected:
  assumes "selectCoins cs t l r n = Inr s"
  shows "mset (sel_coins s) \<subseteq># mset cs"
proof -
  obtain k where k: "sel_coins s = take k (sort_key coin_value cs)" using selectCoins_Inr [OF assms] by blast
  have "mset (take k (sort_key coin_value cs)) + mset (drop k (sort_key coin_value cs)) = mset cs"
    by (metis append_take_drop_id mset_append mset_sort)
  then show ?thesis using k by (metis mset_subset_eq_add_left)
qed

section \<open>Lemmas: signatures of the finished transaction\<close>

text \<open>Everything a signature hash can depend on: the scriptSigs are not part of it.\<close>

definition skeleton :: "transaction \<Rightarrow> int \<times> int \<times> (string \<times> int \<times> int option) list \<times> tx_out list" where
  "skeleton tx = (tx_version tx, tx_locktime tx, map outpointSeq (tx_vin tx), tx_vout tx)"

lemma signatureHash_skeleton:
  assumes "skeleton tx = skeleton tx'"
  shows "signatureHash s tx n ht = signatureHash s tx' n ht"
proof -
  have m: "map outpointSeq (tx_vin tx) = map outpointSeq (tx_vin tx')" and o: "tx_vout tx = tx_vout tx'"
    "tx_version tx = tx_version tx'" "tx_locktime tx = tx_locktime tx'" using assms by (simp_all add: skeleton_def)
  have l: "length (tx_vin tx) = length (tx_vin tx')" using m map_eq_imp_length_eq by blast
  have i: "sighashInput s tx n ht i = sighashInput s tx' n ht i" if "i < length (tx_vin tx)" for i
  proof -
    have "outpointSeq (tx_vin tx ! i) = outpointSeq (tx_vin tx' ! i)" using that l m by (metis nth_map)
    then show ?thesis by (auto simp: sighashInput_def outpointSeq_def Let_def split: prod.splits)
  qed
  have "sighashTx s tx n ht = sighashTx s tx' n ht" if "n < length (tx_vin tx)"
    using that i l o by (auto simp: sighashTx_def sighashOutputs_def Let_def)
  then show ?thesis using l o by (auto simp: signatureHash_def sighashPreimage_def)
qed

lemma skeleton_setScriptSig: "i < length (tx_vin tx) \<Longrightarrow> skeleton (setScriptSig tx i s) = skeleton tx"
proof -
  assume i: "i < length (tx_vin tx)"
  have "outpointSeq ((tx_vin tx ! i)\<lparr>in_scriptSig := s\<rparr>) = map outpointSeq (tx_vin tx) ! i"
    using i by (simp add: outpointSeq_def)
  then show ?thesis by (simp add: skeleton_def setScriptSig_def map_update)
qed

lemma signSpend_skeleton: "skeleton tx = skeleton tx' \<Longrightarrow> signSpend f s k tx n ht = signSpend f s k tx' n ht"
  using signatureHash_skeleton [of tx tx' s n ht] by (simp add: signSpend_def)

lemma signP2PKHInput_skeleton: "skeleton tx = skeleton tx' \<Longrightarrow> signP2PKHInput f s k p tx n ht = signP2PKHInput f s k p tx' n ht"
  using signatureHash_skeleton [of tx tx' s n ht] by (simp add: signP2PKHInput_def)

lemma signInputs_Inr:
  assumes "signInputs f cs i tx = Inr tx'" "i + length cs \<le> length (tx_vin tx)"
  shows "skeleton tx' = skeleton tx \<and> (\<forall>j<i. tx_vin tx' ! j = tx_vin tx ! j)
    \<and> (\<forall>k<length cs. signP2PKHInput f (coin_scriptCode (cs ! k)) (coin_privKey (cs ! k)) (coin_pubKey (cs ! k)) tx' (i + k) SIGHASH_ALL
        = Inr (in_scriptSig (tx_vin tx' ! (i + k))))"
  using assms
proof (induction cs arbitrary: i tx)
  case (Cons c cs)
  let ?sign = "\<lambda>c tx n. signP2PKHInput f (coin_scriptCode c) (coin_privKey c) (coin_pubKey c) tx n SIGHASH_ALL"
  obtain s where s: "?sign c tx i = Inr s" "signInputs f cs (i + 1) (setScriptSig tx i s) = Inr tx'"
    using Cons.prems(1) by (auto simp: result_simps)
  have i: "i < length (tx_vin tx)" using Cons.prems(2) by simp
  have len: "length (tx_vin (setScriptSig tx i s)) = length (tx_vin tx)" by (simp add: setScriptSig_def)
  have ih: "skeleton tx' = skeleton (setScriptSig tx i s)" "\<forall>j<i + 1. tx_vin tx' ! j = tx_vin (setScriptSig tx i s) ! j"
    "\<forall>k<length cs. ?sign (cs ! k) tx' (i + 1 + k) = Inr (in_scriptSig (tx_vin tx' ! (i + 1 + k)))"
    using Cons.IH [OF s(2)] Cons.prems(2) len by auto
  have sk: "skeleton tx' = skeleton tx" using ih(1) skeleton_setScriptSig [OF i] by simp
  have "in_scriptSig (tx_vin tx' ! i) = s" using ih(2) i by (simp add: setScriptSig_def)
  then have first: "?sign c tx' i = Inr (in_scriptSig (tx_vin tx' ! i))" using signP2PKHInput_skeleton [OF sk, of f "coin_scriptCode c" "coin_privKey c" "coin_pubKey c" i] s(1) by simp
  have "?sign ((c # cs) ! k) tx' (i + k) = Inr (in_scriptSig (tx_vin tx' ! (i + k)))" if "k < length (c # cs)" for k
    using that first ih(3) by (cases k) auto
  moreover have "\<forall>j<i. tx_vin tx' ! j = tx_vin tx ! j" using ih(2) by (auto simp: setScriptSig_def)
  ultimately show ?case using sk by blast
qed simp

lemma signFirst_Inr:
  assumes "signFirst f input tx = Inr tx'" "tx_vin tx \<noteq> []"
  shows "skeleton tx' = skeleton tx
    \<and> signSpend f (pos_scriptCode input) (pos_privKey input) tx' 0 SIGHASH_ALL = Inr (in_scriptSig (tx_vin tx' ! 0))"
proof -
  obtain s where s: "signSpend f (pos_scriptCode input) (pos_privKey input) tx 0 SIGHASH_ALL = Inr s" "tx' = setScriptSig tx 0 s"
    using assms(1) by (auto simp: signFirst_def result_simps)
  have sk: "skeleton tx' = skeleton tx" using s(2) assms(2) skeleton_setScriptSig by simp
  have "in_scriptSig (tx_vin tx' ! 0) = s" using s(2) assms(2) by (simp add: setScriptSig_def)
  then show ?thesis using sk s(1) signSpend_skeleton [OF sk, of f "pos_scriptCode input" "pos_privKey input" 0] by simp
qed

lemma outputSum_eq: "outputSum outs = sum_list (map out_value outs)"
proof -
  have "foldl (\<lambda>acc ou. acc + out_value ou) a outs = a + sum_list (map out_value outs)" for a
    by (induction outs arbitrary: a) simp_all
  then show ?thesis by (simp add: outputSum_def)
qed

lemma outputSum_append [simp]: "outputSum (a @ b) = outputSum a + outputSum b"
  by (simp add: outputSum_eq)

section \<open>Lemmas: the builders\<close>

definition paymentRate :: "payment_opts \<Rightarrow> rat" where
  "paymentRate opts = (case pay_feeRate opts of None \<Rightarrow> 1000 | Some r \<Rightarrow> if r = 0 then 1000 else r)"

definition changeLen :: "payment_opts \<Rightarrow> nat" where
  "changeLen opts = (case pay_changeScript opts of None \<Rightarrow> 0 | Some s \<Rightarrow> length s)"

text \<open>The fee the wallet estimates for a chosen set of coins.\<close>

definition paymentEstimate :: "payment_opts \<Rightarrow> coin list \<Rightarrow> int" where
  "paymentEstimate opts sel =
    estimatedFee (outputSum (pay_outputs opts)) (changeLen opts) (paymentRate opts) (length (pay_outputs opts)) (length sel) (coinSum sel)"

definition coinOutpoint :: "coin \<Rightarrow> string \<times> int \<times> int option" where
  "coinOutpoint c = (coin_txid c, coin_vout c, Some 0xffffffff)"

lemma outpointSeq_unsigned [simp]: "outpointSeq (unsignedInput t v) = (t, v, Some 0xffffffff)"
  by (simp add: outpointSeq_def unsignedInput_def)

text \<open>The change output: present exactly when the change clears dust.\<close>

definition changeOutput :: "payment_opts \<Rightarrow> int \<Rightarrow> tx_out list" where
  "changeOutput opts c = (case pay_changeScript opts of
     Some s \<Rightarrow> if c \<ge> DEFAULT_DUST_LIMIT then [\<lparr>out_value = c, out_scriptPubKey = s\<rparr>] else []
   | None \<Rightarrow> [])"

lemma buildPaymentTx_eq:
  "buildPaymentTx f opts =
    bindR (selectCoins (pay_inputs opts) (outputSum (pay_outputs opts)) (changeLen opts) (paymentRate opts) (length (pay_outputs opts))) (\<lambda>s.
     if sel_change s \<ge> DEFAULT_DUST_LIMIT \<and> pay_changeScript opts = None then Inl ''change of ''
     else if exceedsCap (sel_totalInput s - outputSum (pay_outputs opts @ changeOutput opts (sel_change s))) (pay_maxFee opts)
     then Inl ''refusing to build a transaction paying ''
     else signInputs f (sel_coins s) 0 \<lparr>tx_version = 1, tx_vin = map (\<lambda>c. unsignedInput (coin_txid c) (coin_vout c)) (sel_coins s),
       tx_vout = pay_outputs opts @ changeOutput opts (sel_change s), tx_locktime = 0\<rparr>)"
  unfolding buildPaymentTx_def paymentRate_def changeLen_def changeOutput_def Let_def ..

lemma buildPaymentTx_Inr:
  assumes "buildPaymentTx f opts = Inr tx"
  shows "\<exists>s. selectCoins (pay_inputs opts) (outputSum (pay_outputs opts)) (changeLen opts) (paymentRate opts) (length (pay_outputs opts)) = Inr s
    \<and> \<not> (sel_change s \<ge> DEFAULT_DUST_LIMIT \<and> pay_changeScript opts = None)
    \<and> \<not> exceedsCap (sel_totalInput s - outputSum (pay_outputs opts @ changeOutput opts (sel_change s))) (pay_maxFee opts)
    \<and> signInputs f (sel_coins s) 0 \<lparr>tx_version = 1, tx_vin = map (\<lambda>c. unsignedInput (coin_txid c) (coin_vout c)) (sel_coins s),
       tx_vout = pay_outputs opts @ changeOutput opts (sel_change s), tx_locktime = 0\<rparr> = Inr tx"
  using assms unfolding buildPaymentTx_eq bindR_eq_Inr if_eq_Inr by blast

lemma buildPaymentTx_skeleton:
  assumes "buildPaymentTx f opts = Inr tx"
  obtains sel where "mset sel \<subseteq># mset (pay_inputs opts)"
    "skeleton tx = (1, 0, map coinOutpoint sel, pay_outputs opts @ changeOutput opts (coinSum sel - outputSum (pay_outputs opts) - paymentEstimate opts sel))"
    "outputSum (pay_outputs opts) + paymentEstimate opts sel \<le> coinSum sel"
    "\<not> (coinSum sel - outputSum (pay_outputs opts) - paymentEstimate opts sel \<ge> DEFAULT_DUST_LIMIT \<and> pay_changeScript opts = None)"
    "\<not> exceedsCap (coinSum sel - outputSum (tx_vout tx)) (pay_maxFee opts)"
    "\<And>i. i < length sel \<Longrightarrow> signP2PKHInput f (coin_scriptCode (sel ! i)) (coin_privKey (sel ! i)) (coin_pubKey (sel ! i)) tx i SIGHASH_ALL
        = Inr (in_scriptSig (tx_vin tx ! i))"
proof -
  obtain s where s: "selectCoins (pay_inputs opts) (outputSum (pay_outputs opts)) (changeLen opts) (paymentRate opts) (length (pay_outputs opts)) = Inr s"
    and d: "\<not> (sel_change s \<ge> DEFAULT_DUST_LIMIT \<and> pay_changeScript opts = None)"
    and c: "\<not> exceedsCap (sel_totalInput s - outputSum (pay_outputs opts @ changeOutput opts (sel_change s))) (pay_maxFee opts)"
    and g: "signInputs f (sel_coins s) 0 \<lparr>tx_version = 1, tx_vin = map (\<lambda>c. unsignedInput (coin_txid c) (coin_vout c)) (sel_coins s),
       tx_vout = pay_outputs opts @ changeOutput opts (sel_change s), tx_locktime = 0\<rparr> = Inr tx"
    using buildPaymentTx_Inr [OF assms] by blast
  have sel: "sel_totalInput s = coinSum (sel_coins s)" "sel_fee s = paymentEstimate opts (sel_coins s)"
    "sel_change s = coinSum (sel_coins s) - outputSum (pay_outputs opts) - paymentEstimate opts (sel_coins s)" "0 \<le> sel_change s"
    by (rule selectCoins_Inr [OF s]; simp add: paymentEstimate_def)+
  note si = signInputs_Inr [OF g]
  have sk: "skeleton tx = (1, 0, map coinOutpoint (sel_coins s), pay_outputs opts @ changeOutput opts (sel_change s))"
    using si by (simp add: skeleton_def coinOutpoint_def o_def)
  then have vo: "tx_vout tx = pay_outputs opts @ changeOutput opts (sel_change s)" by (simp add: skeleton_def)
  show ?thesis
  proof (rule that [of "sel_coins s"])
    show "mset (sel_coins s) \<subseteq># mset (pay_inputs opts)" by (rule mset_selected [OF s])
    show "\<not> exceedsCap (coinSum (sel_coins s) - outputSum (tx_vout tx)) (pay_maxFee opts)" using c unfolding vo sel(1) .
    show "signP2PKHInput f (coin_scriptCode (sel_coins s ! i)) (coin_privKey (sel_coins s ! i)) (coin_pubKey (sel_coins s ! i)) tx i SIGHASH_ALL
        = Inr (in_scriptSig (tx_vin tx ! i))" if "i < length (sel_coins s)" for i using si that by simp
    show "outputSum (pay_outputs opts) + paymentEstimate opts (sel_coins s) \<le> coinSum (sel_coins s)" using sel(3,4) by linarith
    show "skeleton tx = (1, 0, map coinOutpoint (sel_coins s), pay_outputs opts
      @ changeOutput opts (coinSum (sel_coins s) - outputSum (pay_outputs opts) - paymentEstimate opts (sel_coins s)))"
      using sk unfolding sel(3) .
    show "\<not> (coinSum (sel_coins s) - outputSum (pay_outputs opts) - paymentEstimate opts (sel_coins s) \<ge> DEFAULT_DUST_LIMIT
      \<and> pay_changeScript opts = None)" using d unfolding sel(3) .
  qed
qed

lemma buildTransferTx_Inr:
  assumes "buildTransferTx f opts = Inr tx"
  shows "\<exists>og spk. originForSpend (pos_scriptCode (tr_input opts)) (pos_txid (tr_input opts)) (pos_vout (tr_input opts)) = Inr og
    \<and> buildTransferScript (tr_toPubkey opts) (tr_multiplier opts) og = Inr spk
    \<and> \<not> exceedsCap (case tr_fee opts of None \<Rightarrow> 50000 | Some f \<Rightarrow> f) (tr_maxFee opts)
    \<and> 0 < pos_value (tr_input opts) - (case tr_fee opts of None \<Rightarrow> 50000 | Some f \<Rightarrow> f)
    \<and> skeleton tx = (1, 0, [(pos_txid (tr_input opts), pos_vout (tr_input opts), Some 0xffffffff)],
        [\<lparr>out_value = pos_value (tr_input opts) - (case tr_fee opts of None \<Rightarrow> 50000 | Some f \<Rightarrow> f), out_scriptPubKey = spk\<rparr>])
    \<and> signSpend f (pos_scriptCode (tr_input opts)) (pos_privKey (tr_input opts)) tx 0 SIGHASH_ALL = Inr (in_scriptSig (tx_vin tx ! 0))"
proof -
  let ?f = "case tr_fee opts of None \<Rightarrow> 50000 | Some f \<Rightarrow> f" and ?i = "tr_input opts"
  let ?tx = "\<lambda>spk. \<lparr>tx_version = 1, tx_vin = [unsignedInput (pos_txid ?i) (pos_vout ?i)],
      tx_vout = [\<lparr>out_value = pos_value ?i - ?f, out_scriptPubKey = spk\<rparr>], tx_locktime = 0\<rparr>"
  obtain og spk where o: "originForSpend (pos_scriptCode ?i) (pos_txid ?i) (pos_vout ?i) = Inr og"
    "buildTransferScript (tr_toPubkey opts) (tr_multiplier opts) og = Inr spk" "\<not> exceedsCap ?f (tr_maxFee opts)" "\<not> pos_value ?i - ?f \<le> 0"
    and g: "signFirst f ?i (?tx spk) = Inr tx"
    using assms unfolding buildTransferTx_def Let_def bindR_eq_Inr if_eq_Inr by blast
  have "skeleton (?tx spk) = (1, 0, [(pos_txid ?i, pos_vout ?i, Some 0xffffffff)], tx_vout (?tx spk))" by (simp add: skeleton_def)
  with o signFirst_Inr [OF g] show ?thesis by (intro exI [of _ og] exI [of _ spk]) simp
qed

lemma buildMeltTx_Inr:
  assumes "buildMeltTx f opts = Inr tx"
  shows "\<exists>og spk rs. originForSpend (pos_scriptCode (melt_input opts)) (pos_txid (melt_input opts)) (pos_vout (melt_input opts)) = Inr og
    \<and> buildTransferScript (melt_toPubkey opts) (melt_multiplier opts) og = Inr spk
    \<and> melt_remainderScript opts = Some rs \<and> rs \<noteq> []
    \<and> \<not> exceedsCap (case melt_fee opts of None \<Rightarrow> 50000 | Some f \<Rightarrow> f) (melt_maxFee opts)
    \<and> DEFAULT_DUST_LIMIT \<le> pos_value (melt_input opts) - DEFAULT_DUST_LIMIT - (case melt_fee opts of None \<Rightarrow> 50000 | Some f \<Rightarrow> f)
    \<and> skeleton tx = (1, 0, [(pos_txid (melt_input opts), pos_vout (melt_input opts), Some 0xffffffff)],
        [\<lparr>out_value = DEFAULT_DUST_LIMIT, out_scriptPubKey = spk\<rparr>,
         \<lparr>out_value = pos_value (melt_input opts) - DEFAULT_DUST_LIMIT - (case melt_fee opts of None \<Rightarrow> 50000 | Some f \<Rightarrow> f), out_scriptPubKey = rs\<rparr>])
    \<and> signSpend f (pos_scriptCode (melt_input opts)) (pos_privKey (melt_input opts)) tx 0 SIGHASH_ALL = Inr (in_scriptSig (tx_vin tx ! 0))"
proof -
  let ?f = "case melt_fee opts of None \<Rightarrow> 50000 | Some f \<Rightarrow> f" and ?i = "melt_input opts"
  obtain rs where rs: "melt_remainderScript opts = Some rs"
    using assms by (cases "melt_remainderScript opts") (auto simp: buildMeltTx_def Let_def split: if_splits)
  let ?tx = "\<lambda>spk. \<lparr>tx_version = 1, tx_vin = [unsignedInput (pos_txid ?i) (pos_vout ?i)],
      tx_vout = [\<lparr>out_value = DEFAULT_DUST_LIMIT, out_scriptPubKey = spk\<rparr>,
        \<lparr>out_value = pos_value ?i - DEFAULT_DUST_LIMIT - ?f, out_scriptPubKey = rs\<rparr>], tx_locktime = 0\<rparr>"
  obtain og spk where o: "originForSpend (pos_scriptCode ?i) (pos_txid ?i) (pos_vout ?i) = Inr og"
    "buildTransferScript (melt_toPubkey opts) (melt_multiplier opts) og = Inr spk" "\<not> exceedsCap ?f (melt_maxFee opts)"
    "rs \<noteq> []" "\<not> pos_value ?i - DEFAULT_DUST_LIMIT - ?f < DEFAULT_DUST_LIMIT"
    and g: "signFirst f ?i (?tx spk) = Inr tx"
    using assms unfolding buildMeltTx_def Let_def rs option.case bindR_eq_Inr if_eq_Inr by blast
  have "skeleton (?tx spk) = (1, 0, [(pos_txid ?i, pos_vout ?i, Some 0xffffffff)], tx_vout (?tx spk))" by (simp add: skeleton_def)
  with o rs signFirst_Inr [OF g] show ?thesis by (intro exI [of _ og] exI [of _ spk] exI [of _ rs]) simp
qed

section \<open>Properties\<close>

text \<open>C21: A payment neither creates nor loses value. When a payment is built, its inputs are distinct
  entries of the offered coins, its outputs are the requested ones followed by the change
  output if there is one, and the inputs are worth exactly the outputs plus a fee. That fee is
  at least the estimate for the chosen coins and the relay minimum, exceeds the estimate by
  less than the dust limit (so no spendable change is given away), and respects the cap.\<close>

theorem payment_conserves_value:
  assumes "buildPaymentTx signSync opts = Inr tx"
  shows "\<exists>sel f c. mset sel \<subseteq># mset (pay_inputs opts) \<and> map outpointSeq (tx_vin tx) = map coinOutpoint sel
    \<and> tx_vout tx = pay_outputs opts @ changeOutput opts c
    \<and> coinSum sel = outputSum (tx_vout tx) + f
    \<and> paymentEstimate opts sel \<le> f \<and> f < paymentEstimate opts sel + DEFAULT_DUST_LIMIT
    \<and> RECOMMENDED_MIN_TX_FEE \<le> f \<and> \<not> exceedsCap f (pay_maxFee opts)"
proof -
  obtain sel where m: "mset sel \<subseteq># mset (pay_inputs opts)"
    and sk: "skeleton tx = (1, 0, map coinOutpoint sel, pay_outputs opts @ changeOutput opts (coinSum sel - outputSum (pay_outputs opts) - paymentEstimate opts sel))"
    and ge: "outputSum (pay_outputs opts) + paymentEstimate opts sel \<le> coinSum sel"
    and d: "\<not> (coinSum sel - outputSum (pay_outputs opts) - paymentEstimate opts sel \<ge> DEFAULT_DUST_LIMIT \<and> pay_changeScript opts = None)"
    and cap: "\<not> exceedsCap (coinSum sel - outputSum (tx_vout tx)) (pay_maxFee opts)"
    by (rule buildPaymentTx_skeleton [OF assms])
  define c where "c = coinSum sel - outputSum (pay_outputs opts) - paymentEstimate opts sel"
  have vo: "tx_vout tx = pay_outputs opts @ changeOutput opts c" using sk by (simp add: skeleton_def c_def)
  have s: "outputSum (changeOutput opts c) = (if c \<ge> DEFAULT_DUST_LIMIT then c else 0)"
    using d unfolding c_def [symmetric] by (auto simp: changeOutput_def outputSum_eq split: option.splits)
  let ?f = "coinSum sel - outputSum (tx_vout tx)"
  have dust: "0 < DEFAULT_DUST_LIMIT" by (simp add: DEFAULT_DUST_LIMIT_def RECOMMENDED_MIN_TX_FEE_def COIN_def)
  have "paymentEstimate opts sel \<le> ?f" "?f < paymentEstimate opts sel + DEFAULT_DUST_LIMIT"
    using vo s ge dust by (auto simp: c_def)
  moreover have "RECOMMENDED_MIN_TX_FEE \<le> paymentEstimate opts sel" unfolding paymentEstimate_def by (rule estimatedFee_min)
  moreover have "map outpointSeq (tx_vin tx) = map coinOutpoint sel" using sk by (simp add: skeleton_def)
  ultimately show ?thesis using m vo cap by (intro exI [of _ sel] exI [of _ ?f] exI [of _ c]) simp
qed

text \<open>C25: Every input of a built payment is validly signed for the finished transaction: the scriptSig
  stored at each input is the pay-to-pubkey-hash signature, with the coin's key, over the
  complete transaction with all other signatures in place.\<close>

theorem payment_signs_final_tx:
  assumes "buildPaymentTx signSync opts = Inr tx"
  shows "\<exists>sel. map outpointSeq (tx_vin tx) = map coinOutpoint sel \<and> mset sel \<subseteq># mset (pay_inputs opts)
    \<and> (\<forall>i<length sel. signP2PKHInput signSync (coin_scriptCode (sel ! i)) (coin_privKey (sel ! i)) (coin_pubKey (sel ! i)) tx i SIGHASH_ALL
        = Inr (in_scriptSig (tx_vin tx ! i)))"
  by (rule buildPaymentTx_skeleton [OF assms]) (auto simp: skeleton_def)

text \<open>C28: Coin selection fails only for lack of funds: it returns an error exactly when no non-empty
  prefix of the coins, smallest first, covers the amount plus the fee estimated for it, and
  the error is the insufficient-funds one.\<close>

theorem selection_fails_iff_insufficient:
  "selectCoins cs t l r n = Inl e \<longleftrightarrow>
    e = ''insufficient funds for transaction (cannot select enough UTXOs to cover target + fee)''
    \<and> (\<forall>j\<in>{1..length cs}. coinSum (take j (sort_key coin_value cs))
         < t + estimatedFee t l r n j (coinSum (take j (sort_key coin_value cs))))"
proof
  assume a: "selectCoins cs t l r n = Inl e"
  then have "selectLoop t l r n [] (coinSum []) (sort_key coin_value cs) = Inl e" by (simp add: selectCoins_def)
  from selectLoop_Inl [OF this] selectLoop_Inl_msg [OF this]
  show "e = ''insufficient funds for transaction (cannot select enough UTXOs to cover target + fee)''
    \<and> (\<forall>j\<in>{1..length cs}. coinSum (take j (sort_key coin_value cs))
         < t + estimatedFee t l r n j (coinSum (take j (sort_key coin_value cs))))" by auto
next
  assume a: "e = ''insufficient funds for transaction (cannot select enough UTXOs to cover target + fee)''
    \<and> (\<forall>j\<in>{1..length cs}. coinSum (take j (sort_key coin_value cs))
         < t + estimatedFee t l r n j (coinSum (take j (sort_key coin_value cs))))"
  show "selectCoins cs t l r n = Inl e"
  proof (cases "selectCoins cs t l r n")
    case (Inl e')
    then show ?thesis using a selectLoop_Inl_msg by (simp add: selectCoins_def)
  next
    case (Inr s)
    then obtain k where k: "0 < k" "k \<le> length cs" "sel_coins s = take k (sort_key coin_value cs)" "sel_totalInput s = coinSum (sel_coins s)"
      "sel_fee s = estimatedFee t l r n (length (sel_coins s)) (sel_totalInput s)" "sel_change s = sel_totalInput s - t - sel_fee s" "0 \<le> sel_change s"
      by (rule selectCoins_Inr)
    have "length (sel_coins s) = k" using k(2,3) by simp
    then have "t + estimatedFee t l r n k (coinSum (take k (sort_key coin_value cs))) \<le> coinSum (take k (sort_key coin_value cs))"
      using k(3-7) by simp
    moreover have "k \<in> {1..length cs}" using k by simp
    ultimately show ?thesis using a by (meson not_le)
  qed
qed

text \<open>C26: A transfer moves one position. The transaction spends exactly the position's outpoint, has one
  output worth the position minus the fee, which is positive and within the cap, and that
  output is a transfer covenant for the recipient and multiplier asked for which continues
  the position's lineage; the input is signed for the finished transaction.\<close>

theorem transfer_continues_position:
  assumes "buildTransferTx signSync opts = Inr tx" and "parseUapScript (pos_scriptCode (tr_input opts)) = Some u"
    and "length (tr_toPubkey opts) = 33 \<or> length (tr_toPubkey opts) = 65"
  shows "\<exists>og ou. map outpointSeq (tx_vin tx) = [(pos_txid (tr_input opts), pos_vout (tr_input opts), Some 0xffffffff)]
    \<and> tx_vout tx = [ou] \<and> 0 < out_value ou \<and> \<not> exceedsCap (pos_value (tr_input opts) - out_value ou) (tr_maxFee opts)
    \<and> out_value ou = pos_value (tr_input opts) - (case tr_fee opts of None \<Rightarrow> 50000 | Some f \<Rightarrow> f)
    \<and> parseUapScript (out_scriptPubKey ou) = Some \<lparr>pubkey = tr_toPubkey opts, multiplier = tr_multiplier opts, origin = og, isMint = False\<rparr>
    \<and> (if isMint u then deriveOrigin (pos_txid (tr_input opts)) (pos_vout (tr_input opts)) = Inr og else og = origin u)
    \<and> signSpend signSync (pos_scriptCode (tr_input opts)) (pos_privKey (tr_input opts)) tx 0 SIGHASH_ALL = Inr (in_scriptSig (tx_vin tx ! 0))"
proof -
  obtain og spk where o: "originForSpend (pos_scriptCode (tr_input opts)) (pos_txid (tr_input opts)) (pos_vout (tr_input opts)) = Inr og"
    and spk: "buildTransferScript (tr_toPubkey opts) (tr_multiplier opts) og = Inr spk"
    and r: "\<not> exceedsCap (case tr_fee opts of None \<Rightarrow> 50000 | Some f \<Rightarrow> f) (tr_maxFee opts)"
      "0 < pos_value (tr_input opts) - (case tr_fee opts of None \<Rightarrow> 50000 | Some f \<Rightarrow> f)"
      "skeleton tx = (1, 0, [(pos_txid (tr_input opts), pos_vout (tr_input opts), Some 0xffffffff)],
        [\<lparr>out_value = pos_value (tr_input opts) - (case tr_fee opts of None \<Rightarrow> 50000 | Some f \<Rightarrow> f), out_scriptPubKey = spk\<rparr>])"
      "signSpend signSync (pos_scriptCode (tr_input opts)) (pos_privKey (tr_input opts)) tx 0 SIGHASH_ALL = Inr (in_scriptSig (tx_vin tx ! 0))"
    using buildTransferTx_Inr [OF assms(1)] by blast
  have "parseUapScript spk = Some \<lparr>pubkey = tr_toPubkey opts, multiplier = tr_multiplier opts, origin = og, isMint = False\<rparr>"
    using parse_buildTransferScript [OF spk] assms(3) by (simp add: pubkeySize_def)
  moreover have "if isMint u then deriveOrigin (pos_txid (tr_input opts)) (pos_vout (tr_input opts)) = Inr og else og = origin u"
    using o parseUapScript_rebuild [OF assms(2)] by (auto simp: rebuildScript_def originForSpend_mint originForSpend_transfer)
  ultimately show ?thesis using r by (simp add: skeleton_def)
qed

text \<open>C27: A melt redeems a position without losing value. The outputs are a dust-valued transfer covenant
  of the same lineage and the remainder to the given script; they sum with the fee to the
  position's value, the remainder clears dust, and the fee respects the cap.\<close>

theorem melt_redeems_position:
  assumes "buildMeltTx signSync opts = Inr tx" and "parseUapScript (pos_scriptCode (melt_input opts)) = Some u"
    and "length (melt_toPubkey opts) = 33 \<or> length (melt_toPubkey opts) = 65"
  shows "\<exists>og cov rem. map outpointSeq (tx_vin tx) = [(pos_txid (melt_input opts), pos_vout (melt_input opts), Some 0xffffffff)]
    \<and> tx_vout tx = [cov, rem] \<and> out_value cov = DEFAULT_DUST_LIMIT \<and> DEFAULT_DUST_LIMIT \<le> out_value rem
    \<and> melt_remainderScript opts = Some (out_scriptPubKey rem)
    \<and> pos_value (melt_input opts) = outputSum (tx_vout tx) + (case melt_fee opts of None \<Rightarrow> 50000 | Some f \<Rightarrow> f)
    \<and> \<not> exceedsCap (case melt_fee opts of None \<Rightarrow> 50000 | Some f \<Rightarrow> f) (melt_maxFee opts)
    \<and> parseUapScript (out_scriptPubKey cov) = Some \<lparr>pubkey = melt_toPubkey opts, multiplier = melt_multiplier opts, origin = og, isMint = False\<rparr>
    \<and> (if isMint u then deriveOrigin (pos_txid (melt_input opts)) (pos_vout (melt_input opts)) = Inr og else og = origin u)"
proof -
  let ?f = "case melt_fee opts of None \<Rightarrow> 50000 | Some f \<Rightarrow> f"
  obtain og spk rs where o: "originForSpend (pos_scriptCode (melt_input opts)) (pos_txid (melt_input opts)) (pos_vout (melt_input opts)) = Inr og"
    and spk: "buildTransferScript (melt_toPubkey opts) (melt_multiplier opts) og = Inr spk"
    and r: "melt_remainderScript opts = Some rs" "\<not> exceedsCap ?f (melt_maxFee opts)"
      "DEFAULT_DUST_LIMIT \<le> pos_value (melt_input opts) - DEFAULT_DUST_LIMIT - ?f"
      "skeleton tx = (1, 0, [(pos_txid (melt_input opts), pos_vout (melt_input opts), Some 0xffffffff)],
        [\<lparr>out_value = DEFAULT_DUST_LIMIT, out_scriptPubKey = spk\<rparr>,
         \<lparr>out_value = pos_value (melt_input opts) - DEFAULT_DUST_LIMIT - ?f, out_scriptPubKey = rs\<rparr>])"
    using buildMeltTx_Inr [OF assms(1)] by blast
  have "parseUapScript spk = Some \<lparr>pubkey = melt_toPubkey opts, multiplier = melt_multiplier opts, origin = og, isMint = False\<rparr>"
    using parse_buildTransferScript [OF spk] assms(3) by (simp add: pubkeySize_def)
  moreover have "if isMint u then deriveOrigin (pos_txid (melt_input opts)) (pos_vout (melt_input opts)) = Inr og else og = origin u"
    using o parseUapScript_rebuild [OF assms(2)] by (auto simp: rebuildScript_def originForSpend_mint originForSpend_transfer)
  ultimately show ?thesis using r by (simp add: skeleton_def outputSum_eq)
qed

section \<open>Witnesses\<close>

text \<open>A signer that always succeeds; the hash it signs stays symbolic.\<close>

definition sampleSigner :: signer where
  "sampleSigner h k = Inr [0x30, 0x00]"

definition sampleCoin :: coin where
  "sampleCoin = \<lparr>coin_txid = replicate 64 (CHR ''0''), coin_vout = 1, coin_value = 1000000000, coin_scriptCode = [OP_1],
     coin_privKey = [7], coin_pubKey = [2]\<rparr>"

definition samplePayment :: payment_opts where
  "samplePayment = \<lparr>pay_inputs = [sampleCoin], pay_outputs = [\<lparr>out_value = 400000000, out_scriptPubKey = [OP_1]\<rparr>],
     pay_changeScript = Some [OP_1], pay_feeRate = None, pay_maxFee = DefaultCap\<rparr>"

lemma isTxid_zeros: "isTxid (replicate 64 (CHR ''0''))"
  by code_simp

lemma signSpend_sample:
  assumes "signedVerbatim s" "wfTx tx" "length s \<le> 0xffffffff" "n < length (tx_vin tx)"
  shows "\<exists>x. signSpend sampleSigner s k tx n SIGHASH_ALL = Inr x"
  using assms by (simp add: signSpend_def signatureHash_def sighashPreimage_all sampleSigner_def pushData_small)

lemma signP2PKH_sample:
  assumes "signedVerbatim s" "wfTx tx" "length s \<le> 0xffffffff" "n < length (tx_vin tx)"
  shows "\<exists>x. signP2PKHInput sampleSigner s k [2] tx n SIGHASH_ALL = Inr x"
  using assms by (simp add: signP2PKHInput_def signatureHash_def sighashPreimage_all sampleSigner_def pushData_small)

lemma sample_selection:
  "selectCoins [sampleCoin] 400000000 1 1000 1 = Inr \<lparr>sel_coins = [sampleCoin], sel_totalInput = 1000000000, sel_change = 599000000, sel_fee = 1000000\<rparr>"
  by code_simp

lemma sample_payment: "\<exists>tx. buildPaymentTx sampleSigner samplePayment = Inr tx"
proof -
  let ?tx = "\<lparr>tx_version = 1, tx_vin = [unsignedInput (replicate 64 (CHR ''0'')) 1],
    tx_vout = [\<lparr>out_value = 400000000, out_scriptPubKey = [OP_1]\<rparr>, \<lparr>out_value = 599000000, out_scriptPubKey = [OP_1]\<rparr>], tx_locktime = 0\<rparr>"
  have w: "wfTx ?tx" using isTxid_zeros by (simp add: wfTx_def wfIn_def wfOut_def unsignedInput_def MAX_SAFE_INTEGER_def)
  have v: "signedVerbatim [OP_1]" unfolding signedVerbatim_def by code_simp
  obtain x where x: "signP2PKHInput sampleSigner [OP_1] [7] [2] ?tx 0 SIGHASH_ALL = Inr x"
    using signP2PKH_sample [OF v w, of 0] by auto
  have "selectCoins (pay_inputs samplePayment) (outputSum (pay_outputs samplePayment)) (changeLen samplePayment)
      (paymentRate samplePayment) (length (pay_outputs samplePayment))
    = Inr \<lparr>sel_coins = [sampleCoin], sel_totalInput = 1000000000, sel_change = 599000000, sel_fee = 1000000\<rparr>"
    using sample_selection by (simp add: samplePayment_def outputSum_eq changeLen_def paymentRate_def)
  then show ?thesis using x
    by (simp add: buildPaymentTx_eq samplePayment_def sampleCoin_def changeOutput_def outputSum_eq
        DEFAULT_DUST_LIMIT_def DEFAULT_TRANSACTION_MAXFEE_def RECOMMENDED_MIN_TX_FEE_def COIN_def)
qed

theorem payment_conserves_value_witness:
  "\<exists>tx sel f. buildPaymentTx sampleSigner samplePayment = Inr tx \<and> coinSum sel = outputSum (tx_vout tx) + f
    \<and> RECOMMENDED_MIN_TX_FEE \<le> f"
proof -
  obtain tx where tx: "buildPaymentTx sampleSigner samplePayment = Inr tx" using sample_payment by blast
  from payment_conserves_value [OF tx] show ?thesis using tx by blast
qed

theorem payment_signs_final_tx_witness:
  "\<exists>tx sel. buildPaymentTx sampleSigner samplePayment = Inr tx \<and> map outpointSeq (tx_vin tx) = map coinOutpoint sel"
proof -
  obtain tx where tx: "buildPaymentTx sampleSigner samplePayment = Inr tx" using sample_payment by blast
  from payment_signs_final_tx [OF tx] show ?thesis using tx by blast
qed

theorem selection_fails_iff_insufficient_witness:
  "selectCoins [sampleCoin] 2000000000 1 1000 1
    = Inl ''insufficient funds for transaction (cannot select enough UTXOs to cover target + fee)''"
proof -
  have "coinSum (take 1 (sort_key coin_value [sampleCoin])) = 1000000000" by (simp add: sampleCoin_def)
  moreover have "1000000000 < 2000000000 + estimatedFee 2000000000 1 1000 1 1 1000000000" by code_simp
  ultimately show ?thesis
    using selection_fails_iff_insufficient [of "[sampleCoin]" 2000000000 1 1000 1] by simp
qed

text \<open>A position: the covenant of a one-byte-pattern key at multiplier 1.\<close>

definition samplePos :: bytes where
  "samplePos = 33 # replicate 33 2 @ [0x51, 32] @ replicate 32 9 @ [OP_MINT_TRANSFER]"

lemma parse_samplePos:
  "parseUapScript samplePos = Some \<lparr>pubkey = replicate 33 2, multiplier = 1, origin = replicate 32 9, isMint = False\<rparr>"
  by code_simp

lemma build_samplePos: "buildTransferScript (replicate 33 2) 1 (replicate 32 9) = Inr samplePos"
  by code_simp

definition samplePosition :: position_input where
  "samplePosition = \<lparr>pos_txid = replicate 64 (CHR ''0''), pos_vout = 1, pos_scriptCode = samplePos, pos_value = 5000000, pos_privKey = [7]\<rparr>"

lemma signedVerbatim_samplePos: "signedVerbatim samplePos"
  using serializeScriptCode_covenant [OF parse_samplePos] by (simp add: signedVerbatim_def)

lemma length_samplePos: "length samplePos = 69"
  by (simp add: samplePos_def)

lemma originForSpend_samplePos: "originForSpend samplePos t v = Inr (replicate 32 9)"
  by (rule originForSpend_transfer [OF build_samplePos])

lemma signFirst_sample:
  assumes "wfTx tx" "tx_vin tx \<noteq> []"
  shows "\<exists>x. signFirst sampleSigner samplePosition tx = Inr x"
  using signSpend_sample [OF signedVerbatim_samplePos assms(1), of 0 "[7]"] assms(2)
  by (auto simp: signFirst_def samplePosition_def length_samplePos)

definition sampleTransfer :: transfer_opts where
  "sampleTransfer = \<lparr>tr_input = samplePosition, tr_toPubkey = replicate 33 2, tr_multiplier = 1, tr_fee = None, tr_maxFee = DefaultCap\<rparr>"

lemma sample_transfer: "\<exists>tx. buildTransferTx sampleSigner sampleTransfer = Inr tx"
proof -
  let ?tx = "\<lparr>tx_version = 1, tx_vin = [unsignedInput (replicate 64 (CHR ''0'')) 1],
    tx_vout = [\<lparr>out_value = 4950000, out_scriptPubKey = samplePos\<rparr>], tx_locktime = 0\<rparr>"
  have "wfTx ?tx" using isTxid_zeros by (simp add: wfTx_def wfIn_def wfOut_def unsignedInput_def MAX_SAFE_INTEGER_def length_samplePos)
  from signFirst_sample [OF this] show ?thesis
    by (simp add: buildTransferTx_def sampleTransfer_def samplePosition_def originForSpend_samplePos build_samplePos
        DEFAULT_TRANSACTION_MAXFEE_def RECOMMENDED_MIN_TX_FEE_def COIN_def Let_def)
qed

theorem transfer_continues_position_witness:
  "\<exists>tx ou. buildTransferTx sampleSigner sampleTransfer = Inr tx \<and> tx_vout tx = [ou] \<and> 0 < out_value ou"
proof -
  obtain tx where tx: "buildTransferTx sampleSigner sampleTransfer = Inr tx" using sample_transfer by blast
  have "parseUapScript (pos_scriptCode (tr_input sampleTransfer)) = Some \<lparr>pubkey = replicate 33 2, multiplier = 1, origin = replicate 32 9, isMint = False\<rparr>"
    using parse_samplePos by (simp add: sampleTransfer_def samplePosition_def)
  from transfer_continues_position [OF tx this] show ?thesis using tx by (auto simp: sampleTransfer_def)
qed

definition sampleMelt :: melt_opts where
  "sampleMelt = \<lparr>melt_input = samplePosition, melt_toPubkey = replicate 33 2, melt_multiplier = 1, melt_remainderScript = Some [OP_1],
     melt_fee = None, melt_maxFee = DefaultCap\<rparr>"

lemma sample_melt: "\<exists>tx. buildMeltTx sampleSigner sampleMelt = Inr tx"
proof -
  let ?tx = "\<lparr>tx_version = 1, tx_vin = [unsignedInput (replicate 64 (CHR ''0'')) 1],
    tx_vout = [\<lparr>out_value = 1000000, out_scriptPubKey = samplePos\<rparr>, \<lparr>out_value = 3950000, out_scriptPubKey = [OP_1]\<rparr>], tx_locktime = 0\<rparr>"
  have "wfTx ?tx" using isTxid_zeros by (simp add: wfTx_def wfIn_def wfOut_def unsignedInput_def MAX_SAFE_INTEGER_def length_samplePos)
  from signFirst_sample [OF this] show ?thesis
    by (simp add: buildMeltTx_def sampleMelt_def samplePosition_def originForSpend_samplePos build_samplePos
        DEFAULT_DUST_LIMIT_def DEFAULT_TRANSACTION_MAXFEE_def RECOMMENDED_MIN_TX_FEE_def COIN_def Let_def)
qed

theorem melt_redeems_position_witness:
  "\<exists>tx cov rem. buildMeltTx sampleSigner sampleMelt = Inr tx \<and> tx_vout tx = [cov, rem] \<and> out_value cov = DEFAULT_DUST_LIMIT"
proof -
  obtain tx where tx: "buildMeltTx sampleSigner sampleMelt = Inr tx" using sample_melt by blast
  have "parseUapScript (pos_scriptCode (melt_input sampleMelt)) = Some \<lparr>pubkey = replicate 33 2, multiplier = 1, origin = replicate 32 9, isMint = False\<rparr>"
    using parse_samplePos by (simp add: sampleMelt_def samplePosition_def)
  from melt_redeems_position [OF tx this] show ?thesis using tx by (auto simp: sampleMelt_def)
qed

end
