(* ===== verification/Orders.thy ===== *)
theory Orders
  imports Payment
begin

text \<open>
  The marketplace primitives of \<^verbatim>\<open>contrib/uap-js/uap.js\<close>: \<^verbatim>\<open>signMakerOrder\<close>, \<^verbatim>\<open>fillOrder\<close>,
  \<^verbatim>\<open>cancelMessage\<close> and \<^verbatim>\<open>signCancelOrder\<close>, with the relay's own \<^verbatim>\<open>cancelMessage\<close>
  (\<^verbatim>\<open>contrib/uap-indexer/cancel_auth.go\<close>) beside the wallet's.

  Shows that a maker's signature stays valid in every transaction a taker completes from the
  order, that the taker's token output continues the lineage, and that a cancellation message
  determines the order it cancels and is the one the relay verifies.
\<close>

section \<open>Model\<close>

record maker_opts =
  mk_txid :: string
  mk_vout :: int
  mk_scriptCode :: bytes
  mk_privKey :: bytes
  mk_paymentScript :: bytes
  mk_paymentValue :: int

text \<open>
  An order as a taker receives it. \<^verbatim>\<open>signMakerOrder\<close> fills the first fields; \<open>ord_origin\<close> is
  the lineage a relay publishes with it and \<open>ord_scriptCode\<close> the maker's script when known.
\<close>

record order =
  ord_scriptSig :: bytes
  ord_txid :: string
  ord_vout :: int
  ord_paymentScript :: "bytes option"
  ord_paymentValue :: int
  ord_origin :: "bytes option"
  ord_scriptCode :: bytes

definition signMakerOrder :: "signer \<Rightarrow> maker_opts \<Rightarrow> order result" where
  "signMakerOrder signSync opts =
    (let tx = \<lparr>tx_version = 1, tx_vin = [unsignedInput (mk_txid opts) (mk_vout opts)],
               tx_vout = [\<lparr>out_value = mk_paymentValue opts, out_scriptPubKey = mk_paymentScript opts\<rparr>], tx_locktime = 0\<rparr>;
         hashType = sint (toInt32 SIGHASH_SINGLE OR toInt32 SIGHASH_ANYONECANPAY)
     in bindR (signSpend signSync (mk_scriptCode opts) (mk_privKey opts) tx 0 hashType) (\<lambda>scriptSig.
        Inr \<lparr>ord_scriptSig = scriptSig, ord_txid = mk_txid opts, ord_vout = mk_vout opts,
             ord_paymentScript = Some (mk_paymentScript opts), ord_paymentValue = mk_paymentValue opts,
             ord_origin = None, ord_scriptCode = []\<rparr>))"

record fill_opts =
  fill_toPubkey :: bytes
  fill_multiplier :: int
  fill_tokenValue :: int
  fill_takerInputs :: "(string \<times> int) list"
  fill_changeScript :: bytes
  fill_changeValue :: int

definition fillOrder :: "order \<Rightarrow> fill_opts \<Rightarrow> transaction result" where
  "fillOrder order opts =
    bindR (case ord_origin order of
             Some og \<Rightarrow> Inr og
           | None \<Rightarrow> originForSpend (ord_scriptCode order) (ord_txid order) (ord_vout order)) (\<lambda>origin.
    if length origin \<noteq> 32 then Inl ''fillOrder needs the order's 32-byte lineage origin''
    else
      bindR (buildTransferScript (fill_toPubkey opts) (fill_multiplier opts) origin) (\<lambda>spk.
      Inr \<lparr>tx_version = 1,
        tx_vin = (unsignedInput (ord_txid order) (ord_vout order))\<lparr>in_scriptSig := ord_scriptSig order\<rparr>
          # map (\<lambda>(txid, vout). unsignedInput txid vout) (fill_takerInputs opts),
        tx_vout = (case ord_paymentScript order of
            Some s \<Rightarrow> [\<lparr>out_value = ord_paymentValue order, out_scriptPubKey = s\<rparr>]
          | None \<Rightarrow> []) @ [\<lparr>out_value = fill_tokenValue opts, out_scriptPubKey = spk\<rparr>]
          @ (if fill_changeValue opts \<noteq> 0
             then [\<lparr>out_value = fill_changeValue opts, out_scriptPubKey = fill_changeScript opts\<rparr>] else []),
        tx_locktime = 0\<rparr>))"

section \<open>Cancellation\<close>

text \<open>A number in a template literal.\<close>

fun decNat :: "nat \<Rightarrow> string" where
  "decNat n = (if n < 10 then [char_of (48 + n)] else decNat (n div 10) @ [char_of (48 + n mod 10)])"

declare decNat.simps [simp del]

definition decInt :: "int \<Rightarrow> string" where
  "decInt n = (if n < 0 then CHR ''-'' # decNat (nat (- n)) else decNat (nat n))"

definition CANCEL_DOMAIN :: string where
  "CANCEL_DOMAIN = ''whippet-uap-cancel-order-v1''"

abbreviation newline :: char where "newline \<equiv> CHR 0x0A"

definition cancelMessage :: "string \<Rightarrow> int \<Rightarrow> string \<Rightarrow> string \<Rightarrow> bytes" where
  "cancelMessage txid vout scriptSigHex cancelNonce =
    textEncode (CANCEL_DOMAIN @ [newline] @ txid @ [newline] @ decInt vout @ [newline] @ scriptSigHex @ [newline] @ cancelNonce)"

definition signCancelOrder :: "signer \<Rightarrow> string \<Rightarrow> int \<Rightarrow> string \<Rightarrow> string \<Rightarrow> bytes \<Rightarrow> string result" where
  "signCancelOrder signSync txid vout scriptSig cancelNonce privKey =
    (let message = cancelMessage txid vout scriptSig cancelNonce; hash = hash256 message in
     mapR bytesToHex (signSync hash privKey))"

text \<open>The relay's side: Go strings are bytes, the output index is 32 bits, the nonce a signed 64-bit number.\<close>

definition relayCancelMessage :: "bytes \<Rightarrow> 32 word \<Rightarrow> bytes \<Rightarrow> 64 word \<Rightarrow> bytes" where
  "relayCancelMessage txid vout scriptSigHex cancelNonce =
    map charByte CANCEL_DOMAIN @ [0x0a] @ txid @ [0x0a] @ map charByte (decNat (unat vout)) @ [0x0a]
      @ scriptSigHex @ [0x0a] @ map charByte (decInt (sint cancelNonce))"

section \<open>Lemmas: text\<close>

definition isDigit :: "char \<Rightarrow> bool" where
  "isDigit c \<longleftrightarrow> 48 \<le> (of_char c :: nat) \<and> of_char c \<le> (57 :: nat)"

lemma isDigit_char_of: "(d :: nat) < 10 \<Longrightarrow> isDigit (char_of (48 + d))"
  by (simp add: isDigit_def)

lemma decNat_digits: "c \<in> set (decNat n) \<Longrightarrow> isDigit c"
proof (induction n rule: decNat.induct)
  case (1 n)
  then show ?case by (subst (asm) decNat.simps) (auto split: if_splits intro: isDigit_char_of)
qed

lemma decNat_ne: "decNat n \<noteq> []"
  by (subst decNat.simps) simp

definition decVal :: "string \<Rightarrow> nat" where
  "decVal s = foldl (\<lambda>a c. 10 * a + (of_char c - 48)) 0 s"

lemma decVal_decNat [simp]: "decVal (decNat n) = n"
proof (induction n rule: decNat.induct)
  case (1 n)
  show ?case
  proof (cases "n < 10")
    case True
    then show ?thesis by (simp add: decNat.simps decVal_def)
  next
    case False
    with 1 have "decVal (decNat (n div 10)) = n div 10" by simp
    with False show ?thesis by (subst decNat.simps) (simp add: decVal_def)
  qed
qed

lemma decInt_inj: "decInt a = decInt b \<Longrightarrow> a = b"
proof -
  assume e: "decInt a = decInt b"
  have h: "hd (decNat n) \<noteq> CHR ''-''" for n
  proof -
    have "isDigit (hd (decNat n))" using decNat_digits decNat_ne by (metis list.set_sel(1))
    then show ?thesis by (auto simp: isDigit_def)
  qed
  consider "a < 0" "b < 0" | "a < 0" "0 \<le> b" | "0 \<le> a" "b < 0" | "0 \<le> a" "0 \<le> b" by linarith
  then show "a = b"
  proof cases
    case 1
    with e have "decNat (nat (- a)) = decNat (nat (- b))" by (simp add: decInt_def)
    then have "nat (- a) = nat (- b)" by (metis decVal_decNat)
    with 1 show ?thesis by linarith
  next
    case 2
    with e h [of "nat b"] show ?thesis by (auto simp: decInt_def dest: arg_cong [where f = hd])
  next
    case 3
    with e h [of "nat a"] show ?thesis by (auto simp: decInt_def dest: arg_cong [where f = hd])
  next
    case 4
    with e have "nat a = nat b" by (simp add: decInt_def) (metis decVal_decNat)
    with 4 show ?thesis by linarith
  qed
qed

lemma decInt_no_newline: "newline \<notin> set (decInt n)"
  using decNat_digits [of newline] by (auto simp: decInt_def isDigit_def)

text \<open>UTF-8 text determines its characters.\<close>

lemma utf8Char_decode:
  "utf8Char c = (if (of_char c :: nat) < 128 then [of_nat (of_char c)] else [of_nat (192 + of_char c div 64), of_nat (128 + of_char c mod 64)])"
  by (simp add: utf8Char_def Let_def)

lemma utf8Char_prefix:
  assumes "utf8Char c @ r = utf8Char d @ r'"
  shows "c = d \<and> r = r'"
proof -
  let ?n = "of_char c :: nat" and ?m = "of_char d :: nat"
  have b: "?n < 256" "?m < 256" by simp_all
  have u: "unat (of_nat k :: byte) = k" if "k < 256" for k using that by (rule unat_of_nat8)
  have e: "(of_nat k :: byte) = of_nat j \<longleftrightarrow> k = j" if "k < 256" "j < 256" for k j using u that by metis
  have q: "192 + ?n div 64 < 256" "192 + ?m div 64 < 256" "128 + ?n mod 64 < 256" "128 + ?m mod 64 < 256" using b less_mult_imp_div_less [of ?n 4 64] less_mult_imp_div_less [of ?m 4 64] by simp_all
  have "?n = ?m \<and> r = r'"
  proof (cases "?n < 128"; cases "?m < 128")
    assume "?n < 128" "?m < 128"
    then show ?thesis using assms e [of ?n ?m] b by (simp add: utf8Char_decode)
  next
    assume "?n < 128" "\<not> ?m < 128"
    then show ?thesis using assms e [of ?n "192 + ?m div 64"] b q by (simp add: utf8Char_decode del: of_nat_add)
  next
    assume "\<not> ?n < 128" "?m < 128"
    then show ?thesis using assms e [of "192 + ?n div 64" ?m] b q by (simp add: utf8Char_decode del: of_nat_add)
  next
    assume "\<not> ?n < 128" "\<not> ?m < 128"
    then have "?n div 64 = ?m div 64" "?n mod 64 = ?m mod 64" "r = r'"
      using assms e [of "192 + ?n div 64" "192 + ?m div 64"] e [of "128 + ?n mod 64" "128 + ?m mod 64"] b q
      by (simp_all add: utf8Char_decode del: of_nat_add)
    then show ?thesis by (metis div_mult_mod_eq)
  qed
  then show ?thesis by (metis char_of_char)
qed

lemma utf8Char_ne: "utf8Char c \<noteq> []"
  by (simp add: utf8Char_def Let_def)

lemma textEncode_inj: "textEncode a = textEncode b \<Longrightarrow> a = b"
proof (induction a arbitrary: b)
  case Nil
  then show ?case using utf8Char_ne by (cases b) (auto simp: textEncode_def)
next
  case (Cons c a)
  then obtain d b' where b: "b = d # b'" using utf8Char_ne by (cases b) (auto simp: textEncode_def)
  then have "utf8Char c @ textEncode a = utf8Char d @ textEncode b'" using Cons.prems by (simp add: textEncode_def)
  from utf8Char_prefix [OF this] Cons.IH b show ?case by blast
qed

lemma textEncode_ascii: "\<forall>c\<in>set s. (of_char c :: nat) < 128 \<Longrightarrow> textEncode s = map charByte s"
  by (induction s) (auto simp: textEncode_def utf8Char_decode charByte_def)

lemma split_at_newline:
  assumes "a @ newline # r = b @ newline # r'" "newline \<notin> set a" "newline \<notin> set b"
  shows "a = b \<and> r = r'"
  using assms
proof (induction a arbitrary: b)
  case Nil
  then show ?case by (cases b) auto
next
  case (Cons x a)
  then show ?case by (cases b) auto
qed

section \<open>Lemmas: orders\<close>

lemma makerHashType [simp]: "sint (toInt32 SIGHASH_SINGLE OR toInt32 SIGHASH_ANYONECANPAY) = 0x83"
  by (simp add: toInt32_def)

text \<open>The transaction the maker signs.\<close>

definition makerTx :: "maker_opts \<Rightarrow> transaction" where
  "makerTx opts = \<lparr>tx_version = 1, tx_vin = [unsignedInput (mk_txid opts) (mk_vout opts)],
     tx_vout = [\<lparr>out_value = mk_paymentValue opts, out_scriptPubKey = mk_paymentScript opts\<rparr>], tx_locktime = 0\<rparr>"

lemma signMakerOrder_Inr:
  "signMakerOrder f opts = Inr ord \<longleftrightarrow> (\<exists>s. signSpend f (mk_scriptCode opts) (mk_privKey opts) (makerTx opts) 0 0x83 = Inr s
    \<and> ord = \<lparr>ord_scriptSig = s, ord_txid = mk_txid opts, ord_vout = mk_vout opts, ord_paymentScript = Some (mk_paymentScript opts),
        ord_paymentValue = mk_paymentValue opts, ord_origin = None, ord_scriptCode = []\<rparr>)"
  unfolding signMakerOrder_def Let_def makerHashType makerTx_def [symmetric] by (auto simp: result_simps)

lemma fillOrder_Inr:
  assumes "fillOrder ord opts = Inr tx"
  shows "\<exists>og spk. (case ord_origin ord of Some og \<Rightarrow> Inr og | None \<Rightarrow> originForSpend (ord_scriptCode ord) (ord_txid ord) (ord_vout ord)) = Inr og
    \<and> length og = 32 \<and> buildTransferScript (fill_toPubkey opts) (fill_multiplier opts) og = Inr spk
    \<and> tx_version tx = 1 \<and> tx_locktime tx = 0
    \<and> tx_vin tx = (unsignedInput (ord_txid ord) (ord_vout ord))\<lparr>in_scriptSig := ord_scriptSig ord\<rparr>
          # map (\<lambda>(txid, vout). unsignedInput txid vout) (fill_takerInputs opts)
    \<and> tx_vout tx = (case ord_paymentScript ord of Some s \<Rightarrow> [\<lparr>out_value = ord_paymentValue ord, out_scriptPubKey = s\<rparr>] | None \<Rightarrow> [])
          @ [\<lparr>out_value = fill_tokenValue opts, out_scriptPubKey = spk\<rparr>]
          @ (if fill_changeValue opts \<noteq> 0 then [\<lparr>out_value = fill_changeValue opts, out_scriptPubKey = fill_changeScript opts\<rparr>] else [])"
  using assms unfolding fillOrder_def bindR_eq_Inr if_eq_Inr by auto

lemma fill_keeps_maker_signature:
  assumes "signMakerOrder sig mk = Inr ord" and "fillOrder (ord\<lparr>ord_origin := Some og\<rparr>) opts = Inr tx"
    and "length (fill_toPubkey opts) = 33 \<or> length (fill_toPubkey opts) = 65"
  shows "signSpend sig (mk_scriptCode mk) (mk_privKey mk) tx 0 0x83 = Inr (in_scriptSig (tx_vin tx ! 0))
    \<and> tx_vout tx ! 0 = \<lparr>out_value = mk_paymentValue mk, out_scriptPubKey = mk_paymentScript mk\<rparr>
    \<and> out_value (tx_vout tx ! 1) = fill_tokenValue opts
    \<and> parseUapScript (out_scriptPubKey (tx_vout tx ! 1))
        = Some \<lparr>pubkey = fill_toPubkey opts, multiplier = fill_multiplier opts, origin = og, isMint = False\<rparr>"
proof -
  obtain s where s: "signSpend sig (mk_scriptCode mk) (mk_privKey mk) (makerTx mk) 0 0x83 = Inr s"
    and ord: "ord = \<lparr>ord_scriptSig = s, ord_txid = mk_txid mk, ord_vout = mk_vout mk, ord_paymentScript = Some (mk_paymentScript mk),
        ord_paymentValue = mk_paymentValue mk, ord_origin = None, ord_scriptCode = []\<rparr>"
    using assms(1) by (auto simp: signMakerOrder_Inr)
  obtain spk where spk: "buildTransferScript (fill_toPubkey opts) (fill_multiplier opts) og = Inr spk"
    and tx: "tx_version tx = 1" "tx_locktime tx = 0"
      "tx_vin tx = (unsignedInput (mk_txid mk) (mk_vout mk))\<lparr>in_scriptSig := s\<rparr> # map (\<lambda>(txid, vout). unsignedInput txid vout) (fill_takerInputs opts)"
      "\<exists>rest. tx_vout tx = \<lparr>out_value = mk_paymentValue mk, out_scriptPubKey = mk_paymentScript mk\<rparr>
         # \<lparr>out_value = fill_tokenValue opts, out_scriptPubKey = spk\<rparr> # rest"
    using fillOrder_Inr [OF assms(2)] by (auto simp: ord)
  have "outpointSeq (tx_vin tx ! 0) = outpointSeq (tx_vin (makerTx mk) ! 0)" using tx(3) by (simp add: makerTx_def outpointSeq_def)
  then have "signatureHash (mk_scriptCode mk) tx 0 0x83 = signatureHash (mk_scriptCode mk) (makerTx mk) 0 0x83"
    using tx by (intro sighash_single_acp_cong) (auto simp: makerTx_def)
  then have "signSpend sig (mk_scriptCode mk) (mk_privKey mk) tx 0 0x83 = Inr s" using s by (simp add: signSpend_def)
  moreover have "parseUapScript spk = Some \<lparr>pubkey = fill_toPubkey opts, multiplier = fill_multiplier opts, origin = og, isMint = False\<rparr>"
    using parse_buildTransferScript [OF spk] assms(3) by (simp add: pubkeySize_def)
  ultimately show ?thesis using tx(3,4) by auto
qed

section \<open>Properties\<close>

text \<open>C22: A maker's order can be filled by anyone without the maker. Take any order a maker signed,
  with the lineage a relay adds to it, and any transaction a taker completes from it: the
  maker's scriptSig in that transaction is exactly the signature the maker would produce over
  it, the first output pays the maker the asking price, and the second carries the token on
  with the published lineage.\<close>

theorem maker_signature_survives_fill:
  assumes "signMakerOrder sig mk = Inr ord" and "fillOrder (ord\<lparr>ord_origin := Some og\<rparr>) opts = Inr tx"
    and "length (fill_toPubkey opts) = 33 \<or> length (fill_toPubkey opts) = 65"
  shows "signSpend sig (mk_scriptCode mk) (mk_privKey mk) tx 0 0x83 = Inr (in_scriptSig (tx_vin tx ! 0))
    \<and> tx_vout tx ! 0 = \<lparr>out_value = mk_paymentValue mk, out_scriptPubKey = mk_paymentScript mk\<rparr>
    \<and> out_value (tx_vout tx ! 1) = fill_tokenValue opts
    \<and> parseUapScript (out_scriptPubKey (tx_vout tx ! 1))
        = Some \<lparr>pubkey = fill_toPubkey opts, multiplier = fill_multiplier opts, origin = og, isMint = False\<rparr>"
  by (rule fill_keeps_maker_signature [OF assms])

text \<open>C36: A cancellation message names one order: for transaction ids and scriptSigs that contain no line
  break, equal messages mean equal outpoint, scriptSig and nonce, so a cancel signature cannot
  be replayed against another order or a later publication of the same one.\<close>

theorem cancel_message_injective:
  assumes "cancelMessage t v s n = cancelMessage t' v' s' n'"
    and "newline \<notin> set t" "newline \<notin> set t'" "newline \<notin> set s" "newline \<notin> set s'"
  shows "t = t' \<and> v = v' \<and> s = s' \<and> n = n'"
proof -
  have 1: "t @ newline # (decInt v @ newline # (s @ newline # n)) = t' @ newline # (decInt v' @ newline # (s' @ newline # n'))"
    using textEncode_inj [OF assms(1) [unfolded cancelMessage_def]] by simp
  from split_at_newline [OF 1 assms(2,3)]
  have 2: "t = t'" "decInt v @ newline # (s @ newline # n) = decInt v' @ newline # (s' @ newline # n')" by auto
  from split_at_newline [OF 2(2) decInt_no_newline decInt_no_newline]
  have 3: "decInt v = decInt v'" "s @ newline # n = s' @ newline # n'" by auto
  from split_at_newline [OF 3(2) assms(4,5)] show ?thesis using 2 decInt_inj [OF 3(1)] by simp
qed

theorem cancel_message_injective_witness:
  "cancelMessage ''aa'' 1 ''bb'' ''7'' \<noteq> cancelMessage ''aa'' 11 ''bb'' ''7''"
  using cancel_message_injective [of "''aa''" 1 "''bb''" "''7''" "''aa''" 11 "''bb''" "''7''"] by auto

text \<open>C37: Wallet and relay build the same cancellation message: for ASCII fields, an output index that
  fits 32 bits and the nonce in the decimal form the relay sends, the bytes the wallet signs are
  those the relay reconstructs.\<close>

theorem cancel_message_agrees:
  assumes "\<forall>c\<in>set txid. (of_char c :: nat) < 128" "\<forall>c\<in>set scriptSig. (of_char c :: nat) < 128" "0 \<le> vout" "vout \<le> 0xffffffff"
  shows "cancelMessage txid vout scriptSig (decInt (sint nonce))
    = relayCancelMessage (map charByte txid) (of_int vout) (map charByte scriptSig) nonce"
proof -
  have d: "(of_char c :: nat) < 128" if "c \<in> set (decNat k)" for c k
    using that decNat_digits by (fastforce simp: isDigit_def)
  have c: "\<forall>c\<in>set CANCEL_DOMAIN. (of_char c :: nat) < 128" by code_simp
  have v: "unat (of_int vout :: 32 word) = nat vout" using assms(3,4) unat_of_nat32 [of "nat vout"] by simp
  show ?thesis
    unfolding cancelMessage_def relayCancelMessage_def v
    using assms c d by (subst textEncode_ascii) (auto simp: decInt_def charByte_def)
qed

theorem cancel_message_agrees_witness:
  "cancelMessage ''ab'' 7 ''cd'' (decInt (sint (12 :: 64 word)))
    = relayCancelMessage (map charByte ''ab'') (of_int 7) (map charByte ''cd'') 12"
  by (rule cancel_message_agrees) simp_all

definition sampleMaker :: maker_opts where
  "sampleMaker = \<lparr>mk_txid = replicate 64 (CHR ''0''), mk_vout = 1, mk_scriptCode = samplePos, mk_privKey = [7],
     mk_paymentScript = [OP_1], mk_paymentValue = 5\<rparr>"

definition sampleFill :: fill_opts where
  "sampleFill = \<lparr>fill_toPubkey = replicate 33 2, fill_multiplier = 1, fill_tokenValue = 5000000, fill_takerInputs = [],
     fill_changeScript = [], fill_changeValue = 0\<rparr>"

lemma serializeTx_maker:
  assumes "signedVerbatim s"
  shows "serializeTx (sighashTx s (makerTx mk) 0 0x83) = serializeTx (allTx s (makerTx mk) 0)"
proof -
  have "serializeInput (sighashInput s (makerTx mk) 0 0x83 0) = serializeInput (allInput s 0 0 (tx_vin (makerTx mk) ! 0))"
    using assms by (intro serializeInput_cong) (simp_all add: sighashInput_def allInput_def signedVerbatim_def Let_def)
  then show ?thesis
    by (simp add: serializeTx_def sighashTx_def allTx_def sighashOutputs_def makerTx_def)
qed

lemma sample_maker: "\<exists>s. signSpend sampleSigner samplePos [7] (makerTx sampleMaker) 0 0x83 = Inr s"
proof -
  have "wfTx (makerTx sampleMaker)"
    using isTxid_zeros by (simp add: makerTx_def sampleMaker_def unsignedInput_def wfTx_def wfIn_def wfOut_def MAX_SAFE_INTEGER_def)
  then have "wfTx (allTx samplePos (makerTx sampleMaker) 0)" by (rule wfTx_allTx) (simp add: length_samplePos)
  then show ?thesis
    using serializeTx_maker [OF signedVerbatim_samplePos]
    by (simp add: signSpend_def signatureHash_def sighashPreimage_def serializeTx_wf sampleSigner_def pushData_small makerTx_def)
qed

theorem maker_signature_survives_fill_witness:
  "\<exists>ord tx. signMakerOrder sampleSigner sampleMaker = Inr ord
    \<and> fillOrder (ord\<lparr>ord_origin := Some (replicate 32 9)\<rparr>) sampleFill = Inr tx
    \<and> signSpend sampleSigner samplePos [7] tx 0 0x83 = Inr (in_scriptSig (tx_vin tx ! 0))"
proof -
  obtain s where s: "signSpend sampleSigner samplePos [7] (makerTx sampleMaker) 0 0x83 = Inr s" using sample_maker by blast
  then obtain ord where ord: "signMakerOrder sampleSigner sampleMaker = Inr ord" by (auto simp: signMakerOrder_Inr sampleMaker_def)
  obtain tx where tx: "fillOrder (ord\<lparr>ord_origin := Some (replicate 32 9)\<rparr>) sampleFill = Inr tx"
    using build_samplePos by (simp add: fillOrder_def sampleFill_def)
  have "length (fill_toPubkey sampleFill) = 33 \<or> length (fill_toPubkey sampleFill) = 65" by (simp add: sampleFill_def)
  from maker_signature_survives_fill [OF ord tx this] ord tx show ?thesis by (auto simp: sampleMaker_def)
qed

end
