(* ===== verification/Jsval.thy ===== *)
theory Jsval
  imports Hex
begin

text \<open>
  The values the web wallet receives from outside: a JSON answer of the relay, a form field, a
  byte array. The planners of \<^verbatim>\<open>contrib/uap-web\<close> inspect them with \<^verbatim>\<open>typeof\<close>,
  \<^verbatim>\<open>Number.isInteger\<close>, \<^verbatim>\<open>Array.isArray\<close> and truthiness before they use them, so the model keeps
  the untyped value and these tests. A finite number is a rational; \<^verbatim>\<open>NaN\<close> and the infinities
  are one value, as every use tests for them first. Strings hold the characters of the model.
\<close>

section \<open>Model\<close>

datatype jsval =
    JUndef
  | JNull
  | JBool bool
  | JNum rat
  | JNonFinite
  | JStr string
  | JBytes "8 word list"
  | JArr "jsval list"
  | JObj "(string \<times> jsval) list"

text \<open>\<^verbatim>\<open>v.field\<close>, on a value that is not \<^verbatim>\<open>null\<close> or \<^verbatim>\<open>undefined\<close>.\<close>

fun getField :: "jsval \<Rightarrow> string \<Rightarrow> jsval" where
  "getField (JObj fs) f = (case map_of fs f of Some v \<Rightarrow> v | None \<Rightarrow> JUndef)"
| "getField _ f = JUndef"

fun truthy :: "jsval \<Rightarrow> bool" where
  "truthy JUndef = False"
| "truthy JNull = False"
| "truthy (JBool b) = b"
| "truthy (JNum r) = (r \<noteq> 0)"
| "truthy JNonFinite = True"
| "truthy (JStr s) = (s \<noteq> [])"
| "truthy (JBytes b) = True"
| "truthy (JArr vs) = True"
| "truthy (JObj fs) = True"

text \<open>\<^verbatim>\<open>v && typeof v === 'object'\<close>\<close>

fun isObject :: "jsval \<Rightarrow> bool" where
  "isObject (JBytes b) = True"
| "isObject (JArr vs) = True"
| "isObject (JObj fs) = True"
| "isObject _ = False"

text \<open>\<^verbatim>\<open>Number.isInteger(v)\<close>, and the integer.\<close>

fun asInteger :: "jsval \<Rightarrow> int option" where
  "asInteger (JNum r) = (if of_int \<lfloor>r\<rfloor> = r then Some \<lfloor>r\<rfloor> else None)"
| "asInteger _ = None"

fun asString :: "jsval \<Rightarrow> string option" where
  "asString (JStr s) = Some s"
| "asString _ = None"

text \<open>\<^verbatim>\<open>typeof v === 'number'\<close> and \<^verbatim>\<open>typeof v === 'string'\<close>\<close>

fun isNumber :: "jsval \<Rightarrow> bool" where
  "isNumber (JNum r) = True"
| "isNumber JNonFinite = True"
| "isNumber _ = False"

fun isString :: "jsval \<Rightarrow> bool" where
  "isString (JStr s) = True"
| "isString _ = False"

abbreviation JInt :: "int \<Rightarrow> jsval" where
  "JInt n \<equiv> JNum (of_int n)"

text \<open>\<^verbatim>\<open>String.prototype.trim\<close> and \<^verbatim>\<open>toLowerCase\<close> on hex digits.\<close>

definition trim :: "string \<Rightarrow> string" where
  "trim s = rev (dropWhile isSpace (rev (dropWhile isSpace s)))"

definition lowerChar :: "char \<Rightarrow> char" where
  "lowerChar c = (let n = (of_char c :: nat) in
     if (65 \<le> n \<and> n \<le> 90) \<or> (192 \<le> n \<and> n \<le> 222 \<and> n \<noteq> 215) then char_of (n + 32) else c)"

definition toLowerCase :: "string \<Rightarrow> string" where
  "toLowerCase s = map lowerChar s"

text \<open>\<^verbatim>\<open>/^[0-9a-fA-F]+$/\<close> and its fixed-length variants.\<close>

definition isHexString :: "string \<Rightarrow> bool" where
  "isHexString s = (s \<noteq> [] \<and> list_all (\<lambda>c. hexVal c \<noteq> None) s)"

definition isHex64 :: "string \<Rightarrow> bool" where
  "isHex64 s = (length s = 64 \<and> list_all (\<lambda>c. hexVal c \<noteq> None) s)"

definition isLowerHex64 :: "string \<Rightarrow> bool" where
  "isLowerHex64 s = (length s = 64 \<and> list_all isLowerHex s)"

section \<open>Lemmas\<close>

lemma asInteger_JInt [simp]: "asInteger (JInt n) = Some n"
  by simp

lemma asInteger_Some: "asInteger v = Some n \<longleftrightarrow> v = JInt n"
  by (cases v) auto

lemma asString_Some: "asString v = Some s \<longleftrightarrow> v = JStr s"
  by (cases v) auto

lemma isLowerHex_lowerChar: "hexVal c \<noteq> None \<Longrightarrow> isLowerHex (lowerChar c)"
  by (auto simp: hexVal_def isLowerHex_def lowerChar_def Let_def split: if_splits)

lemma isLowerHex64_isTxid: "isLowerHex64 s \<longleftrightarrow> isTxid s"
  by (simp add: isLowerHex64_def isTxid_def list_all_iff)

lemma isHexString_lower: "isHexString s \<Longrightarrow> list_all isLowerHex (toLowerCase s)"
  using isLowerHex_lowerChar by (auto simp: isHexString_def toLowerCase_def list_all_iff)

end
