(* ===== verification/Covenant.thy ===== *)
theory Covenant
  imports Jsval Secp256k1
begin

text \<open>
  How the web wallet reads a covenant before it signs over it: \<^verbatim>\<open>normalizePubKey\<close>, \<^verbatim>\<open>sameBytes\<close>,
  \<^verbatim>\<open>readOp\<close>, \<^verbatim>\<open>scriptNum\<close>, \<^verbatim>\<open>parseUapCovenant\<close>, \<^verbatim>\<open>validatePositionScript\<close> and \<^verbatim>\<open>positionScriptOf\<close>
  of \<^verbatim>\<open>contrib/uap-web/transfer.js\<close>. Shows that its parser, which checks canonical form by
  re-encoding, accepts exactly the scripts the library's own parser accepts, and that the
  script a position is signed over is a covenant of the expected key, multiplier and form
  whatever the relay sent.
\<close>

section \<open>Model\<close>

definition MAX_MULTIPLIER :: int where
  "MAX_MULTIPLIER = 2147483647"

text \<open>The hex branch shared by \<^verbatim>\<open>normalizePubKey\<close> and \<^verbatim>\<open>validatePositionScript\<close>: \<^verbatim>\<open>null\<close> on anything but even-length hex.\<close>

definition hexInput :: "string \<Rightarrow> bytes option" where
  "hexInput value =
    (let hex = trim value in
     if \<not> isHexString hex \<or> length hex mod 2 \<noteq> 0 then None
     else (case hexToBytes (toLowerCase hex) of Inr b \<Rightarrow> Some b | Inl _ \<Rightarrow> None))"

definition normalizePubKey :: "jsval \<Rightarrow> bytes option" where
  "normalizePubKey value =
    (case (case value of JBytes b \<Rightarrow> Some b | JStr s \<Rightarrow> hexInput s | _ \<Rightarrow> None) of
       None \<Rightarrow> None
     | Some bs \<Rightarrow>
       (let shapeOk = (length bs = 33 \<and> (bs ! 0 = 0x02 \<or> bs ! 0 = 0x03)) \<or> (length bs = 65 \<and> bs ! 0 = 0x04) in
        if \<not> shapeOk then None
        else (case Point_fromBytes bs of Inl _ \<Rightarrow> None | Inr _ \<Rightarrow> Some bs)))"

definition sameBytes :: "bytes \<Rightarrow> bytes \<Rightarrow> bool" where
  "sameBytes a b = (length a = length b \<and> list_all (\<lambda>i. a ! i = b ! i) [0..<length a])"

definition OP_16 :: byte where
  "OP_16 = 0x60"

record script_op =
  op_opcode :: byte
  op_data :: "bytes option"
  op_next :: nat

definition readOpData :: "bytes \<Rightarrow> byte \<Rightarrow> nat \<Rightarrow> nat \<Rightarrow> script_op option" where
  "readOpData script opc pc sz =
    (if length script - pc < sz then None
     else Some \<lparr>op_opcode = opc, op_data = Some (slice script pc sz), op_next = pc + sz\<rparr>)"

definition readOp :: "bytes \<Rightarrow> nat \<Rightarrow> script_op option" where
  "readOp script pc =
    (if pc \<ge> length script then None
     else (let opc = script ! pc; pc = pc + 1 in
       if opc > OP_PUSHDATA4 then Some \<lparr>op_opcode = opc, op_data = None, op_next = pc\<rparr>
       else if opc = OP_PUSHDATA1 then
         (if length script - pc < 1 then None else readOpData script opc (pc + 1) (unat (script ! pc)))
       else if opc = OP_PUSHDATA2 then
         (if length script - pc < 2 then None
          else readOpData script opc (pc + 2) (unat (join16 (script ! pc) (script ! (pc + 1)))))
       else if opc = OP_PUSHDATA4 then
         (if length script - pc < 4 then None
          else readOpData script opc (pc + 4)
            (unat (join32 (script ! pc) (script ! (pc + 1)) (script ! (pc + 2)) (script ! (pc + 3)))))
       else readOpData script opc pc (unat opc)))"

definition scriptNum :: "bytes \<Rightarrow> int option" where
  "scriptNum bs =
    (if length bs = 0 then Some 0
     else if length bs > 4 then None
     else (let magnitude = foldl (\<lambda>acc i. acc + uint (bs ! i) * 256 ^ i) 0 [0..<length bs]; top = bs ! (length bs - 1) in
       if top AND 0x80 \<noteq> 0 then Some (- (magnitude - 0x80 * 256 ^ (length bs - 1))) else Some magnitude))"

record covenant =
  cov_pubkey :: bytes
  cov_multiplier :: int
  cov_isMint :: bool

text \<open>The middle part of \<^verbatim>\<open>parseUapCovenant\<close>: the multiplier an instruction stands for, within its range.\<close>

definition opMultiplier :: "script_op \<Rightarrow> int option" where
  "opMultiplier multOp =
    (case (if op_opcode multOp = OP_0 then Some 0
           else if op_opcode multOp \<ge> OP_1 \<and> op_opcode multOp \<le> OP_16 then Some (uint (op_opcode multOp) - (uint OP_1 - 1))
           else (case op_data multOp of Some d \<Rightarrow> scriptNum d | None \<Rightarrow> None)) of
       None \<Rightarrow> None
     | Some m \<Rightarrow> if m < 0 \<or> m > MAX_MULTIPLIER then None else Some m)"

text \<open>
  The builders cannot throw on the fields read here (\<open>parse_builders_total\<close> below), so an
  error of theirs is put with the other refusals.
\<close>

definition parseUapCovenant :: "bytes \<Rightarrow> covenant option" where
  "parseUapCovenant script =
    (case readOp script 0 of None \<Rightarrow> None | Some keyOp \<Rightarrow>
     (case op_data keyOp of None \<Rightarrow> None | Some pk \<Rightarrow>
      if length pk \<noteq> 33 \<and> length pk \<noteq> 65 then None
      else (case readOp script (op_next keyOp) of None \<Rightarrow> None | Some multOp \<Rightarrow>
       (case opMultiplier multOp of None \<Rightarrow> None | Some m \<Rightarrow>
        (case readOp script (op_next multOp) of None \<Rightarrow> None | Some thirdOp \<Rightarrow>
          (case op_data thirdOp of
             Some og \<Rightarrow>
               if length og = 32 then
                 (case readOp script (op_next thirdOp) of None \<Rightarrow> None | Some mintOp \<Rightarrow>
                    if op_opcode mintOp \<noteq> OP_MINT_TRANSFER \<or> op_next mintOp \<noteq> length script then None
                    else (case buildTransferScript pk m og of Inl _ \<Rightarrow> None | Inr s \<Rightarrow>
                      if \<not> sameBytes script s then None
                      else Some \<lparr>cov_pubkey = pk, cov_multiplier = m, cov_isMint = False\<rparr>))
               else None
           | None \<Rightarrow>
               if op_opcode thirdOp \<noteq> OP_MINT then None
               else if op_next thirdOp \<noteq> length script then None
               else (case buildMintScript pk m of Inl _ \<Rightarrow> None | Inr reencoded \<Rightarrow>
                 if \<not> sameBytes script reencoded then None
                 else Some \<lparr>cov_pubkey = pk, cov_multiplier = m, cov_isMint = True\<rparr>)))))))"

text \<open>\<^verbatim>\<open>{ok: false, message}\<close> is \<^const>\<open>Inl\<close>, \<^verbatim>\<open>{ok: true, script, parsed}\<close> is \<^const>\<open>Inr\<close>.\<close>

definition validatePositionScript :: "jsval \<Rightarrow> bytes option \<Rightarrow> int option \<Rightarrow> bool option \<Rightarrow> (bytes \<times> covenant) result" where
  "validatePositionScript scriptHex expectedPubKey expectedMultiplier expectIsMint =
    bindR (case scriptHex of
             JBytes b \<Rightarrow> Inr b
           | JStr s \<Rightarrow> (case hexInput s of Some b \<Rightarrow> Inr b | None \<Rightarrow> Inl ''Position script_hex is not an even-length hex string'')
           | _ \<Rightarrow> Inl ''Position script_hex must be a hex string or bytes'') (\<lambda>bs.
    case parseUapCovenant bs of
      None \<Rightarrow> Inl ''Position script_hex is not a canonically encoded UAP covenant ''
    | Some parsed \<Rightarrow>
      if expectIsMint \<noteq> None \<and> expectIsMint \<noteq> Some (cov_isMint parsed)
      then Inl (if cov_isMint parsed
        then ''Position script_hex is a fresh mint script but the position is not marked as a mint''
        else ''Position script_hex is a transfer covenant but the position is marked as a fresh mint'')
      else if (case expectedPubKey of Some k \<Rightarrow> \<not> sameBytes (cov_pubkey parsed) k | None \<Rightarrow> False)
      then Inl ''Position script_hex is a covenant for a different public key than the position records; ''
      else if expectedMultiplier \<noteq> None \<and> expectedMultiplier \<noteq> Some (cov_multiplier parsed)
      then Inl ''Position script_hex carries multiplier ''
      else Inr (bs, parsed))"

definition positionScriptOf :: "jsval \<Rightarrow> bytes \<Rightarrow> int \<Rightarrow> bytes result" where
  "positionScriptOf position ownPubKey m =
    (if truthy (getField position ''script_hex'') then
       (case validatePositionScript (getField position ''script_hex'') (Some ownPubKey) (Some m)
               (Some (getField position ''is_mint'' = JBool True)) of
          Inl e \<Rightarrow> Inl (''refusing to sign over this position's script: '' @ e)
        | Inr (script, _) \<Rightarrow> Inr script)
     else if getField position ''is_mint'' = JBool True then buildMintScript ownPubKey m
     else (case getField position ''origin'' of
         JStr og \<Rightarrow>
           if \<not> isLowerHex64 og then Inl ''cannot reconstruct a transfer position's script: it needs the 32-byte ''
           else bindR (hexToBytes og) (\<lambda>b. buildTransferScript ownPubKey m b)
       | _ \<Rightarrow> Inl ''cannot reconstruct a transfer position's script: it needs the 32-byte ''))"

section \<open>Lemmas\<close>

lemma sameBytes_eq [simp]: "sameBytes a b \<longleftrightarrow> a = b"
  unfolding sameBytes_def list_eq_iff_nth_eq [of a b] list_all_iff by auto

lemma readOp_direct:
  assumes "unat w < 0x4c" "pc < length script" "script ! pc = w"
  shows "readOp script pc = readOpData script w (pc + 1) (unat w)"
proof -
  have "\<not> w > OP_PUSHDATA4" "w \<noteq> OP_PUSHDATA1" "w \<noteq> OP_PUSHDATA2" "w \<noteq> OP_PUSHDATA4"
    using assms(1) by (auto simp: word_less_nat_alt)
  then show ?thesis using assms(2,3) by (simp add: readOp_def Let_def)
qed

lemma readOp_push:
  assumes "length d < 0x4c"
  shows "readOp (pre @ of_nat (length d) # d @ post) (length pre)
    = Some \<lparr>op_opcode = of_nat (length d), op_data = Some d, op_next = length pre + 1 + length d\<rparr>"
proof -
  define w where "w = (of_nat (length d) :: byte)"
  have u: "unat w = length d" unfolding w_def using assms by (intro unat_of_nat8) simp
  have "slice (pre @ w # d @ post) (length pre + 1) (length d) = d" by (simp add: slice_def)
  then show ?thesis using readOp_direct [of w "length pre" "pre @ w # d @ post"] assms u
    by (simp add: readOpData_def flip: w_def)
qed

lemma readOp_push_at:
  assumes "s = pre @ of_nat (length d) # d @ post" "i = length pre" "length d < 0x4c"
  shows "readOp s i = Some \<lparr>op_opcode = of_nat (length d), op_data = Some d, op_next = i + 1 + length d\<rparr>"
  using readOp_push [OF assms(3)] assms(1,2) by simp

lemma readOp_opcode_at:
  assumes "s = pre @ b # post" "i = length pre" "OP_PUSHDATA4 < b"
  shows "readOp s i = Some \<lparr>op_opcode = b, op_data = None, op_next = i + 1\<rparr>"
  using assms by (simp add: readOp_def Let_def)

lemma foldl_leVal: "foldl (\<lambda>acc i. acc + uint ((bs :: bytes) ! i) * 256 ^ i) 0 [0..<length bs] = int (leVal bs)"
proof (induction bs rule: rev_induct)
  case (snoc b bs)
  have "foldl (\<lambda>acc i. acc + uint ((bs @ [b]) ! i) * 256 ^ i) 0 [0..<length bs]
    = foldl (\<lambda>acc i. acc + uint (bs ! i) * 256 ^ i) 0 [0..<length bs]"
    by (rule foldl_cong) (auto simp: nth_append)
  then show ?case using snoc by (simp add: leVal_append)
qed simp

lemma scriptNum_eq:
  assumes "d \<noteq> []" "length d \<le> 4"
  shows "scriptNum d = Some (projr (scriptNumToInt64 d))"
proof -
  have "d ! (length d - 1) = last d" using assms(1) by (simp add: last_conv_nth)
  moreover have "(0x80 :: int) * 256 ^ (length d - 1) = 2 ^ (8 * (length d - 1) + 7)"
    by (simp add: power_add power_mult)
  ultimately show ?thesis
    using assms scriptNumToInt64_eq [of d] by (simp add: scriptNum_def foldl_leVal and_0x80)
qed

lemma uint_of_int8: "0 \<le> k \<Longrightarrow> k < 256 \<Longrightarrow> uint (of_int k :: byte) = k"
  by (simp add: unsigned_of_int take_bit_int_eq_self)

text \<open>Reading back an encoded multiplier.\<close>

lemma opMultiplier_pushMultiplier:
  assumes "pushMultiplier m = Inr mb" "s = pre @ mb @ post" "i = length pre"
  shows "\<exists>p. readOp s i = Some p \<and> op_next p = i + length mb \<and> opMultiplier p = Some m"
proof -
  have r: "0 \<le> m" "m \<le> 2147483647" using pushMultiplier_range [OF assms(1)] by auto
  consider (zero) "m = 0" | (small) "1 \<le> m" "m \<le> 16" | (large) "16 < m" using r by linarith
  then show ?thesis
  proof cases
    case zero
    then have "mb = [OP_0]" using assms(1) by (simp add: pushMultiplier_def)
    then have "readOp s i = Some \<lparr>op_opcode = 0, op_data = Some [], op_next = i + 1\<rparr>"
      using readOp_push_at [of s pre "[]" post i] assms by simp
    then show ?thesis using zero \<open>mb = [OP_0]\<close> by (simp add: opMultiplier_def MAX_MULTIPLIER_def)
  next
    case small
    define w where "w = (of_int (0x50 + m) :: byte)"
    have "OP_1 + of_int (m - 1) = w" by (simp add: w_def)
    then have b: "mb = [w]" using assms(1) small by (simp add: pushMultiplier_def del: of_int_diff)
    have u: "unat w = nat (0x50 + m)" unfolding w_def using small by (intro unat_of_int8) auto
    have i: "uint w = 0x50 + m" unfolding w_def using small by (intro uint_of_int8) auto
    have ge: "OP_PUSHDATA4 < w" using u small by (simp add: word_less_nat_alt)
    have "readOp s i = Some \<lparr>op_opcode = w, op_data = None, op_next = i + 1\<rparr>"
      using assms b by (intro readOp_opcode_at [OF _ assms(3) ge]) simp
    moreover have "w \<noteq> OP_0" "OP_1 \<le> w" "w \<le> OP_16" using u small by (auto simp: byte_eq_iff byte_le_iff OP_16_def)
    ultimately show ?thesis using b small i by (simp add: opMultiplier_def MAX_MULTIPLIER_def)
  next
    case large
    let ?d = "scriptNumBytes m"
    have l: "length ?d \<le> 4" "?d \<noteq> []" using large r length_scriptNumBytes scriptNumBytes_ne by auto
    then have b: "mb = of_nat (length ?d) # ?d" using assms(1) large r pushData_small [of ?d] by (simp add: pushMultiplier_def)
    then have o: "readOp s i = Some \<lparr>op_opcode = of_nat (length ?d), op_data = Some ?d, op_next = i + 1 + length ?d\<rparr>"
      using l assms by (intro readOp_push_at [where pre = pre and post = post]) auto
    have u: "unat (of_nat (length ?d) :: byte) = length ?d" using l by (intro unat_of_nat8) simp
    have n: "(of_nat (length ?d) :: byte) \<noteq> OP_0" "\<not> OP_1 \<le> (of_nat (length ?d) :: byte)"
      using u l by (auto simp: byte_eq_iff byte_le_iff)
    have "scriptNum ?d = Some m" using scriptNum_eq [OF l(2,1)] scriptNumToInt64_scriptNumBytes [of m] large r by simp
    then show ?thesis using o n b large r by (simp add: opMultiplier_def MAX_MULTIPLIER_def)
  qed
qed

lemma pubkeySize_push: "pubkeySize pk \<Longrightarrow> pushData pk = Inr (of_nat (length pk) # pk)"
  by (auto simp: pubkeySize_def intro: pushData_small)

lemma pubkeySize_small: "pubkeySize pk \<Longrightarrow> length pk < 0x4c"
  by (auto simp: pubkeySize_def)

lemma parse_builders_total:
  assumes "pubkeySize pk" "0 \<le> m" "m \<le> MAX_MULTIPLIER" "length og = 32"
  shows "\<exists>s. buildMintScript pk m = Inr s" "\<exists>s. buildTransferScript pk m og = Inr s"
proof -
  have "\<exists>mb. pushMultiplier m = Inr mb"
  proof (cases "16 < m")
    case True
    then show ?thesis using assms(2,3) length_scriptNumBytes [of m] pushData_small [of "scriptNumBytes m"]
      by (simp add: pushMultiplier_def MAX_MULTIPLIER_def)
  next
    case False
    then show ?thesis using assms(2) by (simp add: pushMultiplier_def)
  qed
  then obtain mb where "pushMultiplier m = Inr mb" by blast
  then show "\<exists>s. buildMintScript pk m = Inr s" "\<exists>s. buildTransferScript pk m og = Inr s"
    using assms(1,4) by (simp_all add: buildMintScript_def buildTransferScript_def pubkeySize_push pushData_small)
qed

lemma parseUapCovenant_mint:
  assumes "buildMintScript pk m = Inr s" "pubkeySize pk"
  shows "parseUapCovenant s = Some \<lparr>cov_pubkey = pk, cov_multiplier = m, cov_isMint = True\<rparr>"
proof -
  obtain mb where mb: "pushMultiplier m = Inr mb" and s: "s = (of_nat (length pk) # pk) @ mb @ [OP_MINT]"
    using assms by (auto simp: buildMintScript_def result_simps pubkeySize_push)
  have k: "readOp s 0 = Some \<lparr>op_opcode = of_nat (length pk), op_data = Some pk, op_next = 1 + length pk\<rparr>"
    using readOp_push_at [of s "[]" pk "mb @ [OP_MINT]" 0] s pubkeySize_small [OF assms(2)] by simp
  obtain p where p: "readOp s (1 + length pk) = Some p" "op_next p = 1 + length pk + length mb" "opMultiplier p = Some m"
    using opMultiplier_pushMultiplier [OF mb s] by auto
  have t: "readOp s (1 + length pk + length mb) = Some \<lparr>op_opcode = OP_MINT, op_data = None, op_next = length s\<rparr>"
    using readOp_opcode_at [of s "(of_nat (length pk) # pk) @ mb" OP_MINT "[]"] s by simp
  have l: "length pk = 33 \<or> length pk = 65" using assms(2) by (auto simp: pubkeySize_def)
  show ?thesis unfolding parseUapCovenant_def k using l p t assms(1) by auto
qed

lemma parseUapCovenant_transfer:
  assumes "buildTransferScript pk m og = Inr s" "pubkeySize pk"
  shows "parseUapCovenant s = Some \<lparr>cov_pubkey = pk, cov_multiplier = m, cov_isMint = False\<rparr>"
proof -
  obtain mb where mb: "pushMultiplier m = Inr mb" and og: "length og = 32"
    and s: "s = (of_nat (length pk) # pk) @ mb @ (of_nat (length og) # og) @ [OP_MINT_TRANSFER]"
    using assms by (auto simp: buildTransferScript_def result_simps pubkeySize_push pushData_small)
  have k: "readOp s 0 = Some \<lparr>op_opcode = of_nat (length pk), op_data = Some pk, op_next = 1 + length pk\<rparr>"
    using readOp_push_at [of s "[]" pk _ 0] s pubkeySize_small [OF assms(2)] by simp
  obtain p where p: "readOp s (1 + length pk) = Some p" "op_next p = 1 + length pk + length mb" "opMultiplier p = Some m"
    using opMultiplier_pushMultiplier [OF mb s] by auto
  have t: "readOp s (1 + length pk + length mb) = Some \<lparr>op_opcode = of_nat (length og), op_data = Some og, op_next = 34 + (length pk + length mb)\<rparr>"
    using readOp_push_at [of s "(of_nat (length pk) # pk) @ mb" og "[OP_MINT_TRANSFER]"] s og by simp
  have f: "readOp s (34 + (length pk + length mb)) = Some \<lparr>op_opcode = OP_MINT_TRANSFER, op_data = None, op_next = length s\<rparr>"
    using readOp_opcode_at [of s "(of_nat (length pk) # pk) @ mb @ (of_nat (length og) # og)" OP_MINT_TRANSFER "[]"] s og by simp
  have l: "length pk = 33 \<or> length pk = 65" using assms(2) by (auto simp: pubkeySize_def)
  show ?thesis unfolding parseUapCovenant_def k using l p t f og assms(1) by auto
qed

lemma parseUapCovenant_sound:
  assumes "parseUapCovenant s = Some c"
  shows "pubkeySize (cov_pubkey c) \<and> (if cov_isMint c then buildMintScript (cov_pubkey c) (cov_multiplier c) = Inr s
    else \<exists>og. buildTransferScript (cov_pubkey c) (cov_multiplier c) og = Inr s)"
  using assms unfolding parseUapCovenant_def
  by (auto simp: pubkeySize_def split: option.splits if_splits sum.splits)

definition covenantOf :: "uap_script \<Rightarrow> covenant" where
  "covenantOf u = \<lparr>cov_pubkey = pubkey u, cov_multiplier = multiplier u, cov_isMint = isMint u\<rparr>"

lemma parseUapCovenant_eq: "parseUapCovenant s = map_option covenantOf (parseUapScript s)"
proof (cases "parseUapCovenant s")
  case (Some c)
  from parseUapCovenant_sound [OF Some] Some show ?thesis
    by (auto simp: covenantOf_def dest: parse_buildMintScript parse_buildTransferScript split: if_splits)
next
  case None
  show ?thesis
  proof (cases "parseUapScript s")
    case (Some u)
    then have "rebuildScript u = Inr s" "pubkeySize (pubkey u)" using parseUapScript_rebuild [OF Some] by auto
    then show ?thesis using None parseUapCovenant_mint parseUapCovenant_transfer
      by (auto simp: rebuildScript_def split: if_splits)
  qed (simp add: None)
qed

lemma validatePositionScript_Inr:
  assumes "validatePositionScript v (Some k) (Some m) (Some mint) = Inr (s, c)"
  shows "parseUapCovenant s = Some c \<and> cov_pubkey c = k \<and> cov_multiplier c = m \<and> cov_isMint c = mint"
  using assms unfolding validatePositionScript_def bindR_eq_Inr by (auto split: option.splits if_splits)

lemma positionScriptOf_Inr:
  assumes "positionScriptOf position own m = Inr s" "pubkeySize own"
  shows "\<exists>og. parseUapScript s = Some \<lparr>pubkey = own, multiplier = m, origin = og, isMint = (getField position ''is_mint'' = JBool True)\<rparr>"
proof (cases "truthy (getField position ''script_hex'')")
  case True
  then obtain c where c: "validatePositionScript (getField position ''script_hex'') (Some own) (Some m)
      (Some (getField position ''is_mint'' = JBool True)) = Inr (s, c)"
    using assms(1) by (auto simp: positionScriptOf_def split: sum.splits)
  note v = validatePositionScript_Inr [OF c]
  then obtain u where "parseUapScript s = Some u" "covenantOf u = c" by (auto simp: parseUapCovenant_eq)
  then show ?thesis using v by (cases u) (auto simp: covenantOf_def)
next
  case False
  show ?thesis
  proof (cases "getField position ''is_mint'' = JBool True")
    case True
    then show ?thesis using False assms parse_buildMintScript [of own m s] by (auto simp: positionScriptOf_def)
  next
    case nm: False
    then obtain b where "buildTransferScript own m b = Inr s"
      using False assms(1) by (auto simp: positionScriptOf_def bindR_eq_Inr split: jsval.splits if_splits)
    then show ?thesis using nm assms(2) parse_buildTransferScript [of own m b s] by auto
  qed
qed

section \<open>Properties\<close>

text \<open>C19: Two parsers, one language. The web wallet's covenant parser, which reads instructions and then
  re-encodes what it read, accepts exactly the scripts the wallet library's parser accepts by
  checking minimal pushes, and reads the same key, multiplier and form from them.\<close>

theorem covenant_parsers_agree:
  "parseUapCovenant s
    = map_option (\<lambda>u. \<lparr>cov_pubkey = pubkey u, cov_multiplier = multiplier u, cov_isMint = isMint u\<rparr>) (parseUapScript s)"
  using parseUapCovenant_eq [of s] by (simp add: covenantOf_def fun_eq_iff cong: option.map_cong)

text \<open>C14: The wallet is no signing oracle. Whatever a position object from the relay contains, a script that
  is handed to the signer is a canonical covenant for the wallet's own key and for the planned
  multiplier, in the mint or transfer form that the position claims.\<close>

theorem signed_script_is_own_covenant:
  assumes "positionScriptOf position own m = Inr s" and "length own = 33 \<or> length own = 65"
  shows "\<exists>u. parseUapScript s = Some u \<and> pubkey u = own \<and> multiplier u = m
    \<and> (isMint u \<longleftrightarrow> getField position ''is_mint'' = JBool True)"
  using positionScriptOf_Inr [OF assms(1)] assms(2) by (auto simp: pubkeySize_def)

theorem signed_script_is_own_covenant_witness:
  "\<exists>s u. positionScriptOf (JObj [(''is_mint'', JBool True), (''script_hex'', JNull)]) (replicate 33 2) 5 = Inr s
    \<and> parseUapScript s = Some u \<and> pubkey u = replicate 33 2 \<and> isMint u"
proof -
  let ?p = "JObj [(''is_mint'', JBool True), (''script_hex'', JNull)]"
  obtain s where s: "positionScriptOf ?p (replicate 33 2) 5 = Inr s"
    using parse_builders_total(1) [of "replicate 33 2" 5 "replicate 32 0"]
    by (auto simp: positionScriptOf_def pubkeySize_def MAX_MULTIPLIER_def)
  from signed_script_is_own_covenant [OF s] s show ?thesis by auto
qed

end
