(* ===== verification/TokenTransfer.thy ===== *)
theory TokenTransfer
  imports Covenant Addr Payment
begin

text \<open>
  The token transfer of the web wallet, \<^verbatim>\<open>contrib/uap-web/transfer.js\<close>: \<^verbatim>\<open>planTransfer\<close>, which
  validates every input and computes every amount, \<^verbatim>\<open>selectFunding\<close>, which chooses the coins
  that pay the fee, and \<^verbatim>\<open>buildTransferTx\<close>, which assembles and signs. The position, the
  funding coins and the numbers are untyped values, as they come from the relay and from
  forms. The display-only virtual balances are computed exactly here, where the code rounds
  to floating point.

  Shows that a plan neither burns nor creates tokens, that its fee comes from the funding coins
  alone, and that the built transaction carries the position's lineage and is signed as a whole.
\<close>

section \<open>Model: planning\<close>

definition HARD_DUST_LIMIT :: int where
  "HARD_DUST_LIMIT = DEFAULT_HARD_DUST_LIMIT"

definition MAX_SAFE_SATS :: int where
  "MAX_SAFE_SATS = MAX_SAFE_INTEGER"

datatype output_kind = OUTPUT_TOKEN_RECIPIENT | OUTPUT_TOKEN_CHANGE | OUTPUT_WHIP_CHANGE

type_synonym plan_errors = "(string \<times> string) list"

definition estimateTransferSize :: "nat \<Rightarrow> nat \<Rightarrow> nat \<Rightarrow> nat" where
  "estimateTransferSize nInputs nCovenantOutputs nP2PKHOutputs =
    10 + nInputs * 150 + nCovenantOutputs * 49 + nP2PKHOutputs * 34"

definition feeFor :: "nat \<Rightarrow> rat \<Rightarrow> int" where
  "feeFor sz feeRate = (let estimated = \<lceil>of_nat sz * feeRate / 1000\<rceil> in max estimated RECOMMENDED_MIN_TX_FEE)"

definition virtualBalanceOf :: "int \<Rightarrow> int \<Rightarrow> rat" where
  "virtualBalanceOf valueSats m = (of_int valueSats / of_int COIN) * of_int m"

text \<open>A funding coin that passed the filter of \<^verbatim>\<open>selectFunding\<close>.\<close>

record utxo =
  utxo_txid :: string
  utxo_vout :: int
  utxo_value :: int
  utxo_scriptPubKey :: jsval

definition usableUtxo :: "jsval \<Rightarrow> utxo option" where
  "usableUtxo u =
    (if \<not> truthy u then None
     else (case (asInteger (getField u ''value''), getField u ''txid'', asInteger (getField u ''vout'')) of
       (Some v, JStr t, Some n) \<Rightarrow>
         if v > 0 then Some \<lparr>utxo_txid = t, utxo_vout = n, utxo_value = v, utxo_scriptPubKey = getField u ''scriptPubKey''\<rparr> else None
     | _ \<Rightarrow> None))"

record funding =
  fund_selected :: "utxo list"
  fund_total :: int
  fund_fee :: int
  fund_change :: int

fun fundingLoop :: "rat \<Rightarrow> nat \<Rightarrow> utxo list \<Rightarrow> int \<Rightarrow> utxo list \<Rightarrow> funding result" where
  "fundingLoop feeRate nCov sel tot [] = Inl ''Insufficient WHIP to pay the transfer fee: need about ''"
| "fundingLoop feeRate nCov sel tot (u # us) =
    (let sel' = sel @ [u]; tot' = tot + utxo_value u;
         feeWithChange = feeFor (estimateTransferSize (1 + length sel') nCov 1) feeRate
     in if tot' \<ge> feeWithChange
        then (let ch = tot' - feeWithChange in
          if ch < DEFAULT_DUST_LIMIT
          then Inr \<lparr>fund_selected = sel', fund_total = tot', fund_fee = tot', fund_change = 0\<rparr>
          else Inr \<lparr>fund_selected = sel', fund_total = tot', fund_fee = feeWithChange, fund_change = ch\<rparr>)
        else fundingLoop feeRate nCov sel' tot' us)"

definition selectFunding :: "jsval list \<Rightarrow> rat \<Rightarrow> nat \<Rightarrow> funding result" where
  "selectFunding fundingUtxos feeRate nCovenantOutputs =
    (let usable = List.map_filter usableUtxo fundingUtxos in
     if usable = [] then Inl ''No usable WHIP UTXOs to pay the fee with (each needs txid, vout and a positive integer value)''
     else fundingLoop feeRate nCovenantOutputs [] 0 (sort_key utxo_value usable))"

text \<open>The section on the position: its errors, and the multiplier, value and owner once valid.\<close>

definition positionChecks :: "jsval \<Rightarrow> plan_errors \<times> int option \<times> int option \<times> bytes option" where
  "positionChecks position =
    (if \<not> isObject position then ([(''position'', ''No position selected to send from'')], None, None, None)
     else
       (let err = (\<lambda>b m. if b then [(''position'', m)] else []);
            txidBad = (case getField position ''txid'' of JStr s \<Rightarrow> \<not> isHex64 s | _ \<Rightarrow> True);
            voutBad = (case asInteger (getField position ''vout'') of Some n \<Rightarrow> n < 0 | None \<Rightarrow> True);
            val = asInteger (getField position ''value'');
            valBad = (case val of Some n \<Rightarrow> n \<le> 0 | None \<Rightarrow> True);
            valHuge = (case val of Some n \<Rightarrow> n > MAX_SAFE_SATS | None \<Rightarrow> False);
            positionValue = (if valBad \<or> valHuge then None else val);
            mul = asInteger (getField position ''multiplier'');
            mulBad = (case mul of Some n \<Rightarrow> n < 0 \<or> n > MAX_MULTIPLIER | None \<Rightarrow> True);
            mult = (if mulBad then None else mul);
            pk = getField position ''pubkey'';
            noKey = (pk = JUndef \<or> pk = JNull \<or> pk = JStr []);
            owner = (if noKey then None else normalizePubKey pk);
            script = getField position ''script_hex''; mint = (getField position ''is_mint'' = JBool True)
        in (err txidBad ''Position txid is not a 64-character hex string''
            @ err voutBad ''Position vout must be a non-negative integer''
            @ (if valBad then [(''position'', ''Position value must be a positive integer number of satoshis'')]
               else err valHuge ''Position value of '')
            @ err mulBad ''Position multiplier must be an integer in [0, ''
            @ err (getField position ''spent'' = JBool True) ''That position has already been spent''
            @ (if noKey then [(''position'', ''Position does not record which public key it is addressed to, '')]
               else err (owner = None) ''Position has a malformed recipient pubkey'')
            @ err (mint \<and> \<not> truthy script) ''This is a freshly minted position and this wallet cannot derive the origin for spending it ''
            @ (if truthy script
               then (case validatePositionScript script owner mult (Some mint) of Inl e \<Rightarrow> [(''position'', e)] | Inr _ \<Rightarrow> [])
               else []),
            mult, positionValue, owner)))"

definition ownershipChecks :: "bytes option \<Rightarrow> bytes option \<Rightarrow> plan_errors" where
  "ownershipChecks own positionOwner =
    (case own of
       None \<Rightarrow> [(''ownPubKey'', ''Wallet public key is missing or malformed'')]
     | Some k \<Rightarrow> (case positionOwner of
         Some po \<Rightarrow> if \<not> sameBytes po k then [(''position'', ''This position is addressed to a different public key; this wallet cannot spend it'')] else []
       | None \<Rightarrow> []))"

definition networkOf :: "string \<Rightarrow> network option" where
  "networkOf s = (if s = ''mainnet'' then Some Mainnet else if s = ''testnet'' then Some Testnet
    else if s = ''regtest'' then Some Regtest else None)"

definition recipientChecks :: "bytes option \<Rightarrow> string option \<Rightarrow> string \<Rightarrow> plan_errors" where
  "recipientChecks to toAddress netw =
    (if to = None then [(''toPubKey'', ''Recipient public key must be 33 bytes (starting 02/03) or 65 bytes (starting 04), in hex'')] else [])
    @ (case toAddress of
         None \<Rightarrow> []
       | Some a \<Rightarrow>
         (let trimmed = trim a in
          if trimmed = [] then []
          else (case base58checkDecode trimmed of
            Inl _ \<Rightarrow> [(''toAddress'', ''Recipient address is not a valid Whippet address'')]
          | Inr (version, payload) \<Rightarrow>
            (case networkOf netw of
               None \<Rightarrow> [(''network'', ''Unknown network: '')]
             | Some n \<Rightarrow>
               if version = SCRIPT_ADDRESS (VERSIONS n)
               then [(''toAddress'', ''P2SH addresses are not supported by this wallet; ask for a regular (pay-to-pubkey-hash) address'')]
               else if version \<noteq> PUBKEY_ADDRESS (VERSIONS n) then [(''toAddress'', ''That address is not a '')]
               else (case to of
                 Some k \<Rightarrow> if \<not> sameBytes (hash160 k) payload
                   then [(''toAddress'', ''The recipient public key does not match that address (hash160 mismatch). '')] else []
               | None \<Rightarrow> [])))))"

definition amountChecks :: "jsval \<Rightarrow> int option \<Rightarrow> plan_errors \<times> int option" where
  "amountChecks amountSats positionValue =
    (case asInteger amountSats of
       None \<Rightarrow> ([(''amountSats'', ''Amount must be a positive whole number of satoshis'')], None)
     | Some amt \<Rightarrow>
       if amt \<le> 0 then ([(''amountSats'', ''Amount must be a positive whole number of satoshis'')], None)
       else if amt > MAX_SAFE_SATS then ([(''amountSats'', ''Amount of '')], None)
       else (case positionValue of
         None \<Rightarrow> ([], None)
       | Some v \<Rightarrow>
         if amt > v then ([(''amountSats'', ''Amount '')], None)
         else (let remainderSats = v - amt in
           ((if amt < HARD_DUST_LIMIT then [(''amountSats'', ''Amount '')] else [])
            @ (if remainderSats > 0 \<and> remainderSats < HARD_DUST_LIMIT
               then [(''amountSats'', ''Sending this much would leave a dust remainder of '')] else []),
            Some remainderSats))))"

definition feeChecks :: "jsval \<Rightarrow> jsval \<Rightarrow> plan_errors" where
  "feeChecks feeRate fundingUtxos =
    (case feeRate of
       JNum r \<Rightarrow> if r \<le> 0 then [(''feeRate'', ''Fee rate must be a positive number of satoshis per kB'')] else []
     | _ \<Rightarrow> [(''feeRate'', ''Fee rate must be a positive number of satoshis per kB'')])
    @ (case fundingUtxos of
         JArr us \<Rightarrow> if us = [] then [(''fundingUtxos'', ''A token transfer needs an ordinary WHIP input to pay the fee, '')] else []
       | _ \<Rightarrow> [(''fundingUtxos'', ''A token transfer needs an ordinary WHIP input to pay the fee, '')])"

record plan_output =
  po_kind :: output_kind
  po_value :: int
  po_pubKey :: bytes
  po_multiplier :: "int option"

record transfer_input =
  ti_position :: jsval
  ti_ownPubKey :: jsval
  ti_toPubKey :: jsval
  ti_toAddress :: "string option"
  ti_network :: string
  ti_amountSats :: jsval
  ti_fundingUtxos :: jsval
  ti_feeRate :: jsval

record transfer_plan =
  tp_position :: jsval
  tp_multiplier :: int
  tp_warnings :: "(string \<times> string) list"
  tp_toPubKey :: bytes
  tp_ownPubKey :: bytes
  tp_amountSats :: int
  tp_remainderSats :: int
  tp_tokenValueIn :: int
  tp_tokenValueOut :: int
  tp_virtualBalanceIn :: rat
  tp_virtualBalanceOut :: rat
  tp_virtualBalanceLost :: rat
  tp_fundingInputs :: "utxo list"
  tp_fundingTotal :: int
  tp_fee :: int
  tp_change :: int
  tp_feeRate :: rat
  tp_outputs :: "plan_output list"

definition tokenOutputs :: "plan_output list \<Rightarrow> plan_output list" where
  "tokenOutputs outs = filter (\<lambda>ou. po_kind ou \<noteq> OUTPUT_WHIP_CHANGE) outs"

definition planOutputs :: "bytes \<Rightarrow> bytes \<Rightarrow> int \<Rightarrow> int \<Rightarrow> int \<Rightarrow> int \<Rightarrow> plan_output list" where
  "planOutputs to own m amt remainderSats ch =
    [\<lparr>po_kind = OUTPUT_TOKEN_RECIPIENT, po_value = amt, po_pubKey = to, po_multiplier = Some m\<rparr>]
    @ (if remainderSats > 0 then [\<lparr>po_kind = OUTPUT_TOKEN_CHANGE, po_value = remainderSats, po_pubKey = own, po_multiplier = Some m\<rparr>] else [])
    @ (if ch > 0 then [\<lparr>po_kind = OUTPUT_WHIP_CHANGE, po_value = ch, po_pubKey = own, po_multiplier = None\<rparr>] else [])"

text \<open>The second half of \<^verbatim>\<open>planTransfer\<close>, past the checks: funding, outputs and the plan's figures.\<close>

definition assemblePlan :: "jsval \<Rightarrow> int \<Rightarrow> int \<Rightarrow> bytes \<Rightarrow> bytes \<Rightarrow> int \<Rightarrow> int \<Rightarrow> rat \<Rightarrow> jsval list \<Rightarrow> plan_errors + transfer_plan" where
  "assemblePlan position m v own to amt remainderSats feeRate us =
    (let nCovenantOutputs = (if remainderSats > 0 then 2 else 1) in
     case selectFunding us feeRate nCovenantOutputs of
       Inl msg \<Rightarrow> Inl [(''fundingUtxos'', msg)]
     | Inr sel \<Rightarrow>
       (let outputs = planOutputs to own m amt remainderSats (fund_change sel);
            covenantSatsOut = foldl (\<lambda>s ou. s + po_value ou) 0 (tokenOutputs outputs)
        in Inr \<lparr>tp_position = position, tp_multiplier = m,
             tp_warnings = (if getField position ''value_verified'' \<noteq> JBool True then [(''position'', ''position-value-unverified'')] else []),
             tp_toPubKey = to, tp_ownPubKey = own, tp_amountSats = amt, tp_remainderSats = remainderSats,
             tp_tokenValueIn = v, tp_tokenValueOut = covenantSatsOut,
             tp_virtualBalanceIn = virtualBalanceOf v m,
             tp_virtualBalanceOut = foldl (\<lambda>s ou. s + virtualBalanceOf (po_value ou) m) 0 (tokenOutputs outputs),
             tp_virtualBalanceLost = virtualBalanceOf (v - covenantSatsOut) m,
             tp_fundingInputs = fund_selected sel, tp_fundingTotal = fund_total sel, tp_fee = fund_fee sel,
             tp_change = fund_change sel, tp_feeRate = feeRate, tp_outputs = outputs\<rparr>))"

text \<open>
  \<^verbatim>\<open>planTransfer\<close>: all the checks first, every error reported. With no error the values below are
  all present; the last case of the match stands for a combination that then cannot arise.
\<close>

definition planTransfer :: "transfer_input \<Rightarrow> plan_errors + transfer_plan" where
  "planTransfer inp =
    (let position = ti_position inp;
         (posErrs, mult, positionValue, positionOwner) = positionChecks position;
         own = normalizePubKey (ti_ownPubKey inp);
         to = normalizePubKey (ti_toPubKey inp);
         (amtErrs, remainder) = amountChecks (ti_amountSats inp) positionValue;
         errors = posErrs @ ownershipChecks own positionOwner @ recipientChecks to (ti_toAddress inp) (ti_network inp)
           @ amtErrs @ feeChecks (ti_feeRate inp) (ti_fundingUtxos inp)
     in if errors \<noteq> [] then Inl errors
        else (case (mult, positionValue, own, to, asInteger (ti_amountSats inp), remainder, ti_feeRate inp, ti_fundingUtxos inp) of
          (Some m, Some v, Some own, Some to, Some amt, Some remainderSats, JNum feeRate, JArr us) \<Rightarrow>
            assemblePlan position m v own to amt remainderSats feeRate us
        | _ \<Rightarrow> Inl errors))"

section \<open>Model: building\<close>

text \<open>The output script of a planned output, given the lineage of the position.\<close>

definition planOutputScript :: "bytes \<Rightarrow> plan_output \<Rightarrow> tx_out result" where
  "planOutputScript outputOrigin ou =
    (if po_kind ou = OUTPUT_WHIP_CHANGE
     then Inr \<lparr>out_value = po_value ou, out_scriptPubKey = buildP2PKHScript (po_pubKey ou)\<rparr>
     else (case po_multiplier ou of
         Some m \<Rightarrow> mapR (\<lambda>s. \<lparr>out_value = po_value ou, out_scriptPubKey = s\<rparr>) (buildTransferScript (po_pubKey ou) m outputOrigin)
       | None \<Rightarrow> Inl ''multiplier must be an integer in [0, 2147483647]''))"

definition fundingCode :: "bytes \<Rightarrow> utxo \<Rightarrow> bytes result" where
  "fundingCode ownScript u =
    (if truthy (utxo_scriptPubKey u)
     then (case utxo_scriptPubKey u of JStr s \<Rightarrow> hexToBytes s | JBytes b \<Rightarrow> Inr b | _ \<Rightarrow> Inl ''TypeError'')
     else Inr ownScript)"

fun signFunding :: "signer \<Rightarrow> bytes \<Rightarrow> bytes \<Rightarrow> bytes \<Rightarrow> utxo list \<Rightarrow> nat \<Rightarrow> transaction \<Rightarrow> transaction result" where
  "signFunding signSync ownScript privKey ownPubKey [] i tx = Inr tx"
| "signFunding signSync ownScript privKey ownPubKey (u # us) i tx =
    bindR (fundingCode ownScript u) (\<lambda>scriptCode.
    bindR (signP2PKHInput signSync scriptCode privKey ownPubKey tx i SIGHASH_ALL) (\<lambda>s.
    signFunding signSync ownScript privKey ownPubKey us (i + 1) (setScriptSig tx i s)))"

text \<open>
  \<^verbatim>\<open>buildTransferTx\<close> of this module; the position's outpoint is read from the plan's own
  reference to the position object. A missing private key is \<^term>\<open>None\<close>.
\<close>

definition buildTransferTx_web :: "signer \<Rightarrow> transfer_plan \<Rightarrow> bytes option \<Rightarrow> (string \<times> transaction \<times> plan_output list) result" where
  "buildTransferTx_web signSync plan privKey =
    (if tp_outputs plan = [] then Inl ''buildTransferTx requires a plan from planTransfer''
     else (case privKey of
       None \<Rightarrow> Inl ''buildTransferTx requires a private key''
     | Some key \<Rightarrow>
       bindR (positionScriptOf (tp_position plan) (tp_ownPubKey plan) (tp_multiplier plan)) (\<lambda>positionScript.
       case (getField (tp_position plan) ''txid'', asInteger (getField (tp_position plan) ''vout'')) of
         (JStr txid, Some vout) \<Rightarrow>
           bindR (originForSpend positionScript txid vout) (\<lambda>outputOrigin.
           bindR (mapM (planOutputScript outputOrigin) (tp_outputs plan)) (\<lambda>outs.
           let tx = \<lparr>tx_version = 1,
                 tx_vin = unsignedInput txid vout # map (\<lambda>u. unsignedInput (utxo_txid u) (utxo_vout u)) (tp_fundingInputs plan),
                 tx_vout = outs, tx_locktime = 0\<rparr> in
           bindR (signSpend signSync positionScript key tx 0 SIGHASH_ALL) (\<lambda>s0.
           let ownScript = buildP2PKHScript (tp_ownPubKey plan) in
           bindR (signFunding signSync ownScript key (tp_ownPubKey plan) (tp_fundingInputs plan) 1 (setScriptSig tx 0 s0)) (\<lambda>tx.
           bindR (txToHex tx) (\<lambda>rawHex. Inr (rawHex, tx, tp_outputs plan))))))
       | _ \<Rightarrow> Inl ''TypeError'')))"

section \<open>Lemmas\<close>

definition utxoSum :: "utxo list \<Rightarrow> int" where
  "utxoSum us = sum_list (map utxo_value us)"

lemma fundingLoop_Inr:
  assumes "fundingLoop feeRate n sel (utxoSum sel) us = Inr f"
  shows "\<exists>k. fund_selected f = sel @ take k us \<and> fund_total f = utxoSum (fund_selected f) \<and> fund_fee f + fund_change f = fund_total f
    \<and> feeFor (estimateTransferSize (1 + length (fund_selected f)) n 1) feeRate \<le> fund_fee f
    \<and> (fund_change f = 0 \<or> DEFAULT_DUST_LIMIT \<le> fund_change f)"
  using assms
proof (induction us arbitrary: sel)
  case (Cons u us)
  let ?sel = "sel @ [u]" and ?fee = "feeFor (estimateTransferSize (2 + length sel) n 1) feeRate"
  have tot: "utxoSum sel + utxo_value u = utxoSum ?sel" by (simp add: utxoSum_def)
  show ?case
  proof (cases "utxoSum ?sel \<ge> ?fee")
    case True
    then have "f = \<lparr>fund_selected = ?sel, fund_total = utxoSum ?sel, fund_fee = utxoSum ?sel, fund_change = 0\<rparr>
      \<or> (f = \<lparr>fund_selected = ?sel, fund_total = utxoSum ?sel, fund_fee = ?fee, fund_change = utxoSum ?sel - ?fee\<rparr> \<and> DEFAULT_DUST_LIMIT \<le> utxoSum ?sel - ?fee)"
      using Cons.prems by (auto simp: Let_def tot split: if_splits)
    then show ?thesis using True by (intro exI [of _ 1]) auto
  next
    case False
    then have "fundingLoop feeRate n ?sel (utxoSum ?sel) us = Inr f" using Cons.prems by (simp add: Let_def tot)
    from Cons.IH [OF this] obtain k where "fund_selected f = ?sel @ take k us" "fund_total f = utxoSum (fund_selected f)"
      "fund_fee f + fund_change f = fund_total f" "feeFor (estimateTransferSize (1 + length (fund_selected f)) n 1) feeRate \<le> fund_fee f"
      "fund_change f = 0 \<or> DEFAULT_DUST_LIMIT \<le> fund_change f" by blast
    then show ?thesis by (intro exI [of _ "Suc k"]) auto
  qed
qed simp

lemma selectFunding_Inr:
  assumes "selectFunding us feeRate n = Inr f"
  shows "mset (fund_selected f) \<subseteq># mset (List.map_filter usableUtxo us) \<and> fund_total f = utxoSum (fund_selected f)
    \<and> fund_fee f + fund_change f = fund_total f
    \<and> feeFor (estimateTransferSize (1 + length (fund_selected f)) n 1) feeRate \<le> fund_fee f
    \<and> (fund_change f = 0 \<or> DEFAULT_DUST_LIMIT \<le> fund_change f)"
proof -
  let ?s = "sort_key utxo_value (List.map_filter usableUtxo us)"
  have "fundingLoop feeRate n [] (utxoSum []) ?s = Inr f"
    using assms by (simp add: selectFunding_def utxoSum_def Let_def split: if_splits)
  from fundingLoop_Inr [OF this] obtain k where k: "fund_selected f = take k ?s" "fund_total f = utxoSum (fund_selected f)"
    "fund_fee f + fund_change f = fund_total f" "feeFor (estimateTransferSize (1 + length (fund_selected f)) n 1) feeRate \<le> fund_fee f"
    "fund_change f = 0 \<or> DEFAULT_DUST_LIMIT \<le> fund_change f" by auto
  have "mset (take k ?s) \<subseteq># mset ?s" by (metis append_take_drop_id mset_append mset_subset_eq_add_left)
  then show ?thesis using k by simp
qed

lemma amountChecks_ok:
  assumes "amountChecks a (Some v) = ([], Some r)"
  shows "\<exists>amt. asInteger a = Some amt \<and> HARD_DUST_LIMIT \<le> amt \<and> r = v - amt \<and> (r = 0 \<or> HARD_DUST_LIMIT \<le> r)"
  using assms by (auto simp: amountChecks_def Let_def split: option.splits if_splits)

lemma positionChecks_ok:
  assumes "positionChecks position = ([], Some m, Some v, po)"
  shows "asInteger (getField position ''value'') = Some v \<and> 0 < v \<and> v \<le> MAX_SAFE_SATS \<and> 0 \<le> m \<and> m \<le> MAX_MULTIPLIER
    \<and> asInteger (getField position ''multiplier'') = Some m
    \<and> (\<exists>k. po = Some k \<and> normalizePubKey (getField position ''pubkey'') = Some k)
    \<and> (\<exists>t n. getField position ''txid'' = JStr t \<and> isHex64 t \<and> asInteger (getField position ''vout'') = Some n \<and> 0 \<le> n)"
  using assms by (auto simp: positionChecks_def Let_def split: if_splits option.splits jsval.splits)

lemma planTransfer_Inr:
  assumes "planTransfer inp = Inr plan"
  shows "\<exists>m v own to amt r feeRate us. positionChecks (ti_position inp) = ([], Some m, Some v, Some own)
    \<and> normalizePubKey (ti_ownPubKey inp) = Some own \<and> normalizePubKey (ti_toPubKey inp) = Some to
    \<and> recipientChecks (Some to) (ti_toAddress inp) (ti_network inp) = []
    \<and> asInteger (ti_amountSats inp) = Some amt \<and> amountChecks (ti_amountSats inp) (Some v) = ([], Some r)
    \<and> ti_feeRate inp = JNum feeRate \<and> ti_fundingUtxos inp = JArr us
    \<and> assemblePlan (ti_position inp) m v own to amt r feeRate us = Inr plan"
proof -
  obtain pe mu pv po where pc: "positionChecks (ti_position inp) = (pe, mu, pv, po)" by (metis prod.exhaust)
  obtain ae rm where ac: "amountChecks (ti_amountSats inp) pv = (ae, rm)" by fastforce
  let ?own = "normalizePubKey (ti_ownPubKey inp)" and ?to = "normalizePubKey (ti_toPubKey inp)"
  define E where "E = pe @ ownershipChecks ?own po @ recipientChecks ?to (ti_toAddress inp) (ti_network inp) @ ae
    @ feeChecks (ti_feeRate inp) (ti_fundingUtxos inp)"
  have E: "\<not> E \<noteq> []" and c: "(case (mu, pv, ?own, ?to, asInteger (ti_amountSats inp), rm, ti_feeRate inp, ti_fundingUtxos inp) of
          (Some m, Some v, Some own, Some to, Some amt, Some remainderSats, JNum feeRate, JArr us) \<Rightarrow>
            assemblePlan (ti_position inp) m v own to amt remainderSats feeRate us
        | _ \<Rightarrow> Inl E) = Inr plan"
    using assms unfolding planTransfer_def Let_def pc ac prod.case E_def [symmetric] by (metis sum.distinct(1))+
  have e: "pe = []" "ownershipChecks ?own po = []" "recipientChecks ?to (ti_toAddress inp) (ti_network inp) = []" "ae = []"
    using E by (auto simp: E_def)
  obtain m v own to amt r feeRate us where s: "mu = Some m" "pv = Some v" "?own = Some own" "?to = Some to"
    "asInteger (ti_amountSats inp) = Some amt" "rm = Some r" "ti_feeRate inp = JNum feeRate" "ti_fundingUtxos inp = JArr us"
    "assemblePlan (ti_position inp) m v own to amt r feeRate us = Inr plan"
    using c by (auto split: option.splits jsval.splits)
  have "po = Some own" using positionChecks_ok [of "ti_position inp" m v po] pc e(1,2) s(1-3)
    by (auto simp: ownershipChecks_def split: if_splits)
  then show ?thesis using pc ac e s by auto
qed

lemma normalizePubKey_size: "normalizePubKey v = Some k \<Longrightarrow> pubkeySize k"
  by (auto simp: normalizePubKey_def pubkeySize_def Let_def split: option.splits jsval.splits if_splits sum.splits)

lemma assemblePlan_Inr:
  assumes "assemblePlan position m v own to amt r feeRate us = Inr plan"
  shows "\<exists>sel. selectFunding us feeRate (if r > 0 then 2 else 1) = Inr sel \<and> tp_position plan = position \<and> tp_multiplier plan = m
    \<and> tp_ownPubKey plan = own \<and> tp_toPubKey plan = to \<and> tp_amountSats plan = amt \<and> tp_remainderSats plan = r \<and> tp_tokenValueIn plan = v
    \<and> tp_tokenValueOut plan = foldl (\<lambda>s ou. s + po_value ou) 0 (tokenOutputs (tp_outputs plan))
    \<and> tp_fundingInputs plan = fund_selected sel \<and> tp_fundingTotal plan = fund_total sel \<and> tp_fee plan = fund_fee sel
    \<and> tp_change plan = fund_change sel \<and> tp_outputs plan = planOutputs to own m amt r (fund_change sel)"
  using assms unfolding assemblePlan_def Let_def by (auto split: sum.splits)

lemma foldl_po_value: "foldl (\<lambda>s ou. s + po_value ou) a os = a + sum_list (map po_value os)"
  by (induction os arbitrary: a) (auto simp: algebra_simps)

lemma tokenOutputs_planOutputs:
  "tokenOutputs (planOutputs to own m amt r c)
    = \<lparr>po_kind = OUTPUT_TOKEN_RECIPIENT, po_value = amt, po_pubKey = to, po_multiplier = Some m\<rparr>
      # (if r > 0 then [\<lparr>po_kind = OUTPUT_TOKEN_CHANGE, po_value = r, po_pubKey = own, po_multiplier = Some m\<rparr>] else [])"
  by (simp add: tokenOutputs_def planOutputs_def)

lemma signFunding_signInputs:
  assumes "signFunding f os key pk us i tx = Inr tx'"
  shows "\<exists>cs. list_all2 (\<lambda>u c. fundingCode os u = Inr (coin_scriptCode c) \<and> coin_privKey c = key \<and> coin_pubKey c = pk) us cs
    \<and> signInputs f cs i tx = Inr tx'"
  using assms
proof (induction us arbitrary: i tx)
  case (Cons u us)
  obtain code s where s: "fundingCode os u = Inr code" "signP2PKHInput f code key pk tx i SIGHASH_ALL = Inr s"
    "signFunding f os key pk us (i + 1) (setScriptSig tx i s) = Inr tx'"
    using Cons.prems by (auto simp: bindR_eq_Inr)
  from Cons.IH [OF s(3)] obtain cs where cs: "list_all2 (\<lambda>u c. fundingCode os u = Inr (coin_scriptCode c) \<and> coin_privKey c = key \<and> coin_pubKey c = pk) us cs"
    "signInputs f cs (i + 1) (setScriptSig tx i s) = Inr tx'" by blast
  let ?c = "\<lparr>coin_txid = [], coin_vout = 0, coin_value = 0, coin_scriptCode = code, coin_privKey = key, coin_pubKey = pk\<rparr>"
  show ?case using s cs by (intro exI [of _ "?c # cs"]) simp
qed simp

lemma setScriptSig_nth0: "tx_vin tx \<noteq> [] \<Longrightarrow> in_scriptSig (tx_vin (setScriptSig tx 0 s) ! 0) = s"
  by (cases "tx_vin tx") (simp_all add: setScriptSig_def)

lemma buildTransferTx_web_Inr:
  assumes "buildTransferTx_web f plan k = Inr (raw, tx, outs)"
  shows "\<exists>key script txid vout og. k = Some key \<and> positionScriptOf (tp_position plan) (tp_ownPubKey plan) (tp_multiplier plan) = Inr script
    \<and> getField (tp_position plan) ''txid'' = JStr txid \<and> asInteger (getField (tp_position plan) ''vout'') = Some vout
    \<and> originForSpend script txid vout = Inr og \<and> mapM (planOutputScript og) (tp_outputs plan) = Inr (tx_vout tx)
    \<and> map outpointSeq (tx_vin tx) = (txid, vout, Some 0xffffffff) # map (\<lambda>u. (utxo_txid u, utxo_vout u, Some 0xffffffff)) (tp_fundingInputs plan)
    \<and> signSpend f script key tx 0 SIGHASH_ALL = Inr (in_scriptSig (tx_vin tx ! 0))
    \<and> (\<forall>i<length (tp_fundingInputs plan). \<exists>code. fundingCode (buildP2PKHScript (tp_ownPubKey plan)) (tp_fundingInputs plan ! i) = Inr code
        \<and> signP2PKHInput f code key (tp_ownPubKey plan) tx (Suc i) SIGHASH_ALL = Inr (in_scriptSig (tx_vin tx ! Suc i)))"
proof -
  obtain key where key: "k = Some key" using assms by (cases k) (auto simp: buildTransferTx_web_def split: if_splits)
  obtain script where sc: "positionScriptOf (tp_position plan) (tp_ownPubKey plan) (tp_multiplier plan) = Inr script"
    using assms by (auto simp: buildTransferTx_web_def key bindR_eq_Inr split: if_splits)
  obtain txid vout where o: "getField (tp_position plan) ''txid'' = JStr txid" "asInteger (getField (tp_position plan) ''vout'') = Some vout"
    using assms by (auto simp: buildTransferTx_web_def key sc split: if_splits jsval.splits option.splits)
  let ?tx = "\<lambda>outs. \<lparr>tx_version = 1, tx_vin = unsignedInput txid vout # map (\<lambda>u. unsignedInput (utxo_txid u) (utxo_vout u)) (tp_fundingInputs plan),
                 tx_vout = outs, tx_locktime = 0\<rparr>"
  obtain og vo s0 where t: "originForSpend script txid vout = Inr og" "mapM (planOutputScript og) (tp_outputs plan) = Inr vo"
    "signSpend f script key (?tx vo) 0 SIGHASH_ALL = Inr s0"
    "signFunding f (buildP2PKHScript (tp_ownPubKey plan)) key (tp_ownPubKey plan) (tp_fundingInputs plan) 1 (setScriptSig (?tx vo) 0 s0) = Inr tx"
    using assms unfolding buildTransferTx_web_def key sc o option.case jsval.case prod.case bindR_simps Let_def if_eq_Inr bindR_eq_Inr by blast
  have sk: "skeleton (setScriptSig (?tx vo) 0 s0) = skeleton (?tx vo)" by (rule skeleton_setScriptSig) simp
  obtain cs where cs: "list_all2 (\<lambda>u c. fundingCode (buildP2PKHScript (tp_ownPubKey plan)) u = Inr (coin_scriptCode c) \<and> coin_privKey c = key
      \<and> coin_pubKey c = tp_ownPubKey plan) (tp_fundingInputs plan) cs"
    "signInputs f cs 1 (setScriptSig (?tx vo) 0 s0) = Inr tx" using signFunding_signInputs [OF t(4)] by blast
  have l: "length cs = length (tp_fundingInputs plan)" using cs(1) by (auto dest: list_all2_lengthD)
  have i: "skeleton tx = skeleton (?tx vo)" "tx_vin tx ! 0 = tx_vin (setScriptSig (?tx vo) 0 s0) ! 0"
    and si: "\<forall>k<length cs. signP2PKHInput f (coin_scriptCode (cs ! k)) (coin_privKey (cs ! k)) (coin_pubKey (cs ! k)) tx (1 + k) SIGHASH_ALL
        = Inr (in_scriptSig (tx_vin tx ! (1 + k)))"
    using signInputs_Inr [OF cs(2)] l sk by (simp_all add: setScriptSig_def)
  have "tx_vout tx = vo" "map outpointSeq (tx_vin tx) = map outpointSeq (tx_vin (?tx vo))" using i(1) by (simp_all add: skeleton_def)
  moreover have "in_scriptSig (tx_vin tx ! 0) = s0" using i(2) setScriptSig_nth0 by simp
  moreover have "signSpend f script key tx 0 SIGHASH_ALL = Inr s0" using t(3) signSpend_skeleton [OF i(1)] by simp
  ultimately show ?thesis
    using key sc o t(1,2) si l cs(1) by (auto simp: outpointSeq_def unsignedInput_def list_all2_conv_all_nth comp_def)
qed

section \<open>Properties\<close>

text \<open>C15: A planned transfer burns no tokens and creates none. Whatever the relay and the user supplied, when
  planning succeeds the position is addressed to the wallet's own key, the token outputs of the
  plan (the recipient's amount and the sender's remainder, each above the hard dust limit) sum
  exactly to the position's value, and the fee, at least the estimate, is paid by the funding
  coins alone, whose remainder returns as change or is below dust.\<close>

theorem transfer_plan_conserves_tokens:
  assumes "planTransfer inp = Inr plan"
  shows "normalizePubKey (getField (ti_position inp) ''pubkey'') = normalizePubKey (ti_ownPubKey inp)
    \<and> asInteger (getField (ti_position inp) ''value'') = Some (sum_list (map po_value (tokenOutputs (tp_outputs plan))))
    \<and> tp_tokenValueIn plan = tp_tokenValueOut plan
    \<and> list_all (\<lambda>ou. HARD_DUST_LIMIT \<le> po_value ou \<and> po_multiplier ou = Some (tp_multiplier plan)) (tokenOutputs (tp_outputs plan))
    \<and> asInteger (ti_amountSats inp) = Some (po_value (tp_outputs plan ! 0)) \<and> normalizePubKey (ti_toPubKey inp) = Some (po_pubKey (tp_outputs plan ! 0))
    \<and> utxoSum (tp_fundingInputs plan) = tp_fee plan + tp_change plan
    \<and> sum_list (map po_value (tp_outputs plan)) + tp_fee plan = tp_tokenValueIn plan + utxoSum (tp_fundingInputs plan)
    \<and> feeFor (estimateTransferSize (1 + length (tp_fundingInputs plan)) (length (tokenOutputs (tp_outputs plan))) 1) (tp_feeRate plan) \<le> tp_fee plan
    \<and> (tp_change plan = 0 \<or> DEFAULT_DUST_LIMIT \<le> tp_change plan)"
proof -
  obtain m v own to amt r feeRate us where p: "positionChecks (ti_position inp) = ([], Some m, Some v, Some own)"
    "normalizePubKey (ti_ownPubKey inp) = Some own" "normalizePubKey (ti_toPubKey inp) = Some to"
    "asInteger (ti_amountSats inp) = Some amt" "amountChecks (ti_amountSats inp) (Some v) = ([], Some r)"
    "assemblePlan (ti_position inp) m v own to amt r feeRate us = Inr plan"
    using planTransfer_Inr [OF assms] by blast
  obtain sel where sel: "selectFunding us feeRate (if r > 0 then 2 else 1) = Inr sel" and a: "tp_multiplier plan = m" "tp_tokenValueIn plan = v"
    "tp_tokenValueOut plan = foldl (\<lambda>s ou. s + po_value ou) 0 (tokenOutputs (tp_outputs plan))" "tp_fundingInputs plan = fund_selected sel"
    "tp_fee plan = fund_fee sel" "tp_change plan = fund_change sel" "tp_outputs plan = planOutputs to own m amt r (fund_change sel)"
    using assemblePlan_Inr [OF p(6)] by blast
  have fr: "tp_feeRate plan = feeRate" using p(6) by (auto simp: assemblePlan_def Let_def split: sum.splits)
  note pc = positionChecks_ok [OF p(1)] and ac = amountChecks_ok [OF p(5)] and f = selectFunding_Inr [OF sel]
  have r: "r = v - amt" "r = 0 \<or> HARD_DUST_LIMIT \<le> r" "HARD_DUST_LIMIT \<le> amt" using ac p(4) by auto
  have d: "0 < HARD_DUST_LIMIT" "0 < DEFAULT_DUST_LIMIT"
    by (simp_all add: HARD_DUST_LIMIT_def DEFAULT_HARD_DUST_LIMIT_def DEFAULT_DUST_LIMIT_def RECOMMENDED_MIN_TX_FEE_def COIN_def)
  have t: "sum_list (map po_value (tokenOutputs (tp_outputs plan))) = v" using r d by (auto simp: a(7) tokenOutputs_planOutputs)
  have s: "sum_list (map po_value (tp_outputs plan)) = v + fund_change sel" using r d f by (auto simp: a(7) planOutputs_def)
  have l: "length (tokenOutputs (tp_outputs plan)) = (if r > 0 then 2 else 1)" by (simp add: a(7) tokenOutputs_planOutputs)
  have h: "po_value (tp_outputs plan ! 0) = amt" "po_pubKey (tp_outputs plan ! 0) = to" by (simp_all add: a(7) planOutputs_def)
  have g: "list_all (\<lambda>ou. HARD_DUST_LIMIT \<le> po_value ou \<and> po_multiplier ou = Some m) (tokenOutputs (tp_outputs plan))"
    using r by (auto simp: a(7) tokenOutputs_planOutputs)
  show ?thesis unfolding l h t s a(1) using pc p(2-4) f g fr by (simp add: a(2-6) foldl_po_value t)
qed

text \<open>C16: The built transfer moves the position. The transaction spends the planned position with its first
  input and the funding coins with the others; its token outputs are covenants for the planned
  keys and values that carry the lineage of the position's own script; and every input's
  signature is the one over the finished transaction, the first over the position's script.\<close>

theorem transfer_tx_moves_position:
  assumes "planTransfer inp = Inr plan" and "buildTransferTx_web sig plan k = Inr (raw, tx, outs)"
  shows "\<exists>key script txid vout og. k = Some key \<and> positionScriptOf (tp_position plan) (tp_ownPubKey plan) (tp_multiplier plan) = Inr script
    \<and> getField (ti_position inp) ''txid'' = JStr txid \<and> asInteger (getField (ti_position inp) ''vout'') = Some vout
    \<and> originForSpend script txid vout = Inr og
    \<and> list_all2 (\<lambda>ou t. out_value t = po_value ou \<and> (if po_kind ou = OUTPUT_WHIP_CHANGE then out_scriptPubKey t = buildP2PKHScript (po_pubKey ou)
        else parseUapScript (out_scriptPubKey t) = Some \<lparr>pubkey = po_pubKey ou, multiplier = tp_multiplier plan, origin = og, isMint = False\<rparr>))
      (tp_outputs plan) (tx_vout tx)
    \<and> map outpointSeq (tx_vin tx) = (txid, vout, Some 0xffffffff) # map (\<lambda>u. (utxo_txid u, utxo_vout u, Some 0xffffffff)) (tp_fundingInputs plan)
    \<and> signSpend sig script key tx 0 SIGHASH_ALL = Inr (in_scriptSig (tx_vin tx ! 0))
    \<and> (\<forall>i<length (tp_fundingInputs plan). \<exists>code. signP2PKHInput sig code key (tp_ownPubKey plan) tx (Suc i) SIGHASH_ALL = Inr (in_scriptSig (tx_vin tx ! Suc i)))"
proof -
  obtain m v own to amt r feeRate us where p: "normalizePubKey (ti_ownPubKey inp) = Some own" "normalizePubKey (ti_toPubKey inp) = Some to"
    "assemblePlan (ti_position inp) m v own to amt r feeRate us = Inr plan"
    using planTransfer_Inr [OF assms(1)] by blast
  obtain sel :: funding where a: "tp_position plan = ti_position inp" "tp_multiplier plan = m" "tp_outputs plan = planOutputs to own m amt r (fund_change sel)"
    using assemblePlan_Inr [OF p(3)] by blast
  have sz: "pubkeySize own" "pubkeySize to" using p normalizePubKey_size by auto
  have one: "out_value t = po_value ou \<and> (if po_kind ou = OUTPUT_WHIP_CHANGE then out_scriptPubKey t = buildP2PKHScript (po_pubKey ou)
        else parseUapScript (out_scriptPubKey t) = Some \<lparr>pubkey = po_pubKey ou, multiplier = m, origin = og, isMint = False\<rparr>)"
    if ps: "planOutputScript og ou = Inr t" and "ou \<in> set (tp_outputs plan)" for og ou t
  proof -
    have k: "pubkeySize (po_pubKey ou)" "po_kind ou \<noteq> OUTPUT_WHIP_CHANGE \<Longrightarrow> po_multiplier ou = Some m"
      using that(2) sz by (auto simp: a(3) planOutputs_def split: if_splits)
    show ?thesis
    proof (cases "po_kind ou = OUTPUT_WHIP_CHANGE")
      case True
      then show ?thesis using that(1) by (auto simp: planOutputScript_def)
    next
      case False
      then obtain s where "buildTransferScript (po_pubKey ou) m og = Inr s" "t = \<lparr>out_value = po_value ou, out_scriptPubKey = s\<rparr>"
        using ps k(2) by (auto simp: planOutputScript_def mapR_eq_Inr)
      then show ?thesis using False parse_buildTransferScript [OF _ k(1)] by simp
    qed
  qed
  obtain key script txid vout og where b: "k = Some key" "positionScriptOf (tp_position plan) (tp_ownPubKey plan) (tp_multiplier plan) = Inr script"
    "getField (tp_position plan) ''txid'' = JStr txid" "asInteger (getField (tp_position plan) ''vout'') = Some vout"
    "originForSpend script txid vout = Inr og" "mapM (planOutputScript og) (tp_outputs plan) = Inr (tx_vout tx)"
    "map outpointSeq (tx_vin tx) = (txid, vout, Some 0xffffffff) # map (\<lambda>u. (utxo_txid u, utxo_vout u, Some 0xffffffff)) (tp_fundingInputs plan)"
    "signSpend sig script key tx 0 SIGHASH_ALL = Inr (in_scriptSig (tx_vin tx ! 0))"
    "\<forall>i<length (tp_fundingInputs plan). \<exists>code. fundingCode (buildP2PKHScript (tp_ownPubKey plan)) (tp_fundingInputs plan ! i) = Inr code
        \<and> signP2PKHInput sig code key (tp_ownPubKey plan) tx (Suc i) SIGHASH_ALL = Inr (in_scriptSig (tx_vin tx ! Suc i))"
    using buildTransferTx_web_Inr [OF assms(2)] by (elim exE conjE) (rule that; assumption)
  have la: "list_all2 (\<lambda>ou t. out_value t = po_value ou \<and> (if po_kind ou = OUTPUT_WHIP_CHANGE then out_scriptPubKey t = buildP2PKHScript (po_pubKey ou)
        else parseUapScript (out_scriptPubKey t) = Some \<lparr>pubkey = po_pubKey ou, multiplier = tp_multiplier plan, origin = og, isMint = False\<rparr>))
      (tp_outputs plan) (tx_vout tx)"
    unfolding a(2) by (rule list.rel_mono_strong [OF b(6) [unfolded mapM_eq_Inr]]) (rule one)
  have si: "\<forall>i<length (tp_fundingInputs plan). \<exists>code. signP2PKHInput sig code key (tp_ownPubKey plan) tx (Suc i) SIGHASH_ALL = Inr (in_scriptSig (tx_vin tx ! Suc i))"
    using b(9) by blast
  show ?thesis
    by (rule exI [of _ key], rule exI [of _ script], rule exI [of _ txid], rule exI [of _ vout], rule exI [of _ og])
      (intro conjI b(1,2) b(3,4) [unfolded a(1)] b(5,7,8) la si)
qed

text \<open>A concrete transfer, to and from the key of the generator.\<close>

definition samplePositionObj :: jsval where
  "samplePositionObj = JObj [(''txid'', JStr (replicate 64 (CHR ''0''))), (''vout'', JInt 1), (''value'', JInt 5000000), (''multiplier'', JInt 1),
     (''pubkey'', JBytes baseBytes), (''origin'', JStr (replicate 64 (CHR ''0'')))]"

definition sampleTransferInput :: transfer_input where
  "sampleTransferInput = \<lparr>ti_position = samplePositionObj, ti_ownPubKey = JBytes baseBytes, ti_toPubKey = JBytes baseBytes, ti_toAddress = None,
     ti_network = ''mainnet'', ti_amountSats = JInt 2000000,
     ti_fundingUtxos = JArr [JObj [(''txid'', JStr (replicate 64 (CHR ''0''))), (''vout'', JInt 2), (''value'', JInt 5000000),
       (''scriptPubKey'', JBytes [OP_1])]], ti_feeRate = JInt 1000\<rparr>"

lemma normalizePubKey_base: "normalizePubKey (JBytes baseBytes) = Some baseBytes"
  using fromBytes_base by (simp add: normalizePubKey_def Let_def) (simp add: baseBytes_def)

lemma isHex64_zeros: "isHex64 (replicate 64 (CHR ''0''))" "isLowerHex64 (replicate 64 (CHR ''0''))"
  by code_simp+

lemma sample_checks: "positionChecks samplePositionObj = ([], Some 1, Some 5000000, Some baseBytes)"
  using normalizePubKey_base isHex64_zeros
  by (simp add: positionChecks_def samplePositionObj_def MAX_SAFE_SATS_def MAX_SAFE_INTEGER_def MAX_MULTIPLIER_def Let_def)

definition sampleUtxo :: utxo where
  "sampleUtxo = \<lparr>utxo_txid = replicate 64 (CHR ''0''), utxo_vout = 2, utxo_value = 5000000, utxo_scriptPubKey = JBytes [OP_1]\<rparr>"

lemma sample_funding:
  "selectFunding [JObj [(''txid'', JStr (replicate 64 (CHR ''0''))), (''vout'', JInt 2), (''value'', JInt 5000000), (''scriptPubKey'', JBytes [OP_1])]] 1000 2
    = Inr \<lparr>fund_selected = [sampleUtxo], fund_total = 5000000, fund_fee = 1000000, fund_change = 4000000\<rparr>"
proof -
  have "feeFor (estimateTransferSize (Suc (Suc 0)) 2 (Suc 0)) 1000 = 1000000"
    by (simp add: feeFor_def estimateTransferSize_def RECOMMENDED_MIN_TX_FEE_def COIN_def)
  then show ?thesis
    by (simp add: selectFunding_def usableUtxo_def List.map_filter_def sampleUtxo_def DEFAULT_DUST_LIMIT_def RECOMMENDED_MIN_TX_FEE_def COIN_def)
qed

lemma sample_plan:
  "\<exists>plan. planTransfer sampleTransferInput = Inr plan \<and> tp_position plan = samplePositionObj \<and> tp_ownPubKey plan = baseBytes \<and> tp_multiplier plan = 1
    \<and> tp_fundingInputs plan = [sampleUtxo] \<and> tp_outputs plan = planOutputs baseBytes baseBytes 1 2000000 3000000 4000000"
proof -
  have "amountChecks (JInt 2000000) (Some 5000000) = ([], Some 3000000)"
    by (simp add: amountChecks_def MAX_SAFE_SATS_def MAX_SAFE_INTEGER_def HARD_DUST_LIMIT_def DEFAULT_HARD_DUST_LIMIT_def
        DEFAULT_DUST_LIMIT_def RECOMMENDED_MIN_TX_FEE_def COIN_def)
  then show ?thesis using sample_checks normalizePubKey_base sample_funding
    by (simp add: planTransfer_def sampleTransferInput_def ownershipChecks_def recipientChecks_def feeChecks_def assemblePlan_def Let_def)
qed

theorem transfer_plan_conserves_tokens_witness:
  "\<exists>plan. planTransfer sampleTransferInput = Inr plan \<and> sum_list (map po_value (tokenOutputs (tp_outputs plan))) = 5000000"
proof -
  obtain plan where p: "planTransfer sampleTransferInput = Inr plan" using sample_plan by blast
  have "asInteger (getField (ti_position sampleTransferInput) ''value'') = Some 5000000"
    by (simp add: sampleTransferInput_def samplePositionObj_def)
  then show ?thesis using transfer_plan_conserves_tokens [OF p] p by simp
qed

lemma signSpend_sample_eq:
  assumes "signedVerbatim s" "wfTx tx" "length s \<le> 0xffffffff" "n < length (tx_vin tx)"
  shows "signSpend sampleSigner s k tx n SIGHASH_ALL = Inr [3, 0x30, 0x00, 1]"
  using assms by (simp add: signSpend_def signatureHash_def sighashPreimage_all sampleSigner_def pushData_small)

lemma signP2PKH_sample_eq:
  assumes "signedVerbatim s" "wfTx tx" "length s \<le> 0xffffffff" "n < length (tx_vin tx)" "length pk < 0x4c"
  shows "signP2PKHInput sampleSigner s k pk tx n SIGHASH_ALL = Inr ([3, 0x30, 0x00, 1] @ of_nat (length pk) # pk)"
  using assms by (simp add: signP2PKHInput_def signatureHash_def sighashPreimage_all sampleSigner_def pushData_small)

lemma wfTx_setScriptSig:
  assumes "wfTx tx" "i < length (tx_vin tx)" "length s \<le> 0xffffffff"
  shows "wfTx (setScriptSig tx i s)"
proof -
  have "wfIn (tx_vin tx ! i)" using assms(1,2) by (simp add: wfTx_def list_all_length)
  then have "wfIn ((tx_vin tx ! i)\<lparr>in_scriptSig := s\<rparr>)" using assms(3) by (simp add: wfIn_def)
  then show ?thesis using assms by (auto simp: wfTx_def setScriptSig_def list_all_length nth_list_update)
qed

lemma sample_build:
  assumes "tp_position plan = samplePositionObj" "tp_ownPubKey plan = baseBytes" "tp_multiplier plan = 1"
    "tp_fundingInputs plan = [sampleUtxo]" "tp_outputs plan = planOutputs baseBytes baseBytes 1 2000000 3000000 4000000"
  shows "\<exists>r. buildTransferTx_web sampleSigner plan (Some [7]) = Inr r"
proof -
  have lb: "length baseBytes = 65" by (simp add: baseBytes_def)
  obtain b where b: "hexToBytes (replicate 64 (CHR ''0'')) = Inr b" "length b = 32" using isTxid_hexToBytes isTxid_zeros by blast
  obtain s where s: "buildTransferScript baseBytes 1 b = Inr s"
    using parse_builders_total(2) [of baseBytes 1 b] b lb by (auto simp: pubkeySize_def MAX_MULTIPLIER_def)
  have ls: "length s = 101" using s b lb by (auto simp: buildTransferScript_def pushData_small pushMultiplier_def)
  have ps: "parseUapScript s = Some \<lparr>pubkey = baseBytes, multiplier = 1, origin = b, isMint = False\<rparr>"
    using parse_buildTransferScript [OF s] lb by (simp add: pubkeySize_def)
  have v: "signedVerbatim s" using serializeScriptCode_covenant [OF ps] by (simp add: signedVerbatim_def)
  have v1: "signedVerbatim [OP_1]" unfolding signedVerbatim_def by code_simp
  have pos: "positionScriptOf samplePositionObj baseBytes 1 = Inr s"
    using isHex64_zeros b s by (simp add: positionScriptOf_def samplePositionObj_def)
  have og: "originForSpend s (replicate 64 (CHR ''0'')) 1 = Inr b" by (rule originForSpend_transfer [OF s])
  let ?outs = "[\<lparr>out_value = 2000000, out_scriptPubKey = s\<rparr>, \<lparr>out_value = 3000000, out_scriptPubKey = s\<rparr>,
    \<lparr>out_value = 4000000, out_scriptPubKey = buildP2PKHScript baseBytes\<rparr>]"
  have outs: "mapM (planOutputScript b) (tp_outputs plan) = Inr ?outs" using s by (simp add: assms(5) planOutputs_def planOutputScript_def)
  let ?tx = "\<lparr>tx_version = 1, tx_vin = [unsignedInput (replicate 64 (CHR ''0'')) 1, unsignedInput (replicate 64 (CHR ''0'')) 2], tx_vout = ?outs, tx_locktime = 0\<rparr>"
  have w: "wfTx ?tx" using isTxid_zeros ls length_hash160 [of baseBytes]
    by (simp add: wfTx_def wfIn_def wfOut_def unsignedInput_def MAX_SAFE_INTEGER_def buildP2PKHScript_def Let_def length_p2pkhScript)
  have s0: "signSpend sampleSigner s [7] ?tx 0 SIGHASH_ALL = Inr [3, 0x30, 0x00, 1]"
    using v w ls by (intro signSpend_sample_eq) simp_all
  let ?tx1 = "setScriptSig ?tx 0 [3, 0x30, 0x00, 1]"
  have w1: "wfTx ?tx1" using w by (intro wfTx_setScriptSig) simp_all
  have l1: "length (tx_vin ?tx1) = 2" by (simp add: setScriptSig_def)
  have s1: "signP2PKHInput sampleSigner [OP_1] [7] baseBytes ?tx1 1 SIGHASH_ALL = Inr ([3, 0x30, 0x00, 1] @ of_nat (length baseBytes) # baseBytes)"
  proof (rule signP2PKH_sample_eq [OF v1 w1])
    show "1 < length (tx_vin ?tx1)" unfolding l1 by simp
  qed (use lb in simp_all)
  have "wfTx (setScriptSig ?tx1 1 ([3, 0x30, 0x00, 1] @ of_nat (length baseBytes) # baseBytes))"
  proof (rule wfTx_setScriptSig [OF w1])
    show "1 < length (tx_vin ?tx1)" unfolding l1 by simp
    show "length ([3, 0x30, 0x00, 1] @ of_nat (length baseBytes) # baseBytes) \<le> 0xffffffff" using lb by simp
  qed
  then have h: "\<exists>raw. txToHex (setScriptSig ?tx1 1 ([3, 0x30, 0x00, 1] @ of_nat (length baseBytes) # baseBytes)) = Inr raw"
    by (simp add: txToHex_def serializeTx_wf)
  have f: "signFunding sampleSigner (buildP2PKHScript baseBytes) [7] baseBytes [sampleUtxo] 1 ?tx1
    = Inr (setScriptSig ?tx1 1 ([3, 0x30, 0x00, 1] @ of_nat (length baseBytes) # baseBytes))"
    using s1 by (simp add: fundingCode_def sampleUtxo_def)
  have fields: "getField samplePositionObj ''txid'' = JStr (replicate 64 (CHR ''0''))" "asInteger (getField samplePositionObj ''vout'') = Some 1"
    by (simp_all add: samplePositionObj_def)
  have ne: "tp_outputs plan \<noteq> []" by (simp add: assms(5) planOutputs_def)
  have su: "map (\<lambda>u. unsignedInput (utxo_txid u) (utxo_vout u)) [sampleUtxo] = [unsignedInput (replicate 64 (CHR ''0'')) 2]"
    by (simp add: sampleUtxo_def)
  have e: "buildTransferTx_web sampleSigner plan (Some [7])
    = bindR (txToHex (setScriptSig ?tx1 1 ([3, 0x30, 0x00, 1] @ of_nat (length baseBytes) # baseBytes)))
        (\<lambda>raw. Inr (raw, setScriptSig ?tx1 1 ([3, 0x30, 0x00, 1] @ of_nat (length baseBytes) # baseBytes), tp_outputs plan))"
    unfolding buildTransferTx_web_def assms(1-4) option.case pos bindR_simps fields prod.case jsval.case og outs Let_def su s0 f
    by (simp only: ne if_False)
  from h obtain raw where raw: "txToHex (setScriptSig ?tx1 1 ([3, 0x30, 0x00, 1] @ of_nat (length baseBytes) # baseBytes)) = Inr raw" ..
  show ?thesis by (rule exI) (rule e [unfolded raw bindR_simps])
qed

theorem transfer_tx_moves_position_witness:
  "\<exists>plan raw tx outs. planTransfer sampleTransferInput = Inr plan \<and> buildTransferTx_web sampleSigner plan (Some [7]) = Inr (raw, tx, outs)
    \<and> length (tx_vin tx) = 2"
proof -
  obtain plan where p: "planTransfer sampleTransferInput = Inr plan" "tp_position plan = samplePositionObj" "tp_ownPubKey plan = baseBytes"
    "tp_multiplier plan = 1" "tp_fundingInputs plan = [sampleUtxo]" "tp_outputs plan = planOutputs baseBytes baseBytes 1 2000000 3000000 4000000"
    using sample_plan by blast
  obtain raw tx outs where b: "buildTransferTx_web sampleSigner plan (Some [7]) = Inr (raw, tx, outs)"
    using sample_build [OF p(2-6)] by (metis prod.exhaust)
  from transfer_tx_moves_position [OF p(1) b] have "length (map outpointSeq (tx_vin tx)) = Suc (length (tp_fundingInputs plan))"
    by (elim exE conjE) (simp only: list.size length_map)
  then have "length (tx_vin tx) = 2" unfolding p(5) by simp
  then show ?thesis using p(1) b by blast
qed

end
