(* ===== verification/Market.thy ===== *)
theory Market
  imports Orders TokenTransfer
begin

text \<open>
  The taker's half of the marketplace, \<^verbatim>\<open>contrib/uap-web/market.js\<close> (\<^verbatim>\<open>verifyPosition\<close>, \<^verbatim>\<open>planFill\<close>,
  \<^verbatim>\<open>buildFillTx\<close>), and \<^verbatim>\<open>publishFill\<close> of \<^verbatim>\<open>contrib/uap-web/app.js\<close>, which composes them. The relay is
  an argument: \<open>getRawTx\<close> answers a transaction id with a hex string, \<open>broadcast\<close> a raw
  transaction with its id, and neither is trusted. \<^verbatim>\<open>describeOrder\<close>, which only formats numbers
  for display, is left out.

  Shows that two relays that both pass verification report the same position unless they found
  two preimages of one transaction id, and that a published fill takes the position's whole
  on-chain value to the taker in its own lineage.
\<close>

section \<open>Model: verifying a position\<close>

record verified_position =
  vp_value :: int
  vp_scriptPubKey :: bytes
  vp_multiplier :: int
  vp_origin :: string
  vp_pubkey :: string

text \<open>\<^verbatim>\<open>tx.vout[order.vout]\<close>, \<^verbatim>\<open>undefined\<close> unless the index is one of the array.\<close>

definition outputAt :: "transaction \<Rightarrow> jsval \<Rightarrow> (int \<times> tx_out) option" where
  "outputAt tx v = (case asInteger v of
     None \<Rightarrow> None
   | Some n \<Rightarrow> if 0 \<le> n \<and> n < int (length (tx_vout tx)) then Some (n, tx_vout tx ! nat n) else None)"

definition chainOrigin :: "uap_script \<Rightarrow> string \<Rightarrow> int \<Rightarrow> string result" where
  "chainOrigin parsed txid n =
    (if isMint parsed then mapR bytesToHex (deriveOrigin txid n) else Inr (bytesToHex (origin parsed)))"

text \<open>The cross-checks of the relay's claims against what the bytes say.\<close>

definition crossCheck :: "jsval \<Rightarrow> jsval \<Rightarrow> tx_out \<Rightarrow> uap_script \<Rightarrow> string \<Rightarrow> verified_position result" where
  "crossCheck order position output parsed actualOrigin =
    (if (case getField order ''origin'' of JStr s \<Rightarrow> toLowerCase s \<noteq> actualOrigin | _ \<Rightarrow> True)
     then Inl ''Position verification failed: order claims origin ''
     else if getField order ''multiplier'' \<noteq> JInt (multiplier parsed)
     then Inl ''Position verification failed: order claims multiplier ''
     else if truthy position \<and> isNumber (getField position ''value'') \<and> getField position ''value'' \<noteq> JInt (out_value output)
     then Inl ''Position verification failed: the relay reported this position as worth ''
     else Inr \<lparr>vp_value = out_value output, vp_scriptPubKey = out_scriptPubKey output, vp_multiplier = multiplier parsed,
       vp_origin = actualOrigin, vp_pubkey = bytesToHex (pubkey parsed)\<rparr>)"

definition verifyPosition :: "(string \<Rightarrow> string result) \<Rightarrow> jsval \<Rightarrow> jsval \<Rightarrow> verified_position result" where
  "verifyPosition getRawTx order position =
    (case getField order ''txid'' of
       JStr txid \<Rightarrow>
         if \<not> isNumber (getField order ''vout'') then Inl ''verifyPosition: order is missing a txid/vout to verify against''
         else
           bindR (getRawTx txid) (\<lambda>rawHex.
           bindR (txidFromHex rawHex) (\<lambda>actualTxid.
           if actualTxid \<noteq> txid then Inl ''Position verification failed: the relay served transaction bytes that ''
           else (case deserializeTxHex rawHex of
               Inl e \<Rightarrow> Inl ''Position verification failed: could not parse the (hash-verified) ''
             | Inr tx \<Rightarrow> (case outputAt tx (getField order ''vout'') of
                 None \<Rightarrow> Inl ''Position verification failed: transaction ''
               | Some (n, output) \<Rightarrow> (case parseUapScript (out_scriptPubKey output) of
                   None \<Rightarrow> Inl ''Position verification failed: ''
                 | Some parsed \<Rightarrow> bindR (chainOrigin parsed txid n) (crossCheck order position output parsed))))))
     | _ \<Rightarrow> Inl ''verifyPosition: order is missing a txid/vout to verify against'')"

section \<open>Model: planning and building a fill\<close>

text \<open>
  An order as \<^verbatim>\<open>API.listOrders\<close> hands it on: the fields that function has checked have their
  types, \<^verbatim>\<open>origin\<close>, which it does not check, is any value. \<open>orderObj\<close> is the object itself.
\<close>

record market_order =
  mo_txid :: string
  mo_vout :: int
  mo_multiplier :: int
  mo_origin :: jsval
  mo_script_sig :: string
  mo_payment_script :: string
  mo_payment_value :: int

definition orderObj :: "market_order \<Rightarrow> jsval" where
  "orderObj order = JObj [(''txid'', JStr (mo_txid order)), (''vout'', JInt (mo_vout order)), (''multiplier'', JInt (mo_multiplier order)),
     (''origin'', mo_origin order), (''script_sig'', JStr (mo_script_sig order)), (''payment_script'', JStr (mo_payment_script order)),
     (''payment_value'', JInt (mo_payment_value order))]"

definition estimateFillSize :: "nat \<Rightarrow> nat \<Rightarrow> nat" where
  "estimateFillSize nInputs nOutputs = 10 + nInputs * 150 + nOutputs * 34"

record fill_plan =
  fp_takerInputs :: "utxo list"
  fp_paymentValue :: int
  fp_fee :: int
  fp_change :: int
  fp_feeRate :: rat
  fp_tokenValue :: jsval

definition planFill :: "market_order option \<Rightarrow> jsval \<Rightarrow> utxo list \<Rightarrow> bytes option \<Rightarrow> rat \<Rightarrow> string list + fill_plan" where
  "planFill order position takerUtxos takerPubkey feeRate =
    (let missing = (if order = None then [''Order is required''] else [])
           @ (if \<not> truthy position then [''Position is required''] else [])
           @ (if takerUtxos = [] then [''Taker UTXOs required''] else [])
           @ (if takerPubkey = None then [''Taker pubkey required''] else [])
     in case order of
          None \<Rightarrow> Inl missing
        | Some ord \<Rightarrow>
          if missing \<noteq> [] then Inl missing
          else (let totalUtxoValue = foldl (\<lambda>s u. s + utxo_value u) 0 takerUtxos;
                    paymentRequired = mo_payment_value ord;
                    estimatedSize = estimateFillSize (1 + length takerUtxos) (2 + 1);
                    estimated = \<lceil>of_nat estimatedSize * feeRate / 1000\<rceil>;
                    minFee = max estimated RECOMMENDED_MIN_TX_FEE;
                    totalNeeded = paymentRequired + minFee;
                    change = totalUtxoValue - totalNeeded;
                    errors = (if totalUtxoValue < totalNeeded then [''Insufficient funds: need ''] else [])
                      @ (if paymentRequired < HARD_DUST_LIMIT then [''Payment value ''] else [])
                      @ (if totalUtxoValue \<ge> totalNeeded \<and> change > 0 \<and> change < DEFAULT_DUST_LIMIT
                         then [''Transaction produces dust change (''] else [])
                in if errors \<noteq> [] then Inl errors
                   else Inr \<lparr>fp_takerInputs = takerUtxos, fp_paymentValue = paymentRequired, fp_fee = minFee,
                     fp_change = totalUtxoValue - paymentRequired - minFee, fp_feeRate = feeRate,
                     fp_tokenValue = getField position ''value''\<rparr>))"

text \<open>The taker's inputs are all P2PKH coins of the taker's own key.\<close>

definition takerCoin :: "bytes \<Rightarrow> bytes \<Rightarrow> utxo \<Rightarrow> coin" where
  "takerCoin privKey pubKey u = \<lparr>coin_txid = utxo_txid u, coin_vout = utxo_vout u, coin_value = utxo_value u,
     coin_scriptCode = buildP2PKHScript pubKey, coin_privKey = privKey, coin_pubKey = pubKey\<rparr>"

definition buildFillTx :: "signer \<Rightarrow> fill_plan \<Rightarrow> bytes \<Rightarrow> bytes \<Rightarrow> market_order \<Rightarrow> int \<Rightarrow> utxo list \<Rightarrow> (string \<times> transaction) result" where
  "buildFillTx signSync plan privKey pubKey order positionValue takerUtxos =
    (case mo_origin order of
       JStr og \<Rightarrow>
         if \<not> isLowerHex64 og then Inl ''this order does not publish its position's lineage origin, so the ''
         else
           bindR (hexToBytes og) (\<lambda>originBytes.
           bindR (hexToBytes (mo_script_sig order)) (\<lambda>scriptSig.
           bindR (hexToBytes (mo_payment_script order)) (\<lambda>paymentScript.
           bindR (fillOrder
             \<lparr>ord_scriptSig = scriptSig, ord_txid = mo_txid order, ord_vout = mo_vout order, ord_paymentScript = Some paymentScript,
              ord_paymentValue = mo_payment_value order, ord_origin = Some originBytes, ord_scriptCode = []\<rparr>
             \<lparr>fill_toPubkey = pubKey, fill_multiplier = mo_multiplier order, fill_tokenValue = positionValue,
              fill_takerInputs = map (\<lambda>u. (utxo_txid u, utxo_vout u)) takerUtxos,
              fill_changeScript = (if fp_change plan \<ge> DEFAULT_DUST_LIMIT then buildP2PKHScript pubKey else []),
              fill_changeValue = (if fp_change plan \<ge> DEFAULT_DUST_LIMIT then fp_change plan else 0)\<rparr>) (\<lambda>tx.
           bindR (signInputs signSync (map (takerCoin privKey pubKey) takerUtxos) 1 tx) (\<lambda>tx.
           bindR (txToHex tx) (\<lambda>rawHex. Inr (rawHex, tx)))))))
     | _ \<Rightarrow> Inl ''this order does not publish its position's lineage origin, so the '')"

text \<open>
  \<^verbatim>\<open>publishFill\<close> of the application: verify, then build against the verified value with the key
  derived from the private key, then hand over to the relay. It returns failures instead of throwing them.
\<close>

definition publishFill :: "(string \<Rightarrow> string result) \<Rightarrow> (string \<Rightarrow> string result) \<Rightarrow> signer \<Rightarrow> (bytes \<Rightarrow> bytes result)
    \<Rightarrow> fill_plan \<Rightarrow> bytes \<Rightarrow> market_order \<Rightarrow> jsval \<Rightarrow> utxo list \<Rightarrow> string result" where
  "publishFill getRawTx broadcast signSync getPub plan privKey order position takerUtxos =
    bindR (verifyPosition getRawTx (orderObj order) position) (\<lambda>verified.
    bindR (getPub privKey) (\<lambda>pubKey.
    bindR (buildFillTx signSync plan privKey pubKey order (vp_value verified) takerUtxos) (\<lambda>(rawHex, tx).
    broadcast rawHex)))"

section \<open>Lemmas\<close>

lemma toLowerCase_lower: "\<forall>c\<in>set s. isLowerHex c \<Longrightarrow> toLowerCase s = s"
  by (induction s) (auto simp: toLowerCase_def lowerChar_def isLowerHex_def Let_def)

lemma txidFromBytes_inj: "txidFromBytes a = txidFromBytes b \<longleftrightarrow> hash256 a = hash256 b"
  by (metis bytesToHex_inj reverseBytes_simps(2) txidFromBytes_def)

text \<open>The origin read for verification is the one a spend of the output continues.\<close>

lemma chainOrigin_eq:
  assumes "parseUapScript s = Some u"
  shows "chainOrigin u txid n = mapR bytesToHex (originForSpend s txid n)"
proof -
  have "rebuildScript u = Inr s" using parseUapScript_rebuild [OF assms] by simp
  then show ?thesis
    using originForSpend_mint [of "pubkey u" "multiplier u" s txid n] originForSpend_transfer [of "pubkey u" "multiplier u" "origin u" s txid n]
    by (auto simp: chainOrigin_def rebuildScript_def mapR_def split: if_splits)
qed

lemma crossCheck_Inr:
  assumes "crossCheck order position output u og = Inr v"
  shows "(\<exists>os. getField order ''origin'' = JStr os \<and> toLowerCase os = og) \<and> getField order ''multiplier'' = JInt (multiplier u)
    \<and> v = \<lparr>vp_value = out_value output, vp_scriptPubKey = out_scriptPubKey output, vp_multiplier = multiplier u,
       vp_origin = og, vp_pubkey = bytesToHex (pubkey u)\<rparr>"
  using assms by (auto simp: crossCheck_def split: if_splits jsval.splits)

lemma outputAt_Some:
  "outputAt tx v = Some (n, ou) \<longleftrightarrow> v = JInt n \<and> 0 \<le> n \<and> n < int (length (tx_vout tx)) \<and> ou = tx_vout tx ! nat n"
  by (auto simp: outputAt_def asInteger_Some split: option.splits if_splits)

text \<open>What verification establishes: every reported figure is read from bytes that hash to the order's transaction id.\<close>

definition verifiedAs :: "(string \<Rightarrow> string result) \<Rightarrow> jsval \<Rightarrow> verified_position \<Rightarrow> bytes \<Rightarrow> bool" where
  "verifiedAs getRawTx order v bs \<longleftrightarrow> (\<exists>raw tx n u og os.
     getRawTx (txidFromBytes bs) = Inr raw \<and> hexToBytes raw = Inr bs \<and> getField order ''txid'' = JStr (txidFromBytes bs)
     \<and> deserializeTx bs = Inr tx \<and> getField order ''vout'' = JInt n \<and> 0 \<le> n \<and> n < int (length (tx_vout tx))
     \<and> parseUapScript (out_scriptPubKey (tx_vout tx ! nat n)) = Some u
     \<and> originForSpend (out_scriptPubKey (tx_vout tx ! nat n)) (txidFromBytes bs) n = Inr og
     \<and> getField order ''origin'' = JStr os \<and> toLowerCase os = bytesToHex og \<and> getField order ''multiplier'' = JInt (multiplier u)
     \<and> v = \<lparr>vp_value = out_value (tx_vout tx ! nat n), vp_scriptPubKey = out_scriptPubKey (tx_vout tx ! nat n),
         vp_multiplier = multiplier u, vp_origin = bytesToHex og, vp_pubkey = bytesToHex (pubkey u)\<rparr>)"

lemma verifyPosition_Inr:
  assumes "verifyPosition getRawTx order position = Inr v"
  shows "\<exists>bs. verifiedAs getRawTx order v bs"
proof -
  obtain txid where t: "getField order ''txid'' = JStr txid" using assms by (auto simp: verifyPosition_def split: jsval.splits)
  obtain raw bs where r: "getRawTx txid = Inr raw" "hexToBytes raw = Inr bs" "txidFromBytes bs = txid"
    using assms by (auto simp: verifyPosition_def t txidFromHex_def mapR_eq_Inr result_simps split: if_splits)
  have d: "deserializeTxHex raw = deserializeTx bs" "txidFromHex raw = Inr txid" using r by (simp_all add: deserializeTxHex_def txidFromHex_def)
  obtain tx where tx: "deserializeTx bs = Inr tx"
    using assms by (auto simp: verifyPosition_def t r(1) d split: if_splits sum.splits)
  obtain n ou where o: "outputAt tx (getField order ''vout'') = Some (n, ou)"
    using assms by (auto simp: verifyPosition_def t r(1) d tx split: if_splits option.splits)
  obtain u where u: "parseUapScript (out_scriptPubKey ou) = Some u"
    using assms by (auto simp: verifyPosition_def t r(1) d tx o split: if_splits option.splits)
  obtain og where og: "originForSpend (out_scriptPubKey ou) txid n = Inr og" and c: "crossCheck order position ou u (bytesToHex og) = Inr v"
    using assms by (auto simp: verifyPosition_def t r(1) d tx o u chainOrigin_eq [OF u] mapR_eq_Inr result_simps split: if_splits)
  from crossCheck_Inr [OF c] obtain os where os: "getField order ''origin'' = JStr os" "toLowerCase os = bytesToHex og"
    "getField order ''multiplier'' = JInt (multiplier u)" "v = \<lparr>vp_value = out_value ou, vp_scriptPubKey = out_scriptPubKey ou,
         vp_multiplier = multiplier u, vp_origin = bytesToHex og, vp_pubkey = bytesToHex (pubkey u)\<rparr>" by blast
  have "verifiedAs getRawTx order v bs"
    unfolding verifiedAs_def r(3) using t r tx o u og os by (auto simp: outputAt_Some)
  then show ?thesis ..
qed

lemma verifiedAs_unique:
  assumes "verifiedAs g order v bs" "verifiedAs h order w bs"
  shows "v = w"
  using assms unfolding verifiedAs_def by (elim exE conjE) simp

lemma planFill_Inr:
  assumes "planFill (Some order) position us pk rate = Inr plan"
  shows "fp_takerInputs plan = us \<and> fp_change plan = utxoSum us - mo_payment_value order - fp_fee plan
    \<and> (fp_change plan = 0 \<or> DEFAULT_DUST_LIMIT \<le> fp_change plan) \<and> HARD_DUST_LIMIT \<le> mo_payment_value order
    \<and> max \<lceil>of_nat (estimateFillSize (1 + length us) 3) * rate / 1000\<rceil> RECOMMENDED_MIN_TX_FEE = fp_fee plan"
proof -
  have s: "foldl (\<lambda>s u. s + utxo_value u) a us = a + utxoSum us" for a
    by (induction us arbitrary: a) (simp_all add: utxoSum_def)
  show ?thesis using assms unfolding planFill_def Let_def s by (auto split: if_splits)
qed

text \<open>The transaction that \<^verbatim>\<open>buildFillTx\<close> completes, output by output.\<close>

lemma buildFillTx_Inr:
  assumes "buildFillTx sig plan privKey pk order value us = Inr (raw, tx)" and "pubkeySize pk"
  shows "tx_version tx = 1 \<and> tx_locktime tx = 0 \<and> (\<exists>og ss ps spk. mo_origin order = JStr (bytesToHex og) \<and> length og = 32 \<and> hexToBytes (mo_script_sig order) = Inr ss
    \<and> hexToBytes (mo_payment_script order) = Inr ps
    \<and> parseUapScript spk = Some \<lparr>pubkey = pk, multiplier = mo_multiplier order, origin = og, isMint = False\<rparr>
    \<and> tx_vout tx = [\<lparr>out_value = mo_payment_value order, out_scriptPubKey = ps\<rparr>, \<lparr>out_value = value, out_scriptPubKey = spk\<rparr>]
        @ (if DEFAULT_DUST_LIMIT \<le> fp_change plan then [\<lparr>out_value = fp_change plan, out_scriptPubKey = buildP2PKHScript pk\<rparr>] else [])
    \<and> map outpointSeq (tx_vin tx) = (mo_txid order, mo_vout order, Some 0xffffffff) # map (\<lambda>u. (utxo_txid u, utxo_vout u, Some 0xffffffff)) us
    \<and> in_scriptSig (tx_vin tx ! 0) = ss \<and> txToHex tx = Inr raw
    \<and> (\<forall>k<length us. signP2PKHInput sig (buildP2PKHScript pk) privKey pk tx (Suc k) SIGHASH_ALL = Inr (in_scriptSig (tx_vin tx ! Suc k))))"
proof -
  obtain os where os: "mo_origin order = JStr os" "isLowerHex64 os" using assms(1) by (auto simp: buildFillTx_def split: jsval.splits if_splits)
  define og where "og = hexPairs os"
  have og: "hexToBytes os = Inr og" "length og = 32" "bytesToHex og = os"
    using os(2) isTxid_hexToBytes [of os] by (simp_all add: og_def isLowerHex64_isTxid)
  let ?opts = "\<lparr>fill_toPubkey = pk, fill_multiplier = mo_multiplier order, fill_tokenValue = value,
    fill_takerInputs = map (\<lambda>u. (utxo_txid u, utxo_vout u)) us,
    fill_changeScript = (if fp_change plan \<ge> DEFAULT_DUST_LIMIT then buildP2PKHScript pk else []),
    fill_changeValue = (if fp_change plan \<ge> DEFAULT_DUST_LIMIT then fp_change plan else 0)\<rparr>"
  obtain ss ps tx0 where b: "hexToBytes (mo_script_sig order) = Inr ss" "hexToBytes (mo_payment_script order) = Inr ps"
    "fillOrder \<lparr>ord_scriptSig = ss, ord_txid = mo_txid order, ord_vout = mo_vout order, ord_paymentScript = Some ps,
      ord_paymentValue = mo_payment_value order, ord_origin = Some og, ord_scriptCode = []\<rparr> ?opts = Inr tx0"
    "signInputs sig (map (takerCoin privKey pk) us) 1 tx0 = Inr tx" "txToHex tx = Inr raw"
    using assms(1) by (auto simp: buildFillTx_def os og result_simps)
  obtain spk where spk: "buildTransferScript pk (mo_multiplier order) og = Inr spk"
    and v: "tx_version tx0 = 1" "tx_locktime tx0 = 0" and t: "tx_vin tx0 = (unsignedInput (mo_txid order) (mo_vout order))\<lparr>in_scriptSig := ss\<rparr> # map (\<lambda>u. unsignedInput (utxo_txid u) (utxo_vout u)) us"
      "tx_vout tx0 = [\<lparr>out_value = mo_payment_value order, out_scriptPubKey = ps\<rparr>, \<lparr>out_value = value, out_scriptPubKey = spk\<rparr>]
        @ (if fill_changeValue ?opts \<noteq> 0 then [\<lparr>out_value = fill_changeValue ?opts, out_scriptPubKey = fill_changeScript ?opts\<rparr>] else [])"
    using fillOrder_Inr [OF b(3)] by (auto simp: comp_def)
  have dust: "0 < DEFAULT_DUST_LIMIT" by (simp add: DEFAULT_DUST_LIMIT_def RECOMMENDED_MIN_TX_FEE_def COIN_def)
  have si: "skeleton tx = skeleton tx0" "tx_vin tx ! 0 = tx_vin tx0 ! 0"
    "\<forall>k<length us. signP2PKHInput sig (buildP2PKHScript pk) privKey pk tx (Suc k) SIGHASH_ALL = Inr (in_scriptSig (tx_vin tx ! Suc k))"
    using signInputs_Inr [OF b(4)] by (auto simp: t(1) takerCoin_def)
  have vi: "map outpointSeq (tx_vin tx) = (mo_txid order, mo_vout order, Some 0xffffffff) # map (\<lambda>u. (utxo_txid u, utxo_vout u, Some 0xffffffff)) us"
    using si(1) by (simp add: skeleton_def t(1) comp_def outpointSeq_def unsignedInput_def)
  have vo: "tx_vout tx = [\<lparr>out_value = mo_payment_value order, out_scriptPubKey = ps\<rparr>, \<lparr>out_value = value, out_scriptPubKey = spk\<rparr>]
        @ (if DEFAULT_DUST_LIMIT \<le> fp_change plan then [\<lparr>out_value = fp_change plan, out_scriptPubKey = buildP2PKHScript pk\<rparr>] else [])"
    using si(1) dust by (auto simp: skeleton_def t(2))
  have s0: "in_scriptSig (tx_vin tx ! 0) = ss" by (simp add: si(2) t(1))
  have vl: "tx_version tx = 1" "tx_locktime tx = 0" using si(1) v by (simp_all add: skeleton_def)
  show ?thesis
    by (intro conjI vl, rule exI [of _ og], rule exI [of _ ss], rule exI [of _ ps], rule exI [of _ spk])
      (intro conjI os(1) [folded og(3)] og(2) b(1,2,5) parse_buildTransferScript [OF spk assms(2)] vo vi s0 si(3))
qed

section \<open>Properties\<close>

text \<open>C3: A relay cannot misreport a position. When the same order passes verification against two
  relays, whatever else they claim, each served bytes that hash to the order's transaction id,
  and if these are the same bytes both verifications return the same value, script, multiplier,
  origin and key: a different answer needs a second preimage of the transaction id.\<close>

theorem relay_cannot_misreport_position:
  assumes "verifyPosition relay1 order position1 = Inr v1" and "verifyPosition relay2 order position2 = Inr v2"
  shows "\<exists>txid raw1 raw2 bs1 bs2. getField order ''txid'' = JStr txid \<and> relay1 txid = Inr raw1 \<and> relay2 txid = Inr raw2
    \<and> hexToBytes raw1 = Inr bs1 \<and> hexToBytes raw2 = Inr bs2 \<and> txidFromBytes bs1 = txid
    \<and> hash256 bs1 = hash256 bs2 \<and> (bs1 \<noteq> bs2 \<or> v1 = v2)"
proof -
  obtain bs1 bs2 where b: "verifiedAs relay1 order v1 bs1" "verifiedAs relay2 order v2 bs2" using assms verifyPosition_Inr by blast
  have "txidFromBytes bs1 = txidFromBytes bs2" using b unfolding verifiedAs_def by (elim exE conjE) simp
  moreover have "bs1 \<noteq> bs2 \<or> v1 = v2" using b verifiedAs_unique by blast
  ultimately show ?thesis using b unfolding verifiedAs_def txidFromBytes_inj [symmetric] by metis
qed

text \<open>C1: A published fill takes the whole position. When a planned fill has been handed to the relay, the
  position's output was read from bytes that hash to the order's transaction id; the transaction
  that was broadcast pays the maker's price first, then moves exactly the on-chain value of the
  position to the taker's key, with the multiplier and lineage of the on-chain script; the maker's
  scriptSig is the published one, all other inputs are the taker's own, signed over the final
  transaction, and the taker's coins pay the price, the planned fee and the change, nothing else.\<close>

theorem published_fill_takes_whole_position:
  assumes "planFill (Some order) position us (Some pk) rate = Inr plan" and "getPub privKey = Inr pk" and "length pk = 33 \<or> length pk = 65"
    and "publishFill getRawTx broadcast sig getPub plan privKey order position us = Inr txid"
  shows "\<exists>bs chain u og raw tx ss ps. txidFromBytes bs = mo_txid order \<and> mapR hexToBytes (getRawTx (mo_txid order)) = Inr (Inr bs)
    \<and> deserializeTx bs = Inr chain \<and> 0 \<le> mo_vout order \<and> mo_vout order < int (length (tx_vout chain))
    \<and> parseUapScript (out_scriptPubKey (tx_vout chain ! nat (mo_vout order))) = Some u
    \<and> originForSpend (out_scriptPubKey (tx_vout chain ! nat (mo_vout order))) (mo_txid order) (mo_vout order) = Inr og
    \<and> txToHex tx = Inr raw \<and> broadcast raw = Inr txid
    \<and> hexToBytes (mo_payment_script order) = Inr ps \<and> tx_vout tx ! 0 = \<lparr>out_value = mo_payment_value order, out_scriptPubKey = ps\<rparr>
    \<and> out_value (tx_vout tx ! 1) = out_value (tx_vout chain ! nat (mo_vout order))
    \<and> parseUapScript (out_scriptPubKey (tx_vout tx ! 1)) = Some \<lparr>pubkey = pk, multiplier = multiplier u, origin = og, isMint = False\<rparr>
    \<and> map outpointSeq (tx_vin tx) = (mo_txid order, mo_vout order, Some 0xffffffff) # map (\<lambda>u. (utxo_txid u, utxo_vout u, Some 0xffffffff)) us
    \<and> hexToBytes (mo_script_sig order) = Inr ss \<and> in_scriptSig (tx_vin tx ! 0) = ss
    \<and> (\<forall>k<length us. signP2PKHInput sig (buildP2PKHScript pk) privKey pk tx (Suc k) SIGHASH_ALL = Inr (in_scriptSig (tx_vin tx ! Suc k)))
    \<and> sum_list (map out_value (tx_vout tx)) + fp_fee plan = out_value (tx_vout chain ! nat (mo_vout order)) + utxoSum us"
proof -
  obtain v raw tx where v: "verifyPosition getRawTx (orderObj order) position = Inr v"
    and b: "buildFillTx sig plan privKey pk order (vp_value v) us = Inr (raw, tx)" "broadcast raw = Inr txid"
    using assms(4) by (auto simp: publishFill_def assms(2) result_simps)
  obtain bs where "verifiedAs getRawTx (orderObj order) v bs" using verifyPosition_Inr [OF v] ..
  then have "txidFromBytes bs = mo_txid order" and "\<exists>raw0 chain u og os. getRawTx (txidFromBytes bs) = Inr raw0 \<and> hexToBytes raw0 = Inr bs
    \<and> deserializeTx bs = Inr chain \<and> 0 \<le> mo_vout order \<and> mo_vout order < int (length (tx_vout chain))
    \<and> parseUapScript (out_scriptPubKey (tx_vout chain ! nat (mo_vout order))) = Some u
    \<and> originForSpend (out_scriptPubKey (tx_vout chain ! nat (mo_vout order))) (txidFromBytes bs) (mo_vout order) = Inr og
    \<and> mo_origin order = JStr os \<and> toLowerCase os = bytesToHex og \<and> mo_multiplier order = multiplier u
    \<and> vp_value v = out_value (tx_vout chain ! nat (mo_vout order))"
    by (simp_all add: verifiedAs_def orderObj_def) fastforce+
  then obtain raw0 chain u og os where c: "getRawTx (mo_txid order) = Inr raw0" "hexToBytes raw0 = Inr bs" "txidFromBytes bs = mo_txid order"
    "deserializeTx bs = Inr chain" "0 \<le> mo_vout order" "mo_vout order < int (length (tx_vout chain))"
    "parseUapScript (out_scriptPubKey (tx_vout chain ! nat (mo_vout order))) = Some u"
    "originForSpend (out_scriptPubKey (tx_vout chain ! nat (mo_vout order))) (mo_txid order) (mo_vout order) = Inr og"
    "mo_origin order = JStr os" "toLowerCase os = bytesToHex og" "mo_multiplier order = multiplier u"
    "vp_value v = out_value (tx_vout chain ! nat (mo_vout order))"
    by (elim exE conjE) (rule that; simp)
  have "pubkeySize pk" using assms(3) by (simp add: pubkeySize_def)
  from conjunct2 [OF conjunct2 [OF buildFillTx_Inr [OF b(1) this]]] obtain og' ss ps spk where f: "mo_origin order = JStr (bytesToHex og')" "hexToBytes (mo_script_sig order) = Inr ss"
    "hexToBytes (mo_payment_script order) = Inr ps" "parseUapScript spk = Some \<lparr>pubkey = pk, multiplier = mo_multiplier order, origin = og', isMint = False\<rparr>"
    "tx_vout tx = [\<lparr>out_value = mo_payment_value order, out_scriptPubKey = ps\<rparr>, \<lparr>out_value = vp_value v, out_scriptPubKey = spk\<rparr>]
        @ (if DEFAULT_DUST_LIMIT \<le> fp_change plan then [\<lparr>out_value = fp_change plan, out_scriptPubKey = buildP2PKHScript pk\<rparr>] else [])"
    "map outpointSeq (tx_vin tx) = (mo_txid order, mo_vout order, Some 0xffffffff) # map (\<lambda>u. (utxo_txid u, utxo_vout u, Some 0xffffffff)) us"
    "in_scriptSig (tx_vin tx ! 0) = ss" "txToHex tx = Inr raw"
    "\<forall>k<length us. signP2PKHInput sig (buildP2PKHScript pk) privKey pk tx (Suc k) SIGHASH_ALL = Inr (in_scriptSig (tx_vin tx ! Suc k))"
    by (elim exE conjE) (rule that; assumption)
  have "og' = og" using c(9,10) f(1) toLowerCase_lower [of os] isLowerHex_bytesToHex [of og'] by (simp add: bytesToHex_inj)
  note p = planFill_Inr [OF assms(1)]
  have "sum_list (map out_value (tx_vout tx)) + fp_fee plan = vp_value v + utxoSum us" using p by (auto simp: f(5))
  then have s: "sum_list (map out_value (tx_vout tx)) + fp_fee plan = out_value (tx_vout chain ! nat (mo_vout order)) + utxoSum us" using c(12) by simp
  have r: "mapR hexToBytes (getRawTx (mo_txid order)) = Inr (Inr bs)" using c(1,2) by (simp add: mapR_def)
  have o: "tx_vout tx ! 0 = \<lparr>out_value = mo_payment_value order, out_scriptPubKey = ps\<rparr>" "out_value (tx_vout tx ! 1) = out_value (tx_vout chain ! nat (mo_vout order))"
    "parseUapScript (out_scriptPubKey (tx_vout tx ! 1)) = Some \<lparr>pubkey = pk, multiplier = multiplier u, origin = og, isMint = False\<rparr>"
    using f(4) c(11,12) \<open>og' = og\<close> by (simp_all add: f(5))
  show ?thesis
    by (rule exI [of _ bs], rule exI [of _ chain], rule exI [of _ u], rule exI [of _ og], rule exI [of _ raw], rule exI [of _ tx],
        rule exI [of _ ss], rule exI [of _ ps]) (intro conjI c r f(2,3,6-9) o s b(2))
qed

text \<open>A payment-to-key-hash script is signed as it stands, whatever bytes the hash has.\<close>

lemma signedVerbatim_p2pkh: "signedVerbatim (buildP2PKHScript pk)"
proof -
  define h where "h = hash160 pk"
  have l: "length h = 20" by (simp add: h_def length_hash160)
  have s: "buildP2PKHScript pk = [0x76, 0xa9, 0x14] @ h @ [0x88, 0xac]" by (simp add: buildP2PKHScript_def h_def p2pkhScript_eq Let_def)
  let ?ps = "[scriptPush False 0x76 [], scriptPush False 0xa9 [], scriptPush True 0x14 h, scriptPush False 0x88 [], scriptPush False 0xac []]"
  have ps: "readPushes (buildP2PKHScript pk) = Inr ?ps" unfolding s using l by simp
  have r: "rawOps (buildP2PKHScript pk) 0 = map rawPush ?ps" using ps by (intro rawOps_pushes) simp_all
  have "filter (\<lambda>opn. \<not> isSeparator opn) (map rawPush ?ps) = map rawPush ?ps" "filter isSeparator (map rawPush ?ps) = []"
    by (simp_all add: rawPush_def)
  moreover have "concat (map rawPush ?ps) = buildP2PKHScript pk" using readPushes_raw [OF ps] by simp
  ultimately show ?thesis by (simp add: signedVerbatim_def serializeScriptCode_spec r)
qed

text \<open>A concrete position on chain, an honest relay, and an order for it.\<close>

definition sampleChainTx :: transaction where
  "sampleChainTx = \<lparr>tx_version = 1, tx_vin = [unsignedInput (replicate 64 (CHR ''0'')) 0],
     tx_vout = [\<lparr>out_value = 5000000, out_scriptPubKey = samplePos\<rparr>], tx_locktime = 0\<rparr>"

definition sampleRelay :: "string \<Rightarrow> string result" where
  "sampleRelay txid = txToHex sampleChainTx"

definition sampleMarketOrder :: market_order where
  "sampleMarketOrder = \<lparr>mo_txid = txidFromBytes (projr (serializeTx sampleChainTx)), mo_vout = 0, mo_multiplier = 1,
     mo_origin = JStr (bytesToHex (replicate 32 9)), mo_script_sig = ''00'', mo_payment_script = ''51'', mo_payment_value = 1000000\<rparr>"

lemma wf_sampleChainTx: "wfTx sampleChainTx"
  using isTxid_zeros by (simp add: sampleChainTx_def unsignedInput_def wfTx_def wfIn_def wfOut_def MAX_SAFE_INTEGER_def length_samplePos)

lemma verify_sample:
  "verifyPosition sampleRelay (orderObj sampleMarketOrder) (JObj [(''value'', JInt 5000000)])
    = Inr \<lparr>vp_value = 5000000, vp_scriptPubKey = samplePos, vp_multiplier = 1, vp_origin = bytesToHex (replicate 32 9), vp_pubkey = bytesToHex (replicate 33 2)\<rparr>"
proof -
  let ?bs = "txBytes sampleChainTx"
  have raw: "sampleRelay t = Inr (bytesToHex ?bs)" for t by (simp add: sampleRelay_def txToHex_def serializeTx_wf [OF wf_sampleChainTx])
  have id: "mo_txid sampleMarketOrder = txidFromBytes ?bs" by (simp add: sampleMarketOrder_def serializeTx_wf [OF wf_sampleChainTx])
  have f: "getField (orderObj sampleMarketOrder) ''txid'' = JStr (txidFromBytes ?bs)" "getField (orderObj sampleMarketOrder) ''vout'' = JInt 0"
    "getField (orderObj sampleMarketOrder) ''multiplier'' = JInt 1" "getField (orderObj sampleMarketOrder) ''origin'' = JStr (bytesToHex (replicate 32 9))"
    by (simp_all add: orderObj_def id) (simp_all add: sampleMarketOrder_def)
  have lo: "toLowerCase (bytesToHex (replicate 32 9)) = bytesToHex (replicate 32 9)" by (rule toLowerCase_lower) (rule isLowerHex_bytesToHex)
  have d: "deserializeTxHex (bytesToHex ?bs) = Inr sampleChainTx" by (simp add: deserializeTxHex_def deserializeTx_txBytes [OF wf_sampleChainTx])
  have o: "outputAt sampleChainTx (JNum 0) = Some (0, \<lparr>out_value = 5000000, out_scriptPubKey = samplePos\<rparr>)"
    by (simp add: outputAt_def sampleChainTx_def)
  show ?thesis
    unfolding verifyPosition_def f jsval.case raw bindR_simps
    by (simp add: txidFromHex_def d o parse_samplePos chainOrigin_def crossCheck_def f lo)
qed

theorem relay_cannot_misreport_position_witness:
  "\<exists>v. verifyPosition sampleRelay (orderObj sampleMarketOrder) (JObj [(''value'', JInt 5000000)]) = Inr v \<and> vp_value v = 5000000
    \<and> (\<exists>txid. getField (orderObj sampleMarketOrder) ''txid'' = JStr txid \<and> (\<exists>raw bs. sampleRelay txid = Inr raw \<and> hexToBytes raw = Inr bs \<and> txidFromBytes bs = txid))"
  using relay_cannot_misreport_position [OF verify_sample verify_sample] verify_sample by auto

definition sampleFillPlan :: fill_plan where
  "sampleFillPlan = \<lparr>fp_takerInputs = [sampleUtxo], fp_paymentValue = 1000000, fp_fee = 1000000, fp_change = 3000000, fp_feeRate = 1000, fp_tokenValue = JInt 5000000\<rparr>"

lemma plan_sample:
  "planFill (Some sampleMarketOrder) (JObj [(''value'', JInt 5000000)]) [sampleUtxo] (Some (replicate 33 2)) 1000 = Inr sampleFillPlan"
  by (simp add: planFill_def Let_def sampleMarketOrder_def sampleUtxo_def sampleFillPlan_def estimateFillSize_def HARD_DUST_LIMIT_def
      DEFAULT_HARD_DUST_LIMIT_def DEFAULT_DUST_LIMIT_def RECOMMENDED_MIN_TX_FEE_def COIN_def)

lemma buildFillTx_sample:
  assumes "isTxid (mo_txid order)" "0 \<le> mo_vout order" "mo_vout order \<le> 0xffffffff" "mo_origin order = JStr (bytesToHex og)" "length og = 32"
    "mo_script_sig order = bytesToHex ss" "mo_payment_script order = bytesToHex ps" "length ss \<le> 1000" "length ps \<le> 1000"
    "mo_multiplier order = 1" "\<bar>mo_payment_value order\<bar> \<le> MAX_SAFE_INTEGER"
  shows "\<exists>raw tx. buildFillTx sampleSigner sampleFillPlan [7] (replicate 33 2) order 5000000 [sampleUtxo] = Inr (raw, tx)"
proof -
  let ?pk = "replicate 33 2 :: bytes"
  obtain spk where spk: "buildTransferScript ?pk (mo_multiplier order) og = Inr spk"
    using parse_builders_total(2) [of ?pk "mo_multiplier order" og] assms by (auto simp: pubkeySize_def MAX_MULTIPLIER_def)
  have lspk: "length spk \<le> 1000"
    using spk assms(5,10) by (auto simp: buildTransferScript_def pushData_small pushMultiplier_def)
  let ?tx = "\<lparr>tx_version = 1, tx_vin = [(unsignedInput (mo_txid order) (mo_vout order))\<lparr>in_scriptSig := ss\<rparr>, unsignedInput (replicate 64 (CHR ''0'')) 2],
    tx_vout = [\<lparr>out_value = mo_payment_value order, out_scriptPubKey = ps\<rparr>, \<lparr>out_value = 5000000, out_scriptPubKey = spk\<rparr>,
      \<lparr>out_value = 3000000, out_scriptPubKey = buildP2PKHScript ?pk\<rparr>], tx_locktime = 0\<rparr>"
  have lp: "length (buildP2PKHScript ?pk) = 25" by (simp add: buildP2PKHScript_def Let_def length_p2pkhScript length_hash160)
  have w: "wfTx ?tx" using assms isTxid_zeros lp lspk by (simp add: wfTx_def wfIn_def wfOut_def unsignedInput_def MAX_SAFE_INTEGER_def)
  have lo: "isLowerHex64 (bytesToHex og)" using assms(5) by (simp add: isLowerHex64_isTxid)
  have fill: "fillOrder \<lparr>ord_scriptSig = ss, ord_txid = mo_txid order, ord_vout = mo_vout order, ord_paymentScript = Some ps,
      ord_paymentValue = mo_payment_value order, ord_origin = Some og, ord_scriptCode = []\<rparr>
      \<lparr>fill_toPubkey = ?pk, fill_multiplier = mo_multiplier order, fill_tokenValue = 5000000,
      fill_takerInputs = [(replicate 64 (CHR ''0''), 2)], fill_changeScript = buildP2PKHScript ?pk, fill_changeValue = 3000000\<rparr> = Inr ?tx"
    by (simp add: fillOrder_def spk assms(5))
  let ?s = "[3, 0x30, 0x00, 1] @ of_nat (length ?pk) # ?pk"
  have sg: "signP2PKHInput sampleSigner (buildP2PKHScript ?pk) [7] ?pk ?tx 1 SIGHASH_ALL = Inr ?s"
    by (rule signP2PKH_sample_eq [OF signedVerbatim_p2pkh w]) (simp_all add: lp)
  have "wfTx (setScriptSig ?tx 1 ?s)" by (rule wfTx_setScriptSig [OF w]) simp_all
  then have raw: "txToHex (setScriptSig ?tx 1 ?s) = Inr (bytesToHex (txBytes (setScriptSig ?tx 1 ?s)))" by (simp add: txToHex_def serializeTx_wf)
  have si: "signInputs sampleSigner (map (takerCoin [7] ?pk) [sampleUtxo]) 1 ?tx = Inr (setScriptSig ?tx 1 ?s)"
    using sg by (simp add: takerCoin_def)
  have c: "fp_change sampleFillPlan = 3000000" "DEFAULT_DUST_LIMIT \<le> 3000000"
    by (simp_all add: sampleFillPlan_def DEFAULT_DUST_LIMIT_def RECOMMENDED_MIN_TX_FEE_def COIN_def)
  have u: "map (\<lambda>u. (utxo_txid u, utxo_vout u)) [sampleUtxo] = [(replicate 64 (CHR ''0''), 2)]" by (simp add: sampleUtxo_def)
  have "buildFillTx sampleSigner sampleFillPlan [7] ?pk order 5000000 [sampleUtxo]
    = Inr (bytesToHex (txBytes (setScriptSig ?tx 1 ?s)), setScriptSig ?tx 1 ?s)"
    unfolding buildFillTx_def assms(4,6,7) jsval.case hexToBytes_bytesToHex bindR_simps u c(1) if_P [OF c(2)] fill si raw by (simp only: lo simp_thms if_False)
  then show ?thesis by blast
qed

lemma build_sample:
  "\<exists>raw tx. buildFillTx sampleSigner sampleFillPlan [7] (replicate 33 2) sampleMarketOrder 5000000 [sampleUtxo] = Inr (raw, tx)"
proof (rule buildFillTx_sample [where og = "replicate 32 9"])
  have "bytesToHex [0] = ''00''" "bytesToHex [0x51] = ''51''" by code_simp+
  then show "mo_script_sig sampleMarketOrder = bytesToHex [0]" "mo_payment_script sampleMarketOrder = bytesToHex [0x51]"
    by (simp_all add: sampleMarketOrder_def)
qed (simp_all add: sampleMarketOrder_def txidFromBytes_def MAX_SAFE_INTEGER_def)

theorem published_fill_takes_whole_position_witness:
  "\<exists>raw tx. publishFill sampleRelay Inr sampleSigner (\<lambda>k. Inr (replicate 33 2)) sampleFillPlan [7] sampleMarketOrder
      (JObj [(''value'', JInt 5000000)]) [sampleUtxo] = Inr raw
    \<and> txToHex tx = Inr raw \<and> out_value (tx_vout tx ! 1) = 5000000 \<and> in_scriptSig (tx_vin tx ! 0) = [0]"
proof -
  let ?p = "JObj [(''value'', JInt 5000000)]" and ?pub = "\<lambda>k :: bytes. Inr (replicate 33 2) :: bytes result"
  obtain raw tx where b: "buildFillTx sampleSigner sampleFillPlan [7] (replicate 33 2) sampleMarketOrder 5000000 [sampleUtxo] = Inr (raw, tx)"
    using build_sample by blast
  have p: "publishFill sampleRelay Inr sampleSigner ?pub sampleFillPlan [7] sampleMarketOrder ?p [sampleUtxo] = Inr raw"
    unfolding publishFill_def verify_sample bindR_simps verified_position.simps b prod.case by (rule refl)
  have h: "hexToBytes (mo_script_sig sampleMarketOrder) = Inr [0]" unfolding sampleMarketOrder_def market_order.simps by code_simp
  have n: "nat (mo_vout sampleMarketOrder) = 0" by (simp add: sampleMarketOrder_def)
  have l: "length (replicate 33 2 :: bytes) = 33 \<or> length (replicate 33 2 :: bytes) = 65" by simp
  from published_fill_takes_whole_position [OF plan_sample refl l p] obtain bs chain tx' raw' ss where
    w: "mapR hexToBytes (sampleRelay (mo_txid sampleMarketOrder)) = Inr (Inr bs)" "deserializeTx bs = Inr chain" "txToHex tx' = Inr raw'"
      "(Inr raw' :: string result) = Inr raw" "out_value (tx_vout tx' ! 1) = out_value (tx_vout chain ! nat (mo_vout sampleMarketOrder))"
      "hexToBytes (mo_script_sig sampleMarketOrder) = Inr ss" "in_scriptSig (tx_vin tx' ! 0) = ss"
    by (elim exE conjE) (rule that; assumption)
  have "bs = txBytes sampleChainTx"
    using w(1) by (simp add: sampleRelay_def txToHex_def serializeTx_wf [OF wf_sampleChainTx] mapR_def)
  then have "chain = sampleChainTx" using w(2) deserializeTx_txBytes [OF wf_sampleChainTx] by simp
  then have v: "out_value (tx_vout tx' ! 1) = 5000000" unfolding w(5) n by (simp add: sampleChainTx_def)
  have "ss = [0]" "raw' = raw" using w(4,6) h by simp_all
  then show ?thesis using p w(3,7) v by blast
qed

end
