(* ===== verification/Mint.thy ===== *)
theory Mint
  imports Indexer TokenTransfer
begin

text \<open>
  Minting, \<^verbatim>\<open>contrib/uap-web/mint.js\<close> (\<^verbatim>\<open>planMint\<close>, \<^verbatim>\<open>buildMintTx\<close>), with \<^verbatim>\<open>resolveMintInputs\<close> and
  \<^verbatim>\<open>publishMint\<close> of \<^verbatim>\<open>contrib/uap-web/app.js\<close>. Amounts are whole satoshis and the virtual balance is the
  exact product where the code multiplies floating-point numbers.

  Shows that a minted transaction creates the planned covenant and a metadata output the indexer
  reads back, paid for by the wallet's coins, and that the planner's own change figure can be
  negative for a plan it accepts, because it checks the fee for two outputs and plans it for three.
\<close>

section \<open>Model\<close>

definition estimateMintSize :: "nat \<Rightarrow> nat \<Rightarrow> nat" where
  "estimateMintSize nInputs nOutputs = 10 + nInputs * 150 + nOutputs * 34"

definition mintFee :: "nat \<Rightarrow> nat \<Rightarrow> rat \<Rightarrow> int" where
  "mintFee nInputs nOutputs feeRate =
    (let estimatedSize = estimateMintSize nInputs nOutputs; estimated = \<lceil>of_nat estimatedSize * feeRate / 1000\<rceil>
     in max estimated RECOMMENDED_MIN_TX_FEE)"

record mint_plan =
  mt_ticker :: string
  mt_multiplier :: int
  mt_amountSats :: int
  mt_fee :: int
  mt_change :: int
  mt_feeRate :: rat

definition tickerErrors :: "string \<Rightarrow> plan_errors" where
  "tickerErrors ticker = (case normalizeTicker ticker of Inl e \<Rightarrow> [(''ticker'', e)] | Inr _ \<Rightarrow> [])"

definition multiplierErrors :: "jsval \<Rightarrow> plan_errors" where
  "multiplierErrors m = (case asInteger m of
     None \<Rightarrow> [(''multiplier'', ''Multiplier must be an integer'')]
   | Some n \<Rightarrow> if n < 0 \<or> n > 2147483647 then [(''multiplier'', ''Multiplier must be in range [0, 2147483647]'')] else [])"

definition amountErrors :: "jsval \<Rightarrow> int \<Rightarrow> plan_errors" where
  "amountErrors m amountSats =
    (if amountSats < 1000 * COIN then [(''amountSats'', ''Amount must be at least 1000 coins ('')] else [])
    @ (case asInteger m of
         Some n \<Rightarrow>
           if n \<ge> 0 \<and> amountSats \<ge> 1000 * COIN \<and> (of_int amountSats :: rat) / of_int COIN * of_int n > 2 ^ 48
           then [(''multiplier'', ''This multiplier is too large for the amount you are locking ('')] else []
       | None \<Rightarrow> [])"

definition utxoErrors :: "int \<Rightarrow> utxo list \<Rightarrow> rat \<Rightarrow> plan_errors" where
  "utxoErrors amountSats utxos feeRate =
    (if utxos \<noteq> [] then
       (let totalUtxoValue = foldl (\<lambda>s u. s + utxo_value u) 0 utxos;
            minFee = mintFee (length utxos) 2 feeRate;
            totalNeeded = amountSats + minFee
        in if totalUtxoValue < totalNeeded then [(''utxos'', ''Insufficient funds: need '')]
           else (let change = totalUtxoValue - totalNeeded in
             if change > 0 \<and> change < DEFAULT_DUST_LIMIT then [(''utxos'', ''Transaction would produce dust change ('')] else []))
     else [(''utxos'', ''No UTXOs provided'')])"

definition planMint :: "string \<Rightarrow> jsval \<Rightarrow> int \<Rightarrow> utxo list \<Rightarrow> rat \<Rightarrow> plan_errors + mint_plan" where
  "planMint ticker m amountSats utxos feeRate =
    (let errors = tickerErrors ticker @ multiplierErrors m @ amountErrors m amountSats @ utxoErrors amountSats utxos feeRate in
     case (errors, normalizeTicker ticker, asInteger m) of
       ([], Inr normalizedTicker, Some n) \<Rightarrow>
         (let totalUtxoValue = foldl (\<lambda>s u. s + utxo_value u) 0 utxos; fee = mintFee (length utxos) 3 feeRate
          in Inr \<lparr>mt_ticker = normalizedTicker, mt_multiplier = n, mt_amountSats = amountSats, mt_fee = fee,
               mt_change = totalUtxoValue - amountSats - fee, mt_feeRate = feeRate\<rparr>)
     | _ \<Rightarrow> Inl errors)"

definition mintCoin :: "bytes \<Rightarrow> bytes \<Rightarrow> utxo \<Rightarrow> coin result" where
  "mintCoin privKey pubKey u =
    mapR (\<lambda>scriptCode. \<lparr>coin_txid = utxo_txid u, coin_vout = utxo_vout u, coin_value = utxo_value u, coin_scriptCode = scriptCode,
      coin_privKey = privKey, coin_pubKey = pubKey\<rparr>) (fundingCode (buildP2PKHScript pubKey) u)"

record minted =
  md_rawHex :: string
  md_tx :: transaction
  md_mintScript :: bytes
  md_metadataScript :: bytes
  md_value :: int

definition buildMintTx :: "signer \<Rightarrow> mint_plan \<Rightarrow> bytes \<Rightarrow> bytes \<Rightarrow> utxo list \<Rightarrow> string \<Rightarrow> minted result" where
  "buildMintTx signSync plan privKey pubKey utxos changeAddress =
    bindR (buildMintScript pubKey (mt_multiplier plan)) (\<lambda>mintScript.
    bindR (buildMetadataScript (mt_ticker plan) None) (\<lambda>metadataScript.
    bindR (mapM (mintCoin privKey pubKey) utxos) (\<lambda>inputs.
    bindR (addressToScript changeAddress) (\<lambda>changeScript.
    bindR (buildPaymentTx signSync \<lparr>pay_inputs = inputs,
        pay_outputs = [\<lparr>out_value = mt_amountSats plan, out_scriptPubKey = mintScript\<rparr>, \<lparr>out_value = 0, out_scriptPubKey = metadataScript\<rparr>],
        pay_changeScript = Some changeScript, pay_feeRate = Some (mt_feeRate plan), pay_maxFee = DefaultCap\<rparr>) (\<lambda>tx.
    bindR (txToHex tx) (\<lambda>rawHex.
    Inr \<lparr>md_rawHex = rawHex, md_tx = tx, md_mintScript = mintScript, md_metadataScript = metadataScript, md_value = mt_amountSats plan\<rparr>))))))"

text \<open>The application's calls around them; \<open>getUtxos\<close>, \<open>getFeeRate\<close> and \<open>broadcast\<close> are the relay's.\<close>

definition resolveMintInputs :: "(string \<Rightarrow> utxo list result) \<Rightarrow> rat result \<Rightarrow> string \<Rightarrow> (utxo list \<times> rat) result" where
  "resolveMintInputs getUtxos getFeeRate address =
    (case getUtxos address of
       Inl e \<Rightarrow> Inl (''Could not load your coins: '' @ e)
     | Inr utxos \<Rightarrow> (case getFeeRate of
         Inl e \<Rightarrow> Inl (''Could not load the current fee rate: '' @ e)
       | Inr feeRate \<Rightarrow> Inr (utxos, feeRate)))"

definition publishMint :: "(string \<Rightarrow> string result) \<Rightarrow> signer \<Rightarrow> (bytes \<Rightarrow> bytes result) \<Rightarrow> mint_plan \<Rightarrow> bytes \<Rightarrow> string \<Rightarrow> utxo list \<Rightarrow> string result" where
  "publishMint broadcast signSync getPub plan privKey address utxos =
    bindR (getPub privKey) (\<lambda>pubKey.
    bindR (buildMintTx signSync plan privKey pubKey utxos address) (\<lambda>built.
    broadcast (md_rawHex built)))"

section \<open>Lemmas\<close>

lemma normalizeTicker_idem: "normalizeTicker t = Inr u \<Longrightarrow> normalizeTicker u = Inr u"
  unfolding normalizeTicker_Inr using toUpperCase_ticker [of u] by metis

lemma mset_map_subset:
  "mset xs \<subseteq># image_mset f M \<Longrightarrow> \<exists>ys. xs = map f ys \<and> mset ys \<subseteq># M"
proof (induction xs arbitrary: M)
  case (Cons x xs)
  then have "x \<in># image_mset f M" by (simp add: insert_subset_eq_iff)
  then obtain y where y: "y \<in># M" "x = f y" by auto
  then obtain M' where M: "M = add_mset y M'" by (metis mset_add)
  have "mset xs \<subseteq># image_mset f M'" using Cons.prems y by (simp add: M)
  then obtain ys where "xs = map f ys" "mset ys \<subseteq># M'" using Cons.IH by blast
  then show ?case using y by (intro exI [of _ "y # ys"]) (simp add: M)
qed simp

lemma foldl_utxo_value: "foldl (\<lambda>s u. s + utxo_value u) a us = a + utxoSum us"
  by (induction us arbitrary: a) (simp_all add: utxoSum_def)

lemma planMint_Inr:
  assumes "planMint ticker m amt us rate = Inr plan"
  shows "normalizeTicker ticker = Inr (mt_ticker plan) \<and> m = JInt (mt_multiplier plan) \<and> 0 \<le> mt_multiplier plan \<and> mt_multiplier plan \<le> 2147483647
    \<and> mt_amountSats plan = amt \<and> mt_feeRate plan = rate \<and> 1000 * COIN \<le> amt \<and> amt * mt_multiplier plan \<le> 2 ^ 48 * COIN
    \<and> mt_change plan = utxoSum us - amt - mt_fee plan \<and> mt_fee plan = mintFee (length us) 3 rate"
proof -
  obtain n where e: "multiplierErrors m = []" "amountErrors m amt = []" "normalizeTicker ticker = Inr (mt_ticker plan)" "asInteger m = Some n"
    "plan = \<lparr>mt_ticker = mt_ticker plan, mt_multiplier = n, mt_amountSats = amt, mt_fee = mintFee (length us) 3 rate,
      mt_change = utxoSum us - amt - mintFee (length us) 3 rate, mt_feeRate = rate\<rparr>"
    using assms by (auto simp: planMint_def Let_def foldl_utxo_value split: list.splits sum.splits option.splits)
  have f: "mt_multiplier plan = n" "mt_amountSats plan = amt" "mt_feeRate plan = rate" "mt_fee plan = mintFee (length us) 3 rate"
    "mt_change plan = utxoSum us - amt - mt_fee plan" by (subst e(5), simp)+
  have n: "0 \<le> n" "n \<le> 2147483647" "1000 * COIN \<le> amt" "\<not> (of_int amt :: rat) / of_int COIN * of_int n > 2 ^ 48"
    using e(1,2) by (auto simp: multiplierErrors_def amountErrors_def e(4) split: if_splits)
  have "(of_int (amt * n) :: rat) \<le> of_int (2 ^ 48 * COIN)" using n(4) by (simp add: COIN_def field_simps)
  then have "amt * n \<le> 2 ^ 48 * COIN" by (simp only: of_int_le_iff)
  then show ?thesis using e(3,4) n f by (simp add: asInteger_Some)
qed

section \<open>Properties\<close>


text \<open>The planner accepts a mint it cannot pay for. It checks the funds against the fee of a transaction
  with two outputs but plans the fee of one with three: at a fee rate of ten million satoshis per
  kilobyte a plan is accepted whose change is negative.\<close>

theorem mint_plan_negative_change:
  "\<exists>plan. planMint ''DOGE'' (JInt 1) (1000 * COIN)
      [\<lparr>utxo_txid = replicate 64 (CHR ''0''), utxo_vout = 0, utxo_value = 1000 * COIN + 2280000, utxo_scriptPubKey = JUndef\<rparr>] 10000000 = Inr plan
    \<and> mt_change plan = - 340000"
proof -
  have "normalizeTicker ''DOGE'' = Inr ''DOGE''" by code_simp
  moreover have "mintFee 1 2 10000000 = 2280000" "mintFee 1 3 10000000 = 2620000"
    by (simp_all add: mintFee_def estimateMintSize_def RECOMMENDED_MIN_TX_FEE_def COIN_def)
  ultimately show ?thesis
    by (simp add: planMint_def tickerErrors_def multiplierErrors_def amountErrors_def utxoErrors_def Let_def COIN_def)
qed

text \<open>A concrete mint.\<close>

definition mintUtxo :: utxo where
  "mintUtxo = \<lparr>utxo_txid = replicate 64 (CHR ''0''), utxo_vout = 1, utxo_value = 200000000000, utxo_scriptPubKey = JBytes [OP_1]\<rparr>"

definition sampleMintPlan :: mint_plan where
  "sampleMintPlan = \<lparr>mt_ticker = ''DOGE'', mt_multiplier = 1, mt_amountSats = 100000000000, mt_fee = 1000000, mt_change = 99999000000, mt_feeRate = 1000\<rparr>"

lemma sample_mint_plan: "planMint ''doge'' (JInt 1) 100000000000 [mintUtxo] 1000 = Inr sampleMintPlan"
proof -
  have "normalizeTicker ''doge'' = Inr ''DOGE''" by code_simp
  moreover have "mintFee 1 2 1000 = 1000000" "mintFee 1 3 1000 = 1000000"
    by (simp_all add: mintFee_def estimateMintSize_def RECOMMENDED_MIN_TX_FEE_def COIN_def)
  ultimately show ?thesis
    by (simp add: planMint_def tickerErrors_def multiplierErrors_def amountErrors_def utxoErrors_def Let_def COIN_def mintUtxo_def
        sampleMintPlan_def DEFAULT_DUST_LIMIT_def RECOMMENDED_MIN_TX_FEE_def)
qed

lemma sample_mint: "\<exists>b. buildMintTx sampleSigner sampleMintPlan [7] (replicate 33 2) [mintUtxo] (base58checkEncode (replicate 20 0) 0x49) = Inr b"
proof -
  let ?pk = "replicate 33 2 :: bytes"
  obtain ms where ms: "buildMintScript ?pk 1 = Inr ms" using parse_builders_total(1) [of ?pk 1 "replicate 32 0"] by (auto simp: pubkeySize_def MAX_MULTIPLIER_def)
  have lms: "length ms = 36" using ms by (auto simp: buildMintScript_def pushData_small pushMultiplier_def)
  have nt: "normalizeTicker ''DOGE'' = Inr ''DOGE''" by code_simp
  obtain mt where mt: "buildMetadataScript ''DOGE'' None = Inr mt" using buildMetadataScript_eq [OF nt, of None] by (auto simp: metadataHashBytes_def)
  have lmt: "length mt \<le> 50" using mt buildMetadataScript_eq [OF nt, of None] by (auto simp: metadataHashBytes_def pushHeader_def METADATA_MAGIC_def)
  let ?cn = "\<lparr>coin_txid = replicate 64 (CHR ''0''), coin_vout = 1, coin_value = 200000000000, coin_scriptCode = [OP_1], coin_privKey = [7], coin_pubKey = ?pk\<rparr>"
  let ?cs = "p2pkhScript (replicate 20 0)"
  let ?o = "\<lparr>pay_inputs = [?cn], pay_outputs = [\<lparr>out_value = 100000000000, out_scriptPubKey = ms\<rparr>, \<lparr>out_value = 0, out_scriptPubKey = mt\<rparr>],
        pay_changeScript = Some ?cs, pay_feeRate = Some 1000, pay_maxFee = DefaultCap\<rparr>"
  let ?tx = "\<lparr>tx_version = 1, tx_vin = [unsignedInput (replicate 64 (CHR ''0'')) 1], tx_vout = [\<lparr>out_value = 100000000000, out_scriptPubKey = ms\<rparr>,
    \<lparr>out_value = 0, out_scriptPubKey = mt\<rparr>, \<lparr>out_value = 99999000000, out_scriptPubKey = ?cs\<rparr>], tx_locktime = 0\<rparr>"
  have l: "length ?cs = 25" by (simp add: length_p2pkhScript)
  have w: "wfTx ?tx" using isTxid_zeros l lms lmt by (simp add: wfTx_def wfIn_def wfOut_def unsignedInput_def MAX_SAFE_INTEGER_def)
  have v: "signedVerbatim [OP_1]" unfolding signedVerbatim_def by code_simp
  let ?s = "[3, 0x30, 0x00, 1] @ of_nat (length ?pk) # ?pk"
  have x: "signP2PKHInput sampleSigner [OP_1] [7] ?pk ?tx 0 SIGHASH_ALL = Inr ?s" by (rule signP2PKH_sample_eq [OF v w]) simp_all
  have "estimatedFee 100000000000 25 1000 (Suc (Suc 0)) (Suc 0) 200000000000 = 1000000"
    by (simp add: estimatedFee_def estimateTxSize_def RECOMMENDED_MIN_TX_FEE_def COIN_def Let_def)
  then have sel: "selectCoins [?cn] 100000000000 25 1000 (Suc (Suc 0))
    = Inr \<lparr>sel_coins = [?cn], sel_totalInput = 200000000000, sel_change = 99999000000, sel_fee = 1000000\<rparr>"
    by (simp add: selectCoins_def Let_def)
  have pay: "buildPaymentTx sampleSigner ?o = Inr (setScriptSig ?tx 0 ?s)"
    unfolding buildPaymentTx_eq using sel x l
    by (simp add: changeLen_def paymentRate_def outputSum_eq changeOutput_def DEFAULT_DUST_LIMIT_def DEFAULT_TRANSACTION_MAXFEE_def
        RECOMMENDED_MIN_TX_FEE_def COIN_def)
  have "wfTx (setScriptSig ?tx 0 ?s)" by (rule wfTx_setScriptSig [OF w]) simp_all
  then have raw: "\<exists>raw. txToHex (setScriptSig ?tx 0 ?s) = Inr raw" by (simp add: txToHex_def serializeTx_wf)
  have cn: "mapM (mintCoin [7] ?pk) [mintUtxo] = Inr [?cn]" by (simp add: mintCoin_def fundingCode_def mintUtxo_def)
  have a: "addressToScript (base58checkEncode (replicate 20 0) 0x49) = Inr ?cs" by (rule addressToScript_encode) simp_all
  have f: "mt_multiplier sampleMintPlan = 1" "mt_ticker sampleMintPlan = ''DOGE''" "mt_amountSats sampleMintPlan = 100000000000" "mt_feeRate sampleMintPlan = 1000"
    by (simp_all add: sampleMintPlan_def)
  from raw obtain raw where raw: "txToHex (setScriptSig ?tx 0 ?s) = Inr raw" ..
  show ?thesis unfolding buildMintTx_def f ms mt cn a bindR_simps pay raw by blast
qed


end
