(* ===== verification/Sell.thy ===== *)
theory Sell
  imports Market
begin

text \<open>
  The maker's half of the marketplace: \<^verbatim>\<open>contrib/uap-web/sell.js\<close> (\<^verbatim>\<open>planSell\<close>, \<^verbatim>\<open>buildSellOrder\<close>),
  \<^verbatim>\<open>contrib/uap-web/cancel.js\<close> (\<^verbatim>\<open>myOrders\<close>, \<^verbatim>\<open>planCancel\<close>, \<^verbatim>\<open>cancelSignInput\<close>, \<^verbatim>\<open>describeCancelFailure\<close>), and
  \<^verbatim>\<open>publishSellOrder\<close> and \<^verbatim>\<open>confirmCancel\<close> of \<^verbatim>\<open>contrib/uap-web/app.js\<close>. The clock is an argument.

  Shows that whatever a taker completes from a published order carries a signature of the maker
  over that very transaction, made for the maker's own covenant, and pays the maker the price;
  and that a cancellation that passes its checks is signed for exactly the order shown.
\<close>

section \<open>Model: selling\<close>

record sell_summary =
  ss_txid :: jsval
  ss_vout :: jsval
  ss_multiplier :: jsval
  ss_tokenValue :: jsval
  ss_priceSats :: jsval
  ss_payTo :: string
  ss_paymentScript :: "bytes option"

record sell_plan =
  sp_ok :: bool
  sp_errors :: "string list"
  sp_position :: jsval
  sp_summary :: "sell_summary option"

definition planSell :: "jsval \<Rightarrow> jsval \<Rightarrow> string \<Rightarrow> sell_plan" where
  "planSell position priceSats ownAddress =
    (if \<not> isObject position
     then \<lparr>sp_ok = False, sp_errors = [''No position selected.''], sp_position = JUndef, sp_summary = None\<rparr>
     else
       (let script = addressToScript ownAddress;
            errors =
              (case getField position ''txid'' of JStr t \<Rightarrow> if length t \<noteq> 64 then [''Position is missing a valid transaction id.''] else []
               | _ \<Rightarrow> [''Position is missing a valid transaction id.''])
              @ (case asInteger (getField position ''vout'') of Some n \<Rightarrow> if n < 0 then [''Position is missing a valid output index.''] else []
                 | None \<Rightarrow> [''Position is missing a valid output index.''])
              @ (case asInteger (getField position ''multiplier'') of Some n \<Rightarrow> if n < 0 then [''Position has no valid multiplier.''] else []
                 | None \<Rightarrow> [''Position has no valid multiplier.''])
              @ (case asInteger priceSats of
                   None \<Rightarrow> [''Enter a price in whole satoshis.'']
                 | Some p \<Rightarrow> if p \<le> 0 then [''The asking price must be greater than zero.'']
                     else if p < DEFAULT_HARD_DUST_LIMIT then [''The asking price is below the dust limit (''] else [])
              @ (case script of Inl e \<Rightarrow> [''Cannot pay to this address: '' @ e] | Inr _ \<Rightarrow> [])
        in \<lparr>sp_ok = (errors = []), sp_errors = errors, sp_position = position,
             sp_summary = Some \<lparr>ss_txid = getField position ''txid'', ss_vout = getField position ''vout'',
               ss_multiplier = getField position ''multiplier'', ss_tokenValue = getField position ''value'', ss_priceSats = priceSats,
               ss_payTo = ownAddress, ss_paymentScript = (case script of Inl e \<Rightarrow> None | Inr s \<Rightarrow> Some s)\<rparr>\<rparr>))"

text \<open>The body of \<^verbatim>\<open>POST /orders\<close>.\<close>

record sell_order =
  so_txid :: string
  so_vout :: int
  so_multiplier :: int
  so_pubkey :: string
  so_script_sig :: string
  so_payment_script :: string
  so_payment_value :: int
  so_created_at :: int

definition joinSpace :: "string list \<Rightarrow> string" where
  "joinSpace ss = (case ss of [] \<Rightarrow> [] | s # rest \<Rightarrow> s @ concat (map (\<lambda>t. CHR '' '' # t) rest))"

text \<open>
  With no error in the plan all fields read below are of the type matched; the last case
  stands for a combination that then cannot arise.
\<close>

definition buildSellOrder :: "signer \<Rightarrow> jsval \<Rightarrow> bytes \<Rightarrow> bytes \<Rightarrow> jsval \<Rightarrow> string \<Rightarrow> int \<Rightarrow> sell_order result" where
  "buildSellOrder signSync position privKey pubKey priceSats ownAddress nowMs =
    (let plan = planSell position priceSats ownAddress in
     if \<not> sp_ok plan then Inl (joinSpace (sp_errors plan))
     else (case (getField position ''txid'', asInteger (getField position ''vout''), asInteger (getField position ''multiplier''),
                 asInteger priceSats, map_option ss_paymentScript (sp_summary plan)) of
         (JStr txid, Some vout, Some m, Some price, Some (Some paymentScript)) \<Rightarrow>
           bindR (positionScriptOf position pubKey m) (\<lambda>scriptCode.
           bindR (signMakerOrder signSync \<lparr>mk_txid = txid, mk_vout = vout, mk_scriptCode = scriptCode, mk_privKey = privKey,
             mk_paymentScript = paymentScript, mk_paymentValue = price\<rparr>) (\<lambda>order.
           Inr \<lparr>so_txid = txid, so_vout = vout, so_multiplier = m, so_pubkey = bytesToHex pubKey,
             so_script_sig = bytesToHex (ord_scriptSig order), so_payment_script = bytesToHex paymentScript,
             so_payment_value = price, so_created_at = nowMs div 1000\<rparr>))
       | _ \<Rightarrow> Inl (joinSpace (sp_errors plan))))"

definition publishSellOrder :: "(sell_order \<Rightarrow> unit result) \<Rightarrow> signer \<Rightarrow> (bytes \<Rightarrow> bytes result) \<Rightarrow> sell_plan \<Rightarrow> bytes \<Rightarrow> string \<Rightarrow> int \<Rightarrow> unit result" where
  "publishSellOrder publishOrder signSync getPub plan privKey address nowMs =
    (case sp_summary plan of
       None \<Rightarrow> Inl ''TypeError''
     | Some s \<Rightarrow>
       bindR (getPub privKey) (\<lambda>pubKey.
       bindR (buildSellOrder signSync (sp_position plan) privKey pubKey (ss_priceSats s) address nowMs) publishOrder))"

text \<open>What a taker reads back: the published fields, with the lineage the relay adds.\<close>

definition relayedOrder :: "sell_order \<Rightarrow> bytes \<Rightarrow> market_order" where
  "relayedOrder o' og = \<lparr>mo_txid = so_txid o', mo_vout = so_vout o', mo_multiplier = so_multiplier o', mo_origin = JStr (bytesToHex og),
     mo_script_sig = so_script_sig o', mo_payment_script = so_payment_script o', mo_payment_value = so_payment_value o'\<rparr>"

section \<open>Model: cancelling\<close>

definition myOrders :: "jsval \<Rightarrow> jsval \<Rightarrow> jsval list" where
  "myOrders orders ownPubKeyHex = (case (orders, ownPubKeyHex) of
     (JArr os, JStr own) \<Rightarrow> if own = [] then [] else filter (\<lambda>o'. getField o' ''pubkey'' = JStr own) os
   | _ \<Rightarrow> [])"

definition planCancel :: "jsval \<Rightarrow> string list" where
  "planCancel order =
    (if \<not> isObject order then [''No order selected.'']
     else (case getField order ''txid'' of JStr t \<Rightarrow> if length t \<noteq> 64 then [''Order is missing a valid transaction id.''] else []
           | _ \<Rightarrow> [''Order is missing a valid transaction id.''])
       @ (case asInteger (getField order ''vout'') of Some n \<Rightarrow> if n < 0 then [''Order is missing a valid output index.''] else []
          | None \<Rightarrow> [''Order is missing a valid output index.''])
       @ (case getField order ''script_sig'' of JStr s \<Rightarrow> if s = [] then [''Order is missing its signature; cannot request cancellation.''] else []
          | _ \<Rightarrow> [''Order is missing its signature; cannot request cancellation.''])
       @ (case getField order ''cancel_nonce'' of JStr s \<Rightarrow> if s = [] then [''Order is missing the data needed to authorize a cancellation.''] else []
          | _ \<Rightarrow> [''Order is missing the data needed to authorize a cancellation.'']))"

definition cancelSignInput :: "jsval \<Rightarrow> jsval \<times> jsval \<times> jsval \<times> jsval" where
  "cancelSignInput order = (getField order ''txid'', getField order ''vout'', getField order ''script_sig'', getField order ''cancel_nonce'')"

definition isInfixOf :: "string \<Rightarrow> string \<Rightarrow> bool" where
  "isInfixOf pat s = list_ex (\<lambda>i. take (length pat) (drop i s) = pat) [0..<Suc (length s)]"

definition describeCancelFailure :: "string \<Rightarrow> string" where
  "describeCancelFailure m =
    (if isInfixOf ''no such order'' m then ''This order is no longer open. It may already have been filled, cancelled elsewhere, or the underlying position has been spent.''
     else if isInfixOf ''cancel signature does not authorize this order'' m
     then ''This cancellation could not be verified against the order on file. If the order was recently republished, try again with a fresh signature.''
     else ''Could not cancel this order: '' @ m)"

text \<open>
  \<^verbatim>\<open>confirmCancel\<close>: nothing happens unless the order passes its checks (the outer \<^term>\<open>None\<close>);
  otherwise the order is signed for cancellation and the relay asked, and a failure is described.
\<close>

definition confirmCancel :: "(string \<Rightarrow> int \<Rightarrow> string \<Rightarrow> unit result) \<Rightarrow> signer \<Rightarrow> bytes \<Rightarrow> jsval \<Rightarrow> unit result option" where
  "confirmCancel cancelOrder signSync privKey order =
    (if planCancel order \<noteq> [] then None
     else Some (case (case cancelSignInput order of
           (JStr txid, JNum v, JStr scriptSig, JStr nonce) \<Rightarrow>
             bindR (signCancelOrder signSync txid \<lfloor>v\<rfloor> scriptSig nonce privKey) (\<lambda>cancelSig. cancelOrder txid \<lfloor>v\<rfloor> cancelSig)
         | _ \<Rightarrow> Inl ''TypeError'') of
         Inl e \<Rightarrow> Inl (describeCancelFailure e)
       | Inr u \<Rightarrow> Inr u))"

section \<open>Lemmas\<close>

lemma planSell_ok:
  assumes "sp_ok (planSell position price address)"
  shows "\<exists>t v m p s. getField position ''txid'' = JStr t \<and> length t = 64 \<and> getField position ''vout'' = JInt v \<and> 0 \<le> v
    \<and> getField position ''multiplier'' = JInt m \<and> 0 \<le> m \<and> price = JInt p \<and> DEFAULT_HARD_DUST_LIMIT \<le> p
    \<and> addressToScript address = Inr s \<and> map_option ss_paymentScript (sp_summary (planSell position price address)) = Some (Some s)"
  using assms unfolding planSell_def Let_def
  by (auto split: if_splits jsval.splits option.splits sum.splits simp: asInteger_Some)

lemma buildSellOrder_Inr:
  assumes "buildSellOrder sig position privKey pk price address now = Inr so"
  shows "\<exists>script ps ord. positionScriptOf position pk (so_multiplier so) = Inr script \<and> addressToScript address = Inr ps
    \<and> price = JInt (so_payment_value so) \<and> DEFAULT_HARD_DUST_LIMIT \<le> so_payment_value so
    \<and> getField position ''txid'' = JStr (so_txid so) \<and> getField position ''vout'' = JInt (so_vout so)
    \<and> signMakerOrder sig \<lparr>mk_txid = so_txid so, mk_vout = so_vout so, mk_scriptCode = script, mk_privKey = privKey,
        mk_paymentScript = ps, mk_paymentValue = so_payment_value so\<rparr> = Inr ord
    \<and> so_script_sig so = bytesToHex (ord_scriptSig ord) \<and> so_payment_script so = bytesToHex ps"
proof -
  have ok: "sp_ok (planSell position price address)" using assms by (auto simp: buildSellOrder_def Let_def split: if_splits)
  obtain t v m p s where f: "getField position ''txid'' = JStr t" "getField position ''vout'' = JInt v" "getField position ''multiplier'' = JInt m"
    "price = JInt p" "DEFAULT_HARD_DUST_LIMIT \<le> p" "addressToScript address = Inr s"
    "map_option ss_paymentScript (sp_summary (planSell position price address)) = Some (Some s)"
    using planSell_ok [OF ok] by blast
  have "bindR (positionScriptOf position pk m) (\<lambda>scriptCode.
           bindR (signMakerOrder sig \<lparr>mk_txid = t, mk_vout = v, mk_scriptCode = scriptCode, mk_privKey = privKey,
             mk_paymentScript = s, mk_paymentValue = p\<rparr>) (\<lambda>order.
           Inr \<lparr>so_txid = t, so_vout = v, so_multiplier = m, so_pubkey = bytesToHex pk,
             so_script_sig = bytesToHex (ord_scriptSig order), so_payment_script = bytesToHex s,
             so_payment_value = p, so_created_at = now div 1000\<rparr>)) = Inr so"
    using assms ok f(7) unfolding buildSellOrder_def Let_def f(1-4) by (simp add: asInteger_JInt del: asInteger.simps)
  then show ?thesis using f by (auto simp: result_simps)
qed

section \<open>Properties\<close>

text \<open>C2: A published sell order settles as the maker was shown. Whatever position object the relay supplied,
  and whatever transaction any taker completes from the published order and the lineage the relay
  adds: the maker's scriptSig in it is the maker's signature over that transaction, made for a
  canonical covenant of the maker's own key and of the order's multiplier; the first output pays
  exactly the asked price, above the hard dust limit, to the maker's address; and the token output
  goes to the taker's key with the same multiplier and the published lineage.\<close>

theorem sell_order_settles:
  assumes "buildSellOrder sig position privKey pk price address now = Inr so" and "length pk = 33 \<or> length pk = 65"
    and "buildFillTx takerSig plan takerKey takerPk (relayedOrder so og) value us = Inr (raw, tx)" and "length takerPk = 33 \<or> length takerPk = 65"
  shows "\<exists>script u ps. parseUapScript script = Some u \<and> pubkey u = pk \<and> multiplier u = so_multiplier so
    \<and> signSpend sig script privKey tx 0 0x83 = Inr (in_scriptSig (tx_vin tx ! 0))
    \<and> addressToScript address = Inr ps \<and> tx_vout tx ! 0 = \<lparr>out_value = so_payment_value so, out_scriptPubKey = ps\<rparr>
    \<and> price = JInt (so_payment_value so) \<and> DEFAULT_HARD_DUST_LIMIT \<le> so_payment_value so
    \<and> out_value (tx_vout tx ! 1) = value
    \<and> parseUapScript (out_scriptPubKey (tx_vout tx ! 1)) = Some \<lparr>pubkey = takerPk, multiplier = so_multiplier so, origin = og, isMint = False\<rparr>"
proof -
  obtain script ps ord where s: "positionScriptOf position pk (so_multiplier so) = Inr script" "addressToScript address = Inr ps"
    "price = JInt (so_payment_value so)" "DEFAULT_HARD_DUST_LIMIT \<le> so_payment_value so"
    "signMakerOrder sig \<lparr>mk_txid = so_txid so, mk_vout = so_vout so, mk_scriptCode = script, mk_privKey = privKey,
        mk_paymentScript = ps, mk_paymentValue = so_payment_value so\<rparr> = Inr ord" (is "signMakerOrder sig ?mk = _")
    "so_script_sig so = bytesToHex (ord_scriptSig ord)" "so_payment_script so = bytesToHex ps"
    using buildSellOrder_Inr [OF assms(1)] by (elim exE conjE) (rule that; assumption)
  have sz: "pubkeySize pk" "pubkeySize takerPk" using assms(2,4) by (simp_all add: pubkeySize_def)
  obtain u where u: "parseUapScript script = Some u" "pubkey u = pk" "multiplier u = so_multiplier so"
    using positionScriptOf_Inr [OF s(1) sz(1)] by (elim exE) (rule that, assumption, simp_all)
  note f = buildFillTx_Inr [OF assms(3) sz(2)]
  obtain og' ss ps' spk where g: "mo_origin (relayedOrder so og) = JStr (bytesToHex og')" "hexToBytes (mo_script_sig (relayedOrder so og)) = Inr ss"
    "hexToBytes (mo_payment_script (relayedOrder so og)) = Inr ps'"
    "parseUapScript spk = Some \<lparr>pubkey = takerPk, multiplier = mo_multiplier (relayedOrder so og), origin = og', isMint = False\<rparr>"
    "tx_vout tx = [\<lparr>out_value = mo_payment_value (relayedOrder so og), out_scriptPubKey = ps'\<rparr>, \<lparr>out_value = value, out_scriptPubKey = spk\<rparr>]
        @ (if DEFAULT_DUST_LIMIT \<le> fp_change plan then [\<lparr>out_value = fp_change plan, out_scriptPubKey = buildP2PKHScript takerPk\<rparr>] else [])"
    "map outpointSeq (tx_vin tx) = (mo_txid (relayedOrder so og), mo_vout (relayedOrder so og), Some 0xffffffff)
       # map (\<lambda>u. (utxo_txid u, utxo_vout u, Some 0xffffffff)) us" "in_scriptSig (tx_vin tx ! 0) = ss"
    using f by (elim conjE exE) (rule that; assumption)
  have e: "og' = og" "ss = ord_scriptSig ord" "ps' = ps" using g(1-3) by (simp_all add: relayedOrder_def s(6,7) bytesToHex_inj)
  obtain rest where t: "tx_vout tx = \<lparr>out_value = so_payment_value so, out_scriptPubKey = ps\<rparr> # \<lparr>out_value = value, out_scriptPubKey = spk\<rparr> # rest"
    "parseUapScript spk = Some \<lparr>pubkey = takerPk, multiplier = so_multiplier so, origin = og, isMint = False\<rparr>"
    "map outpointSeq (tx_vin tx) = (so_txid so, so_vout so, Some 0xffffffff) # map (\<lambda>u. (utxo_txid u, utxo_vout u, Some 0xffffffff)) us"
    "in_scriptSig (tx_vin tx ! 0) = ord_scriptSig ord" "tx_version tx = 1" "tx_locktime tx = 0"
    using g(4-7) e conjunct1 [OF f] conjunct1 [OF conjunct2 [OF f]] by (simp add: relayedOrder_def)
  have ms: "signSpend sig script privKey (makerTx ?mk) 0 0x83 = Inr (ord_scriptSig ord)" using s(5) by (auto simp: signMakerOrder_Inr)
  have vin: "tx_vin tx \<noteq> []" "outpointSeq (tx_vin tx ! 0) = (so_txid so, so_vout so, Some 0xffffffff)"
    using t(3) by (auto simp: map_eq_Cons_conv)
  have "signatureHash script tx 0 0x83 = signatureHash script (makerTx ?mk) 0 0x83"
    using t(1,5,6) vin by (intro sighash_single_acp_cong) (simp_all add: makerTx_def)
  then have "signSpend sig script privKey tx 0 0x83 = Inr (in_scriptSig (tx_vin tx ! 0))" using ms t(4) by (simp add: signSpend_def)
  then show ?thesis using u s(2-4) t(1,2) by (intro exI [of _ script] exI [of _ u] exI [of _ ps]) simp
qed

text \<open>Cancelling acts on the order shown or not at all. When the checks of an order find nothing, its
  identifying fields have the types the signature is computed over, the request carries the
  signature over exactly these fields, and when they do find something no request is made.\<close>

theorem cancel_request_is_for_order:
  "case confirmCancel cancelOrder sig privKey order of
     None \<Rightarrow> planCancel order \<noteq> []
   | Some r \<Rightarrow> \<exists>t v s n. cancelSignInput order = (JStr t, JInt v, JStr s, JStr n) \<and> length t = 64 \<and> 0 \<le> v \<and> s \<noteq> [] \<and> n \<noteq> []
       \<and> r = (case bindR (signCancelOrder sig t v s n privKey) (cancelOrder t v) of Inl e \<Rightarrow> Inl (describeCancelFailure e) | Inr x \<Rightarrow> Inr x)"
proof (cases "planCancel order = []")
  case True
  then obtain t v s n where f: "getField order ''txid'' = JStr t" "length t = 64" "getField order ''vout'' = JInt v" "0 \<le> v"
    "getField order ''script_sig'' = JStr s" "s \<noteq> []" "getField order ''cancel_nonce'' = JStr n" "n \<noteq> []"
    by (auto simp: planCancel_def asInteger_Some split: if_splits jsval.splits option.splits)
  then show ?thesis using True by (auto simp: confirmCancel_def cancelSignInput_def)
next
  case False
  then show ?thesis by (simp add: confirmCancel_def)
qed

text \<open>A concrete sale of a fresh mint.\<close>

definition sampleMintObj :: jsval where
  "sampleMintObj = JObj [(''txid'', JStr (replicate 64 (CHR ''0''))), (''vout'', JInt 1), (''multiplier'', JInt 1), (''is_mint'', JBool True)]"

lemma sample_sell:
  "\<exists>so. buildSellOrder sampleSigner sampleMintObj [7] (replicate 33 2) (JInt 1000000) (base58checkEncode (replicate 20 0) 0x49) 0 = Inr so
    \<and> so_txid so = replicate 64 (CHR ''0'') \<and> so_vout so = 1 \<and> so_multiplier so = 1 \<and> so_payment_value so = 1000000
    \<and> so_script_sig so = bytesToHex [3, 0x30, 0x00, 0x83] \<and> so_payment_script so = bytesToHex (p2pkhScript (replicate 20 0))"
proof -
  let ?pk = "replicate 33 2 :: bytes" and ?ps = "p2pkhScript (replicate 20 0)" and ?a = "base58checkEncode (replicate 20 0) 0x49"
  obtain ms where ms: "buildMintScript ?pk 1 = Inr ms" using parse_builders_total(1) [of ?pk 1 "replicate 32 0"] by (auto simp: pubkeySize_def MAX_MULTIPLIER_def)
  have v: "signedVerbatim ms" using serializeScriptCode_covenant [OF parse_buildMintScript [OF ms]] by (simp add: signedVerbatim_def pubkeySize_def)
  have lms: "length ms = 36" using ms by (auto simp: buildMintScript_def pushData_small pushMultiplier_def)
  have a: "addressToScript ?a = Inr ?ps" by (rule addressToScript_encode) simp_all
  let ?mk = "\<lparr>mk_txid = replicate 64 (CHR ''0''), mk_vout = 1, mk_scriptCode = ms, mk_privKey = [7], mk_paymentScript = ?ps, mk_paymentValue = 1000000\<rparr>"
  have "wfTx (makerTx ?mk)"
    using isTxid_zeros by (simp add: makerTx_def unsignedInput_def wfTx_def wfIn_def wfOut_def MAX_SAFE_INTEGER_def length_p2pkhScript)
  then have "wfTx (allTx ms (makerTx ?mk) 0)" by (rule wfTx_allTx) (simp add: lms)
  then have "signSpend sampleSigner ms [7] (makerTx ?mk) 0 0x83 = Inr [3, 0x30, 0x00, 0x83]"
    using serializeTx_maker [OF v, of ?mk]
    by (simp add: signSpend_def signatureHash_def sighashPreimage_def serializeTx_wf sampleSigner_def pushData_small makerTx_def)
  then obtain ord where mo: "signMakerOrder sampleSigner ?mk = Inr ord" "ord_scriptSig ord = [3, 0x30, 0x00, 0x83]"
    by (auto simp: signMakerOrder_Inr)
  have p: "positionScriptOf sampleMintObj ?pk 1 = Inr ms" using ms by (simp add: positionScriptOf_def sampleMintObj_def)
  have g: "getField sampleMintObj ''txid'' = JStr (replicate 64 (CHR ''0''))" "getField sampleMintObj ''vout'' = JInt 1"
    "getField sampleMintObj ''multiplier'' = JInt 1" "isObject sampleMintObj" by (simp_all add: sampleMintObj_def)
  have pl: "sp_ok (planSell sampleMintObj (JInt 1000000) ?a)"
    "map_option ss_paymentScript (sp_summary (planSell sampleMintObj (JInt 1000000) ?a)) = Some (Some ?ps)"
    using a by (simp_all add: planSell_def Let_def g DEFAULT_HARD_DUST_LIMIT_def DEFAULT_DUST_LIMIT_def RECOMMENDED_MIN_TX_FEE_def COIN_def)
  have "buildSellOrder sampleSigner sampleMintObj [7] ?pk (JInt 1000000) ?a 0
    = bindR (positionScriptOf sampleMintObj ?pk 1) (\<lambda>sc. bindR (signMakerOrder sampleSigner (?mk\<lparr>mk_scriptCode := sc\<rparr>)) (\<lambda>order.
        Inr \<lparr>so_txid = replicate 64 (CHR ''0''), so_vout = 1, so_multiplier = 1, so_pubkey = bytesToHex ?pk,
             so_script_sig = bytesToHex (ord_scriptSig order), so_payment_script = bytesToHex ?ps, so_payment_value = 1000000, so_created_at = 0 div 1000\<rparr>))"
    unfolding buildSellOrder_def Let_def g pl(2) asInteger_JInt using pl(1) by simp
  then show ?thesis using p mo by simp
qed

theorem sell_order_settles_witness:
  "\<exists>so raw tx. buildSellOrder sampleSigner sampleMintObj [7] (replicate 33 2) (JInt 1000000) (base58checkEncode (replicate 20 0) 0x49) 0 = Inr so
    \<and> buildFillTx sampleSigner sampleFillPlan [7] (replicate 33 2) (relayedOrder so (replicate 32 9)) 5000000 [sampleUtxo] = Inr (raw, tx)
    \<and> out_value (tx_vout tx ! 0) = 1000000"
proof -
  obtain so where so: "buildSellOrder sampleSigner sampleMintObj [7] (replicate 33 2) (JInt 1000000) (base58checkEncode (replicate 20 0) 0x49) 0 = Inr so"
    and f: "so_txid so = replicate 64 (CHR ''0'')" "so_vout so = 1" "so_multiplier so = 1" "so_payment_value so = 1000000"
    "so_script_sig so = bytesToHex [3, 0x30, 0x00, 0x83]" "so_payment_script so = bytesToHex (p2pkhScript (replicate 20 0))"
    using sample_sell by blast
  have "\<exists>raw tx. buildFillTx sampleSigner sampleFillPlan [7] (replicate 33 2) (relayedOrder so (replicate 32 9)) 5000000 [sampleUtxo] = Inr (raw, tx)"
    by (rule buildFillTx_sample [where og = "replicate 32 9" and ss = "[3, 0x30, 0x00, 0x83]" and ps = "p2pkhScript (replicate 20 0)"])
      (simp_all add: relayedOrder_def f isTxid_zeros length_p2pkhScript MAX_SAFE_INTEGER_def)
  then obtain raw tx where b: "buildFillTx sampleSigner sampleFillPlan [7] (replicate 33 2) (relayedOrder so (replicate 32 9)) 5000000 [sampleUtxo] = Inr (raw, tx)"
    by blast
  from sell_order_settles [OF so _ b] have "out_value (tx_vout tx ! 0) = so_payment_value so" by auto
  then show ?thesis using so b f(4) by auto
qed

end
