(* ===== verification/Api.thy ===== *)
theory Api
  imports Orders Jsval
begin

text \<open>
  The relay client, \<^verbatim>\<open>contrib/uap-web/api.js\<close>: \<^verbatim>\<open>request\<close>, \<^verbatim>\<open>requestPage\<close>, \<^verbatim>\<open>requestAllPages\<close>, every endpoint
  with the checks on its answer, the staleness marks, and \<^verbatim>\<open>pollForConfirmation\<close>. The injected
  \<^verbatim>\<open>fetch\<close> is an argument that may answer every request differently: it is given the number of the
  request, and each operation returns, with its result, the number of the next request. Beside it
  stands the window arithmetic of the indexer (\<^verbatim>\<open>contrib/uap-indexer/page.go\<close>), the provider of the
  paging contract.

  Shows that against the indexer's windows the client returns the complete list, that it makes a
  bounded number of requests whatever it is told, that what an endpoint returns has the checked
  types, that polling reports the first poll that finds the transaction and otherwise gives up, and
  two ways in which a list is returned incomplete or unmarked.
\<close>

section \<open>Model: requests\<close>

record response =
  rs_status :: int
  rs_body :: "jsval option"
  rs_headers :: "(string \<times> string) list"

datatype http_method = GET | POST | DELETE

record fetch_request =
  rq_method :: http_method
  rq_url :: string
  rq_body :: jsval

text \<open>\<^verbatim>\<open>fetchImpl\<close>; a rejected promise is an \<^term>\<open>Inl\<close>.\<close>

type_synonym fetch = "nat \<Rightarrow> fetch_request \<Rightarrow> response result"

type_synonym 'a io = "nat \<Rightarrow> 'a result \<times> nat"

definition bindIO :: "'a io \<Rightarrow> ('a \<Rightarrow> 'b io) \<Rightarrow> 'b io" where
  "bindIO a f n = (case a n of (Inl e, k) \<Rightarrow> (Inl e, k) | (Inr x, k) \<Rightarrow> f x k)"

definition liftIO :: "'a result \<Rightarrow> 'a io" where
  "liftIO r n = (r, n)"

record api =
  api_baseUrl :: string
  api_fetchImpl :: fetch

definition fetchIO :: "api \<Rightarrow> fetch_request \<Rightarrow> response io" where
  "fetchIO client req n = (api_fetchImpl client n req, Suc n)"

definition newAPI :: "string \<Rightarrow> fetch option \<Rightarrow> api result" where
  "newAPI baseUrl fetchImpl =
    (if baseUrl = [] then Inl ''baseUrl required''
     else (case fetchImpl of None \<Rightarrow> Inl ''fetchImpl required'' | Some f \<Rightarrow> Inr \<lparr>api_baseUrl = baseUrl, api_fetchImpl = f\<rparr>))"

section \<open>Model: staleness marks\<close>

definition STALE_HEADER :: string where "STALE_HEADER = ''X-Whippet-Stale''"
definition CACHED_AT_HEADER :: string where "CACHED_AT_HEADER = ''X-Whippet-Cached-At''"

text \<open>A value with its non-enumerable mark, if it carries one: the time it was cached, when known.\<close>

record api_data =
  ad_value :: jsval
  ad_stale :: "string option option"

definition headerGet :: "response \<Rightarrow> string \<Rightarrow> string option" where
  "headerGet response name = map_of (rs_headers response) name"

definition attachStaleInfo :: "jsval \<Rightarrow> response \<Rightarrow> api_data" where
  "attachStaleInfo v response =
    (if \<not> isObject v then \<lparr>ad_value = v, ad_stale = None\<rparr>
     else if headerGet response STALE_HEADER \<noteq> Some ''1'' then \<lparr>ad_value = v, ad_stale = None\<rparr>
     else \<lparr>ad_value = v, ad_stale = Some (case headerGet response CACHED_AT_HEADER of
         Some t \<Rightarrow> if t = [] then None else Some t | None \<Rightarrow> None)\<rparr>)"

definition staleInfo :: "api_data \<Rightarrow> bool \<times> string option" where
  "staleInfo d = (case ad_stale d of None \<Rightarrow> (False, None) | Some cachedAt \<Rightarrow> (True, cachedAt))"

section \<open>Model: reading an answer\<close>

definition okStatus :: "response \<Rightarrow> bool" where
  "okStatus response = (\<not> (rs_status response < 200 \<or> rs_status response \<ge> 300))"

text \<open>The text of a reason in an error body; a reason that is no string adds no text here.\<close>

definition httpError :: "response \<Rightarrow> string list \<Rightarrow> string" where
  "httpError response names =
    ''HTTP '' @ decInt (rs_status response)
    @ (case rs_body response of
         None \<Rightarrow> []
       | Some body \<Rightarrow> (case find (\<lambda>f. truthy (getField body f)) names of
           None \<Rightarrow> []
         | Some f \<Rightarrow> '': '' @ (case getField body f of JStr s \<Rightarrow> s | _ \<Rightarrow> [])))"

definition request :: "api \<Rightarrow> string \<Rightarrow> api_data io" where
  "request client path =
    bindIO (fetchIO client \<lparr>rq_method = GET, rq_url = api_baseUrl client @ path, rq_body = JUndef\<rparr>) (\<lambda>response. liftIO
     (if \<not> okStatus response then Inl (httpError response [''error'', ''store_error''])
      else (case rs_body response of
          None \<Rightarrow> Inl ''Failed to parse JSON response: ''
        | Some v \<Rightarrow> Inr (attachStaleInfo v response))))"

definition requestPage :: "api \<Rightarrow> string \<Rightarrow> (api_data \<times> bool) io" where
  "requestPage client path =
    bindIO (fetchIO client \<lparr>rq_method = GET, rq_url = api_baseUrl client @ path, rq_body = JUndef\<rparr>) (\<lambda>response.
      if \<not> okStatus response then bindIO (request client path) (\<lambda>d. liftIO (Inr (d, False)))
      else liftIO (case rs_body response of
          None \<Rightarrow> Inl ''Failed to parse JSON response: ''
        | Some v \<Rightarrow> Inr (attachStaleInfo v response, headerGet response ''X-Has-More'' = Some ''true'')))"

definition MAX_PAGES :: nat where
  "MAX_PAGES = 100"

definition pagePath :: "string \<Rightarrow> nat \<Rightarrow> string" where
  "pagePath basePath offset = basePath @ (if CHR ''?'' \<in> set basePath then ''&'' else ''?'') @ ''offset='' @ decNat offset"

text \<open>
  The page loop; \<open>k\<close> pages are left. \<^verbatim>\<open>out.concat(data)\<close> makes a new array, which carries no mark.
\<close>

definition concatData :: "api_data option \<Rightarrow> api_data \<Rightarrow> jsval list \<Rightarrow> api_data" where
  "concatData out d es = (case out of
     None \<Rightarrow> d
   | Some o' \<Rightarrow> \<lparr>ad_value = JArr ((case ad_value o' of JArr xs \<Rightarrow> xs | _ \<Rightarrow> []) @ es), ad_stale = None\<rparr>)"

fun pagesLoop :: "api \<Rightarrow> string \<Rightarrow> nat \<Rightarrow> nat \<Rightarrow> api_data option \<Rightarrow> api_data io" where
  "pagesLoop client basePath 0 offset out n = (Inr (case out of None \<Rightarrow> \<lparr>ad_value = JArr [], ad_stale = None\<rparr> | Some d \<Rightarrow> d), n)"
| "pagesLoop client basePath (Suc k) offset out n =
    (case requestPage client (pagePath basePath offset) n of
       (Inl e, m) \<Rightarrow> (Inl e, m)
     | (Inr (d, hasMore), m) \<Rightarrow>
       (case ad_value d of
          JArr es \<Rightarrow>
            (let out' = concatData out d es in
             if \<not> hasMore \<or> es = [] then (Inr out', m) else pagesLoop client basePath k (offset + length es) (Some out') m)
        | _ \<Rightarrow> (Inr d, m)))"

definition requestAllPages :: "api \<Rightarrow> string \<Rightarrow> api_data io" where
  "requestAllPages client basePath = pagesLoop client basePath MAX_PAGES 0 None"

section \<open>Model: endpoints\<close>

datatype field_kind = FString | FNumber

fun hasKind :: "field_kind \<Rightarrow> jsval \<Rightarrow> bool" where
  "hasKind FString v = isString v"
| "hasKind FNumber v = isNumber v"

fun checkFields :: "string \<Rightarrow> (string \<times> field_kind) list \<Rightarrow> jsval \<Rightarrow> unit result" where
  "checkFields who [] v = Inr ()"
| "checkFields who ((f, k) # fs) v = (if \<not> hasKind k (getField v f) then Inl (who @ f) else checkFields who fs v)"

fun checkEntries :: "string \<Rightarrow> (string \<times> field_kind) list \<Rightarrow> jsval list \<Rightarrow> unit result" where
  "checkEntries who specs [] = Inr ()"
| "checkEntries who specs (e # es) = bindR (checkFields who specs e) (\<lambda>_. checkEntries who specs es)"

definition checkedList :: "string \<Rightarrow> (string \<times> field_kind) list \<Rightarrow> api_data \<Rightarrow> api_data result" where
  "checkedList who specs d = (case ad_value d of
     JArr es \<Rightarrow> bindR (checkEntries (who @ '': entry '') specs es) (\<lambda>_. Inr d)
   | _ \<Rightarrow> Inl (who @ '': response is not an array''))"

text \<open>An object, not \<^verbatim>\<open>null\<close> and not an array.\<close>

definition isPlainObject :: "jsval \<Rightarrow> bool" where
  "isPlainObject v = (case v of JObj fs \<Rightarrow> True | JBytes b \<Rightarrow> True | _ \<Rightarrow> False)"

definition checkedObject :: "string \<Rightarrow> (string \<times> field_kind) list \<Rightarrow> api_data \<Rightarrow> api_data result" where
  "checkedObject who specs d =
    (if \<not> isPlainObject (ad_value d) then Inl (who @ '': expected an object'')
     else bindR (checkFields (who @ '': response missing '') specs (ad_value d)) (\<lambda>_. Inr d))"

text \<open>\<^verbatim>\<open>URLSearchParams.toString\<close> on one value.\<close>

definition hexUpper :: "nat \<Rightarrow> char" where
  "hexUpper d = (if d < 10 then char_of (48 + d) else char_of (55 + d))"

definition urlEncode :: "string \<Rightarrow> string" where
  "urlEncode s = concat (map (\<lambda>b. let c = unat b in
     if (48 \<le> c \<and> c \<le> 57) \<or> (65 \<le> c \<and> c \<le> 90) \<or> (97 \<le> c \<and> c \<le> 122) \<or> c \<in> {42, 45, 46, 95} then [char_of c]
     else if c = 32 then ''+'' else [CHR ''%'', hexUpper (c div 16), hexUpper (c mod 16)]) (textEncode s))"

definition positionFields :: "(string \<times> field_kind) list" where
  "positionFields = [(''txid'', FString), (''vout'', FNumber), (''height'', FNumber), (''value'', FNumber)]"

definition utxoFields :: "(string \<times> field_kind) list" where
  "utxoFields = [(''txid'', FString), (''vout'', FNumber), (''value'', FNumber), (''height'', FNumber)]"

definition orderFields :: "(string \<times> field_kind) list" where
  "orderFields = [(''txid'', FString), (''vout'', FNumber), (''multiplier'', FNumber), (''pubkey'', FString), (''script_sig'', FString),
     (''payment_script'', FString), (''payment_value'', FNumber), (''created_at'', FNumber), (''cancel_nonce'', FString)]"

definition getPositions :: "api \<Rightarrow> string \<Rightarrow> bool \<Rightarrow> api_data io" where
  "getPositions client pubkeyHex unspentOnly =
    bindIO (requestAllPages client (''/positions?pubkey='' @ urlEncode pubkeyHex @ ''&unspent='' @ (if unspentOnly then ''true'' else ''false'')))
      (\<lambda>d. liftIO (checkedList ''getPositions'' positionFields d))"

definition getPosition :: "api \<Rightarrow> string \<Rightarrow> int \<Rightarrow> api_data io" where
  "getPosition client txid vout =
    bindIO (request client (''/position/'' @ txid @ ''/'' @ decInt vout)) (\<lambda>d. liftIO (checkedObject ''getPosition'' positionFields d))"

text \<open>\<^verbatim>\<open>/^([0-9a-f]{2})+$/i\<close>\<close>

definition isHexPairs :: "string \<Rightarrow> bool" where
  "isHexPairs s = (s \<noteq> [] \<and> even (length s) \<and> list_all (\<lambda>c. hexVal c \<noteq> None) s)"

definition getRawTx :: "api \<Rightarrow> string \<Rightarrow> string io" where
  "getRawTx client txid =
    bindIO (request client (''/rawtx/'' @ txid)) (\<lambda>d. liftIO
      (if \<not> isPlainObject (ad_value d) then Inl ''getRawTx: expected an object''
       else (case getField (ad_value d) ''hex'' of
           JStr s \<Rightarrow> if isHexPairs s then Inr s else Inl ''getRawTx: response missing a well-formed hex field''
         | _ \<Rightarrow> Inl ''getRawTx: response missing a well-formed hex field'')))"

definition getUtxos :: "api \<Rightarrow> string \<Rightarrow> api_data io" where
  "getUtxos client address =
    bindIO (requestAllPages client (''/utxos?address='' @ urlEncode address)) (\<lambda>d. liftIO (checkedList ''getUtxos'' utxoFields d))"

definition getStatus :: "api \<Rightarrow> api_data io" where
  "getStatus client =
    bindIO (request client ''/status'') (\<lambda>d. liftIO
      (checkedObject ''getStatus'' [(''tip_height'', FNumber), (''tip_hash'', FString), (''position_count'', FNumber)] d))"

definition broadcast :: "api \<Rightarrow> string \<Rightarrow> string io" where
  "broadcast client rawHex =
    bindIO (fetchIO client \<lparr>rq_method = POST, rq_url = api_baseUrl client @ ''/broadcast'', rq_body = JObj [(''hex'', JStr rawHex)]\<rparr>) (\<lambda>response. liftIO
     (if \<not> okStatus response then Inl (httpError response [''error''])
      else (case rs_body response of
          None \<Rightarrow> Inl ''Failed to parse broadcast response: ''
        | Some (JStr txid) \<Rightarrow> if isLowerHex64 txid then Inr txid else Inl ''broadcast: expected a 64-character hex txid, got ''
        | Some _ \<Rightarrow> Inl ''broadcast: expected a 64-character hex txid, got '')))"

definition getFeeRate :: "api \<Rightarrow> api_data io" where
  "getFeeRate client =
    bindIO (request client ''/feerate'') (\<lambda>d. liftIO (checkedObject ''getFeeRate'' [(''sat_per_kb'', FNumber), (''source'', FString)] d))"

definition listOrders :: "api \<Rightarrow> int option \<Rightarrow> api_data io" where
  "listOrders client mfilter =
    bindIO (request client (''/orders'' @ (case mfilter of None \<Rightarrow> [] | Some m \<Rightarrow> ''?multiplier='' @ decInt m)))
      (\<lambda>d. liftIO (checkedList ''listOrders'' orderFields d))"

definition getOrder :: "api \<Rightarrow> string \<Rightarrow> int \<Rightarrow> api_data io" where
  "getOrder client txid vout =
    bindIO (request client (''/orders/'' @ txid @ ''/'' @ decInt vout)) (\<lambda>d. liftIO (checkedObject ''getOrder'' orderFields d))"

definition publishOrder :: "api \<Rightarrow> jsval \<Rightarrow> api_data io" where
  "publishOrder client order =
    bindIO (fetchIO client \<lparr>rq_method = POST, rq_url = api_baseUrl client @ ''/orders'', rq_body = order\<rparr>) (\<lambda>response. liftIO
     (if \<not> okStatus response then Inl (httpError response [''error''])
      else (case rs_body response of
          None \<Rightarrow> Inl ''Failed to parse order response: ''
        | Some v \<Rightarrow> checkedObject ''publishOrder'' orderFields \<lparr>ad_value = v, ad_stale = None\<rparr>)))"

definition cancelOrder :: "api \<Rightarrow> string \<Rightarrow> int \<Rightarrow> string \<Rightarrow> unit io" where
  "cancelOrder client txid vout cancelSigHex =
    bindIO (fetchIO client \<lparr>rq_method = DELETE,
        rq_url = api_baseUrl client @ ''/orders/'' @ txid @ ''/'' @ decInt vout @ ''?sig='' @ urlEncode cancelSigHex, rq_body = JUndef\<rparr>) (\<lambda>response. liftIO
     (if rs_status response = 204 then Inr () else Inl (httpError response [''error''])))"

section \<open>Model: polling\<close>

datatype poll_status = Confirmed jsval | Timeout

text \<open>The loop of \<^verbatim>\<open>pollForConfirmation\<close> with \<open>k\<close> attempts left; the errors it reported come with the result.\<close>

fun pollLoop :: "api \<Rightarrow> string \<Rightarrow> string \<Rightarrow> nat \<Rightarrow> nat \<Rightarrow> poll_status \<times> string list \<times> nat" where
  "pollLoop client address txid 0 n = (Timeout, [], n)"
| "pollLoop client address txid (Suc k) n =
    (case getUtxos client address n of
       (Inl e, m) \<Rightarrow> (let (st, errs, l) = pollLoop client address txid k m in (st, e # errs, l))
     | (Inr d, m) \<Rightarrow>
       (case find (\<lambda>u. getField u ''txid'' = JStr txid) (case ad_value d of JArr es \<Rightarrow> es | _ \<Rightarrow> []) of
          Some u \<Rightarrow> (Confirmed u, [], m)
        | None \<Rightarrow> pollLoop client address txid k m))"

definition pollForConfirmation :: "api \<Rightarrow> string \<Rightarrow> string \<Rightarrow> nat \<Rightarrow> nat \<Rightarrow> poll_status \<times> string list \<times> nat" where
  "pollForConfirmation client address txid maxAttempts = pollLoop client address txid maxAttempts"

section \<open>Model: the indexer's windows\<close>

record page =
  pg_Limit :: nat
  pg_Offset :: nat

definition defaultPageLimit :: nat where
  "defaultPageLimit = 500"

text \<open>\<^verbatim>\<open>sqlSuffix\<close> asks for one row more than the limit; \<^verbatim>\<open>truncate\<close> drops it and reports that it was there.\<close>

definition queryRows :: "'a list \<Rightarrow> page \<Rightarrow> 'a list" where
  "queryRows rows p = (if pg_Limit p = 0 then rows else take (pg_Limit p + 1) (drop (pg_Offset p) rows))"

definition truncatePage :: "'a list \<Rightarrow> page \<Rightarrow> 'a list \<times> bool" where
  "truncatePage rows p = (if pg_Limit p = 0 \<or> length rows \<le> pg_Limit p then (rows, False) else (take (pg_Limit p) rows, True))"

definition writePageHeaders :: "page \<Rightarrow> nat \<Rightarrow> bool \<Rightarrow> (string \<times> string) list" where
  "writePageHeaders p returned hasMore =
    [(''X-Page-Limit'', decNat (pg_Limit p)), (''X-Page-Offset'', decNat (pg_Offset p)), (''X-Page-Count'', decNat returned)]
    @ (if hasMore then [(''X-Has-More'', ''true''), (''X-Next-Offset'', decNat (pg_Offset p + returned))] else [(''X-Has-More'', ''false'')])"

text \<open>
  \<^verbatim>\<open>parsePage\<close> for the URLs of this client, which name no limit and end with the offset. A list
  endpoint over the rows of one query then answers like this.
\<close>

definition parsePage :: "string \<Rightarrow> page" where
  "parsePage url = \<lparr>pg_Limit = defaultPageLimit, pg_Offset = decVal (rev (takeWhile (\<lambda>c. c \<noteq> CHR ''='') (rev url)))\<rparr>"

definition indexerFetch :: "jsval list \<Rightarrow> fetch" where
  "indexerFetch rows n req =
    (let p = parsePage (rq_url req); (window, hasMore) = truncatePage (queryRows rows p) p
     in Inr \<lparr>rs_status = 200, rs_body = Some (JArr window), rs_headers = writePageHeaders p (length window) hasMore\<rparr>)"

section \<open>Lemmas\<close>

lemma bindIO_Pair [simp]: "a n = (Inl e, k) \<Longrightarrow> bindIO a f n = (Inl e, k)" "a n = (Inr x, k) \<Longrightarrow> bindIO a f n = f x k"
  by (simp_all add: bindIO_def)

lemma parsePage_pagePath: "parsePage (base @ pagePath basePath off) = \<lparr>pg_Limit = defaultPageLimit, pg_Offset = off\<rparr>"
proof -
  have d: "\<forall>c\<in>set (rev (decNat off)). c \<noteq> CHR ''=''" using decNat_digits [of "CHR ''=''" off] by (auto simp: isDigit_def)
  have "takeWhile (\<lambda>c. c \<noteq> CHR ''='') (rev (decNat off) @ CHR ''='' # r) = rev (decNat off)" for r
    using d by (subst takeWhile_append2) auto
  then show ?thesis by (simp add: parsePage_def pagePath_def)
qed

lemma truncate_query:
  assumes "0 < pg_Limit p"
  shows "truncatePage (queryRows rows p) p = (take (pg_Limit p) (drop (pg_Offset p) rows), pg_Offset p + pg_Limit p < length rows)"
  using assms by (auto simp: truncatePage_def queryRows_def min_def)

lemma requestPage_indexer:
  "requestPage \<lparr>api_baseUrl = base, api_fetchImpl = indexerFetch rows\<rparr> (pagePath basePath off) n
    = (Inr (\<lparr>ad_value = JArr (take defaultPageLimit (drop off rows)), ad_stale = None\<rparr>, off + defaultPageLimit < length rows), Suc n)"
  by (simp add: requestPage_def bindIO_def fetchIO_def indexerFetch_def parsePage_pagePath truncate_query Let_def okStatus_def liftIO_def
      attachStaleInfo_def headerGet_def writePageHeaders_def STALE_HEADER_def defaultPageLimit_def)

section \<open>The paging contract\<close>

text \<open>What the client relies on: a request for an offset is answered by the window there, and told whether rows remain.\<close>

locale paged_source =
  fixes client :: api and basePath :: string and rows :: "jsval list" and limit :: nat
  assumes limit_pos: "0 < limit"
    and serves: "requestPage client (pagePath basePath off) n
      = (Inr (\<lparr>ad_value = JArr (take limit (drop off rows)), ad_stale = None\<rparr>, off + limit < length rows), Suc n)"
begin

lemma loop_collects:
  assumes "0 < k" "length rows \<le> off + k * limit" "off < length rows \<or> off = 0"
  shows "fst (pagesLoop client basePath k off (if off = 0 then None else Some \<lparr>ad_value = JArr (take off rows), ad_stale = None\<rparr>) n)
    = Inr \<lparr>ad_value = JArr rows, ad_stale = None\<rparr>"
  using assms
proof (induction k arbitrary: off n)
  case (Suc k)
  let ?out = "if off = 0 then None else Some \<lparr>ad_value = JArr (take off rows), ad_stale = None\<rparr>"
  let ?w = "take limit (drop off rows)"
  have c: "concatData ?out \<lparr>ad_value = JArr ?w, ad_stale = None\<rparr> ?w = \<lparr>ad_value = JArr (take (off + limit) rows), ad_stale = None\<rparr>"
    by (simp add: concatData_def take_add)
  show ?case
  proof (cases "off + limit < length rows")
    case True
    then have w: "?w \<noteq> []" "length ?w = limit" using limit_pos by auto
    have k: "0 < k" using True Suc.prems(2) by (cases k) auto
    have "fst (pagesLoop client basePath k (off + limit) (Some \<lparr>ad_value = JArr (take (off + limit) rows), ad_stale = None\<rparr>) (Suc n))
      = Inr \<lparr>ad_value = JArr rows, ad_stale = None\<rparr>"
      using Suc.IH [of "off + limit" "Suc n"] k Suc.prems(2) True limit_pos by (simp add: algebra_simps)
    then show ?thesis using w True c by (simp add: serves Let_def)
  next
    case False
    then have "take (off + limit) rows = rows" by simp
    then show ?thesis using False c by (simp add: serves Let_def)
  qed
qed simp

lemma all_pages: "length rows \<le> MAX_PAGES * limit \<Longrightarrow> fst (requestAllPages client basePath n) = Inr \<lparr>ad_value = JArr rows, ad_stale = None\<rparr>"
  using loop_collects [of MAX_PAGES 0 n] by (simp add: requestAllPages_def MAX_PAGES_def)

end

interpretation windows: paged_source "\<lparr>api_baseUrl = base, api_fetchImpl = indexerFetch rows\<rparr>" basePath rows defaultPageLimit
  for base basePath rows
  by unfold_locales (simp add: defaultPageLimit_def, rule requestPage_indexer)

lemma request_counts: "snd (request client path n) = Suc n"
  by (simp add: request_def bindIO_def fetchIO_def liftIO_def split: sum.split)

lemma requestPage_counts: "n < snd (requestPage client path n) \<and> snd (requestPage client path n) \<le> n + 2"
proof (cases "requestPage client path n = (fst (bindIO (request client path) (\<lambda>d. liftIO (Inr (d, False))) (Suc n)), Suc (Suc n))")
  case False
  have "snd (bindIO (request client path) (\<lambda>d. liftIO (Inr (d, False))) (Suc n)) = Suc (Suc n)"
    using request_counts [of client path "Suc n"] by (auto simp: bindIO_def liftIO_def split: prod.splits sum.splits)
  then show ?thesis
    by (auto simp: requestPage_def bindIO_def [of "fetchIO client req" for req] fetchIO_def liftIO_def split: sum.split)
qed simp

lemma pagesLoop_counts: "snd (pagesLoop client basePath k off out n) \<le> n + 2 * k"
proof (induction k arbitrary: off out n)
  case (Suc k)
  obtain r m where r: "requestPage client (pagePath basePath off) n = (r, m)" by fastforce
  have m: "m \<le> n + 2" using requestPage_counts [of n client "pagePath basePath off"] r by simp
  have "snd (pagesLoop client basePath k o' u m) \<le> n + 2 * Suc k" for o' u using Suc.IH [of o' u m] m by simp
  then show ?case using r m by (auto simp: Let_def split: sum.split jsval.split prod.split)
qed simp

lemma checkFields_Inr: "checkFields who specs v = Inr u \<longleftrightarrow> list_all (\<lambda>(f, k). hasKind k (getField v f)) specs"
  by (induction who specs v rule: checkFields.induct) auto

lemma checkEntries_Inr: "checkEntries who specs es = Inr u \<longleftrightarrow> list_all (\<lambda>e. list_all (\<lambda>(f, k). hasKind k (getField e f)) specs) es"
  by (induction who specs es rule: checkEntries.induct) (auto simp: result_simps checkFields_Inr)

lemma checkedList_Inr:
  "checkedList who specs d = Inr d' \<longleftrightarrow> d' = d \<and> (\<exists>es. ad_value d = JArr es \<and> list_all (\<lambda>e. list_all (\<lambda>(f, k). hasKind k (getField e f)) specs) es)"
  by (auto simp: checkedList_def result_simps checkEntries_Inr split: jsval.splits)

lemma bindIO_liftIO: "fst (bindIO a (\<lambda>d. liftIO (g d)) n) = bindR (fst (a n)) g" "snd (bindIO a (\<lambda>d. liftIO (g d)) n) = snd (a n)"
  by (auto simp: bindIO_def liftIO_def bindR_def split: prod.split sum.split)

text \<open>The \<open>i\<close>-th poll: the request number it starts from, and what it finds.\<close>

definition pollStart :: "api \<Rightarrow> string \<Rightarrow> nat \<Rightarrow> nat \<Rightarrow> nat" where
  "pollStart client address n i = ((\<lambda>m. snd (getUtxos client address m)) ^^ i) n"

definition pollFinds :: "api \<Rightarrow> string \<Rightarrow> string \<Rightarrow> nat \<Rightarrow> nat \<Rightarrow> jsval option" where
  "pollFinds client address txid n i = (case fst (getUtxos client address (pollStart client address n i)) of
     Inl e \<Rightarrow> None
   | Inr d \<Rightarrow> find (\<lambda>u. getField u ''txid'' = JStr txid) (case ad_value d of JArr es \<Rightarrow> es | _ \<Rightarrow> []))"

lemma pollStart_Suc: "pollStart client address n (Suc i) = pollStart client address (snd (getUtxos client address n)) i"
  by (simp add: pollStart_def funpow_Suc_right del: funpow.simps(2))

lemma pollFinds_Suc: "pollFinds client address txid n (Suc i) = pollFinds client address txid (snd (getUtxos client address n)) i"
  by (simp add: pollFinds_def pollStart_Suc)

lemma find_first_upt: "find P [0..<Suc k] = (if P 0 then Some 0 else map_option Suc (find (\<lambda>i. P (Suc i)) [0..<k]))"
proof -
  have "find P (map Suc xs) = map_option Suc (find (\<lambda>i. P (Suc i)) xs)" for xs by (induction xs) auto
  then show ?thesis by (subst upt_rec) (simp add: map_Suc_upt [symmetric] del: upt_Suc)
qed

lemma pollLoop_fst:
  "fst (pollLoop client address txid k n) = (case find (\<lambda>i. pollFinds client address txid n i \<noteq> None) [0..<k] of
     None \<Rightarrow> Timeout | Some i \<Rightarrow> Confirmed (the (pollFinds client address txid n i)))"
proof (induction k arbitrary: n)
  case (Suc k)
  obtain r m where r: "getUtxos client address n = (r, m)" by fastforce
  have f0: "pollFinds client address txid n 0 = (case r of Inl e \<Rightarrow> None
    | Inr d \<Rightarrow> find (\<lambda>u. getField u ''txid'' = JStr txid) (case ad_value d of JArr es \<Rightarrow> es | _ \<Rightarrow> []))"
    by (simp add: pollFinds_def pollStart_def r)
  have fs: "pollFinds client address txid n (Suc i) = pollFinds client address txid m i" for i by (simp add: pollFinds_Suc r)
  show ?case
  proof (cases "pollFinds client address txid n 0")
    case None
    then have "fst (pollLoop client address txid (Suc k) n) = fst (pollLoop client address txid k m)"
      using f0 by (simp add: r split: sum.splits prod.splits)
    then show ?thesis using None by (simp add: Suc.IH find_first_upt fs option.case_eq_if option.map_sel del: upt_Suc pollLoop.simps)
  next
    case (Some u)
    then obtain d where "r = Inr d" using f0 by (auto split: sum.splits)
    then show ?thesis using Some f0 by (simp add: r find_first_upt del: upt_Suc)
  qed
qed simp

section \<open>Properties\<close>

text \<open>C9: Against the indexer the client returns the whole list. For any rows that the indexer holds for a
  query, up to the hundred pages of five hundred it will follow, collecting the indexer's windows
  page by page yields exactly the rows, in order, once each.\<close>

theorem paging_returns_all_rows:
  assumes "length rows \<le> MAX_PAGES * defaultPageLimit"
  shows "fst (requestAllPages \<lparr>api_baseUrl = base, api_fetchImpl = indexerFetch rows\<rparr> basePath n) = Inr \<lparr>ad_value = JArr rows, ad_stale = None\<rparr>"
  by (rule windows.all_pages [OF assms])

theorem paging_returns_all_rows_witness:
  "fst (requestAllPages \<lparr>api_baseUrl = ''http'', api_fetchImpl = indexerFetch (replicate 1200 JNull)\<rparr> ''/utxos?address=A'' 0)
    = Inr \<lparr>ad_value = JArr (replicate 1200 JNull), ad_stale = None\<rparr>"
  by (rule paging_returns_all_rows) (simp add: MAX_PAGES_def defaultPageLimit_def)

text \<open>C11: A list request ends, whatever it is told. For every relay, also one that answers every page with
  more to come or fails every time, following the pages makes at most two hundred requests.\<close>

theorem paging_terminates:
  "snd (requestAllPages client basePath n) \<le> n + 200"
  using pagesLoop_counts [of client basePath MAX_PAGES 0 None n] by (simp add: requestAllPages_def MAX_PAGES_def)


text \<open>C10: Polling always resolves, to the first sighting. Whatever the relay answers, failures included, the
  poll reports the coin found by the earliest of its attempts that finds one with the transaction
  id, and reports a timeout exactly when none of its attempts does.\<close>

theorem polling_resolves_to_first_sighting:
  "fst (pollForConfirmation client address txid maxAttempts n) =
    (case find (\<lambda>i. pollFinds client address txid n i \<noteq> None) [0..<maxAttempts] of
       None \<Rightarrow> Timeout | Some i \<Rightarrow> Confirmed (the (pollFinds client address txid n i)))"
  unfolding pollForConfirmation_def by (rule pollLoop_fst)

text \<open>C13: A transient failure silently truncates a list. When the first request for a list fails with a server
  error and every later one is answered by the indexer, the client returns the first window only,
  as a success: the retry's notice that rows remain is not read.\<close>

theorem transient_failure_truncates_list:
  "fst (requestAllPages \<lparr>api_baseUrl = base, api_fetchImpl = (\<lambda>k req. if k = n
       then Inr \<lparr>rs_status = 503, rs_body = None, rs_headers = []\<rparr> else indexerFetch rows k req)\<rparr> basePath n)
    = Inr \<lparr>ad_value = JArr (take defaultPageLimit rows), ad_stale = None\<rparr>"
proof -
  let ?c = "\<lparr>api_baseUrl = base, api_fetchImpl = (\<lambda>k req. if k = n
       then Inr \<lparr>rs_status = 503, rs_body = None, rs_headers = []\<rparr> else indexerFetch rows k req)\<rparr>"
  have "requestPage ?c (pagePath basePath 0) n = (Inr (\<lparr>ad_value = JArr (take defaultPageLimit rows), ad_stale = None\<rparr>, False), Suc (Suc n))"
    by (simp add: requestPage_def request_def bindIO_def fetchIO_def liftIO_def okStatus_def indexerFetch_def parsePage_pagePath truncate_query Let_def
        attachStaleInfo_def headerGet_def writePageHeaders_def STALE_HEADER_def defaultPageLimit_def)
  then show ?thesis by (simp add: requestAllPages_def MAX_PAGES_def numeral_eq_Suc concatData_def Let_def)
qed

text \<open>The indexer's answers, served from the cache.\<close>

definition staleFetch :: "jsval list \<Rightarrow> fetch" where
  "staleFetch rows n req = mapR (\<lambda>r. r\<lparr>rs_headers := (STALE_HEADER, ''1'') # rs_headers r\<rparr>) (indexerFetch rows n req)"

text \<open>A cached list of several pages is presented as live. When every page is marked as served from the
  cache, a list that fits one page keeps the mark, but one of two pages loses it.\<close>

theorem stale_mark_lost_over_pages:
  "mapR staleInfo (fst (requestAllPages \<lparr>api_baseUrl = base, api_fetchImpl = staleFetch (replicate 500 JNull)\<rparr> basePath n)) = Inr (True, None)
   \<and> mapR staleInfo (fst (requestAllPages \<lparr>api_baseUrl = base, api_fetchImpl = staleFetch (replicate 501 JNull)\<rparr> basePath n)) = Inr (False, None)"
proof -
  have page: "requestPage \<lparr>api_baseUrl = base, api_fetchImpl = staleFetch rows\<rparr> (pagePath basePath off) m
    = (Inr (\<lparr>ad_value = JArr (take 500 (drop off rows)), ad_stale = Some None\<rparr>, off + 500 < length rows), Suc m)" for rows off m
    by (simp add: requestPage_def bindIO_def fetchIO_def staleFetch_def indexerFetch_def parsePage_pagePath truncate_query Let_def okStatus_def liftIO_def
        attachStaleInfo_def headerGet_def writePageHeaders_def STALE_HEADER_def CACHED_AT_HEADER_def defaultPageLimit_def)
  obtain k where hundred: "MAX_PAGES = Suc (Suc k)" by (rule that [of 98]) (simp add: MAX_PAGES_def)
  show ?thesis
    by (simp add: requestAllPages_def hundred page concatData_def Let_def staleInfo_def mapR_def)
qed

end
