(* ===== verification/Wordlist.thy ===== *)
theory Wordlist
  imports Jsval
begin

text \<open>
  The BIP39 word list, \<^verbatim>\<open>contrib/uap-web/wordlist.js\<close>, word by word, in one part per first letter. Its
  header says that it holds exactly 2048 words, all lower case, sorted and unique; these are shown
  below by evaluation, part by part.
\<close>

section \<open>The words\<close>

definition words_a :: "string list" where
  "words_a = [
    ''abandon'', ''ability'', ''able'', ''about'', ''above'', ''absent'', ''absorb'', ''abstract'', ''absurd'', ''abuse'', ''access'',
    ''accident'', ''account'', ''accuse'', ''achieve'', ''acid'', ''acoustic'', ''acquire'', ''across'', ''act'', ''action'', ''actor'',
    ''actress'', ''actual'', ''adapt'', ''add'', ''addict'', ''address'', ''adjust'', ''admit'', ''adult'', ''advance'', ''advice'',
    ''aerobic'', ''affair'', ''afford'', ''afraid'', ''again'', ''age'', ''agent'', ''agree'', ''ahead'', ''aim'', ''air'', ''airport'',
    ''aisle'', ''alarm'', ''album'', ''alcohol'', ''alert'', ''alien'', ''all'', ''alley'', ''allow'', ''almost'', ''alone'', ''alpha'',
    ''already'', ''also'', ''alter'', ''always'', ''amateur'', ''amazing'', ''among'', ''amount'', ''amused'', ''analyst'', ''anchor'',
    ''ancient'', ''anger'', ''angle'', ''angry'', ''animal'', ''ankle'', ''announce'', ''annual'', ''another'', ''answer'', ''antenna'',
    ''antique'', ''anxiety'', ''any'', ''apart'', ''apology'', ''appear'', ''apple'', ''approve'', ''april'', ''arch'', ''arctic'',
    ''area'', ''arena'', ''argue'', ''arm'', ''armed'', ''armor'', ''army'', ''around'', ''arrange'', ''arrest'', ''arrive'', ''arrow'',
    ''art'', ''artefact'', ''artist'', ''artwork'', ''ask'', ''aspect'', ''assault'', ''asset'', ''assist'', ''assume'', ''asthma'',
    ''athlete'', ''atom'', ''attack'', ''attend'', ''attitude'', ''attract'', ''auction'', ''audit'', ''august'', ''aunt'', ''author'',
    ''auto'', ''autumn'', ''average'', ''avocado'', ''avoid'', ''awake'', ''aware'', ''away'', ''awesome'', ''awful'', ''awkward'',
    ''axis'']"

definition words_b :: "string list" where
  "words_b = [
    ''baby'', ''bachelor'', ''bacon'', ''badge'', ''bag'', ''balance'', ''balcony'', ''ball'', ''bamboo'', ''banana'', ''banner'',
    ''bar'', ''barely'', ''bargain'', ''barrel'', ''base'', ''basic'', ''basket'', ''battle'', ''beach'', ''bean'', ''beauty'',
    ''because'', ''become'', ''beef'', ''before'', ''begin'', ''behave'', ''behind'', ''believe'', ''below'', ''belt'', ''bench'',
    ''benefit'', ''best'', ''betray'', ''better'', ''between'', ''beyond'', ''bicycle'', ''bid'', ''bike'', ''bind'', ''biology'',
    ''bird'', ''birth'', ''bitter'', ''black'', ''blade'', ''blame'', ''blanket'', ''blast'', ''bleak'', ''bless'', ''blind'', ''blood'',
    ''blossom'', ''blouse'', ''blue'', ''blur'', ''blush'', ''board'', ''boat'', ''body'', ''boil'', ''bomb'', ''bone'', ''bonus'',
    ''book'', ''boost'', ''border'', ''boring'', ''borrow'', ''boss'', ''bottom'', ''bounce'', ''box'', ''boy'', ''bracket'', ''brain'',
    ''brand'', ''brass'', ''brave'', ''bread'', ''breeze'', ''brick'', ''bridge'', ''brief'', ''bright'', ''bring'', ''brisk'',
    ''broccoli'', ''broken'', ''bronze'', ''broom'', ''brother'', ''brown'', ''brush'', ''bubble'', ''buddy'', ''budget'', ''buffalo'',
    ''build'', ''bulb'', ''bulk'', ''bullet'', ''bundle'', ''bunker'', ''burden'', ''burger'', ''burst'', ''bus'', ''business'', ''busy'',
    ''butter'', ''buyer'', ''buzz'']"

definition words_c :: "string list" where
  "words_c = [
    ''cabbage'', ''cabin'', ''cable'', ''cactus'', ''cage'', ''cake'', ''call'', ''calm'', ''camera'', ''camp'', ''can'', ''canal'',
    ''cancel'', ''candy'', ''cannon'', ''canoe'', ''canvas'', ''canyon'', ''capable'', ''capital'', ''captain'', ''car'', ''carbon'',
    ''card'', ''cargo'', ''carpet'', ''carry'', ''cart'', ''case'', ''cash'', ''casino'', ''castle'', ''casual'', ''cat'', ''catalog'',
    ''catch'', ''category'', ''cattle'', ''caught'', ''cause'', ''caution'', ''cave'', ''ceiling'', ''celery'', ''cement'', ''census'',
    ''century'', ''cereal'', ''certain'', ''chair'', ''chalk'', ''champion'', ''change'', ''chaos'', ''chapter'', ''charge'', ''chase'',
    ''chat'', ''cheap'', ''check'', ''cheese'', ''chef'', ''cherry'', ''chest'', ''chicken'', ''chief'', ''child'', ''chimney'',
    ''choice'', ''choose'', ''chronic'', ''chuckle'', ''chunk'', ''churn'', ''cigar'', ''cinnamon'', ''circle'', ''citizen'', ''city'',
    ''civil'', ''claim'', ''clap'', ''clarify'', ''claw'', ''clay'', ''clean'', ''clerk'', ''clever'', ''click'', ''client'', ''cliff'',
    ''climb'', ''clinic'', ''clip'', ''clock'', ''clog'', ''close'', ''cloth'', ''cloud'', ''clown'', ''club'', ''clump'', ''cluster'',
    ''clutch'', ''coach'', ''coast'', ''coconut'', ''code'', ''coffee'', ''coil'', ''coin'', ''collect'', ''color'', ''column'',
    ''combine'', ''come'', ''comfort'', ''comic'', ''common'', ''company'', ''concert'', ''conduct'', ''confirm'', ''congress'',
    ''connect'', ''consider'', ''control'', ''convince'', ''cook'', ''cool'', ''copper'', ''copy'', ''coral'', ''core'', ''corn'',
    ''correct'', ''cost'', ''cotton'', ''couch'', ''country'', ''couple'', ''course'', ''cousin'', ''cover'', ''coyote'', ''crack'',
    ''cradle'', ''craft'', ''cram'', ''crane'', ''crash'', ''crater'', ''crawl'', ''crazy'', ''cream'', ''credit'', ''creek'', ''crew'',
    ''cricket'', ''crime'', ''crisp'', ''critic'', ''crop'', ''cross'', ''crouch'', ''crowd'', ''crucial'', ''cruel'', ''cruise'',
    ''crumble'', ''crunch'', ''crush'', ''cry'', ''crystal'', ''cube'', ''culture'', ''cup'', ''cupboard'', ''curious'', ''current'',
    ''curtain'', ''curve'', ''cushion'', ''custom'', ''cute'', ''cycle'']"

definition words_d :: "string list" where
  "words_d = [
    ''dad'', ''damage'', ''damp'', ''dance'', ''danger'', ''daring'', ''dash'', ''daughter'', ''dawn'', ''day'', ''deal'', ''debate'',
    ''debris'', ''decade'', ''december'', ''decide'', ''decline'', ''decorate'', ''decrease'', ''deer'', ''defense'', ''define'',
    ''defy'', ''degree'', ''delay'', ''deliver'', ''demand'', ''demise'', ''denial'', ''dentist'', ''deny'', ''depart'', ''depend'',
    ''deposit'', ''depth'', ''deputy'', ''derive'', ''describe'', ''desert'', ''design'', ''desk'', ''despair'', ''destroy'', ''detail'',
    ''detect'', ''develop'', ''device'', ''devote'', ''diagram'', ''dial'', ''diamond'', ''diary'', ''dice'', ''diesel'', ''diet'',
    ''differ'', ''digital'', ''dignity'', ''dilemma'', ''dinner'', ''dinosaur'', ''direct'', ''dirt'', ''disagree'', ''discover'',
    ''disease'', ''dish'', ''dismiss'', ''disorder'', ''display'', ''distance'', ''divert'', ''divide'', ''divorce'', ''dizzy'',
    ''doctor'', ''document'', ''dog'', ''doll'', ''dolphin'', ''domain'', ''donate'', ''donkey'', ''donor'', ''door'', ''dose'',
    ''double'', ''dove'', ''draft'', ''dragon'', ''drama'', ''drastic'', ''draw'', ''dream'', ''dress'', ''drift'', ''drill'', ''drink'',
    ''drip'', ''drive'', ''drop'', ''drum'', ''dry'', ''duck'', ''dumb'', ''dune'', ''during'', ''dust'', ''dutch'', ''duty'', ''dwarf'',
    ''dynamic'']"

definition words_e :: "string list" where
  "words_e = [
    ''eager'', ''eagle'', ''early'', ''earn'', ''earth'', ''easily'', ''east'', ''easy'', ''echo'', ''ecology'', ''economy'', ''edge'',
    ''edit'', ''educate'', ''effort'', ''egg'', ''eight'', ''either'', ''elbow'', ''elder'', ''electric'', ''elegant'', ''element'',
    ''elephant'', ''elevator'', ''elite'', ''else'', ''embark'', ''embody'', ''embrace'', ''emerge'', ''emotion'', ''employ'',
    ''empower'', ''empty'', ''enable'', ''enact'', ''end'', ''endless'', ''endorse'', ''enemy'', ''energy'', ''enforce'', ''engage'',
    ''engine'', ''enhance'', ''enjoy'', ''enlist'', ''enough'', ''enrich'', ''enroll'', ''ensure'', ''enter'', ''entire'', ''entry'',
    ''envelope'', ''episode'', ''equal'', ''equip'', ''era'', ''erase'', ''erode'', ''erosion'', ''error'', ''erupt'', ''escape'',
    ''essay'', ''essence'', ''estate'', ''eternal'', ''ethics'', ''evidence'', ''evil'', ''evoke'', ''evolve'', ''exact'', ''example'',
    ''excess'', ''exchange'', ''excite'', ''exclude'', ''excuse'', ''execute'', ''exercise'', ''exhaust'', ''exhibit'', ''exile'',
    ''exist'', ''exit'', ''exotic'', ''expand'', ''expect'', ''expire'', ''explain'', ''expose'', ''express'', ''extend'', ''extra'',
    ''eye'', ''eyebrow'']"

definition words_f :: "string list" where
  "words_f = [
    ''fabric'', ''face'', ''faculty'', ''fade'', ''faint'', ''faith'', ''fall'', ''false'', ''fame'', ''family'', ''famous'', ''fan'',
    ''fancy'', ''fantasy'', ''farm'', ''fashion'', ''fat'', ''fatal'', ''father'', ''fatigue'', ''fault'', ''favorite'', ''feature'',
    ''february'', ''federal'', ''fee'', ''feed'', ''feel'', ''female'', ''fence'', ''festival'', ''fetch'', ''fever'', ''few'', ''fiber'',
    ''fiction'', ''field'', ''figure'', ''file'', ''film'', ''filter'', ''final'', ''find'', ''fine'', ''finger'', ''finish'', ''fire'',
    ''firm'', ''first'', ''fiscal'', ''fish'', ''fit'', ''fitness'', ''fix'', ''flag'', ''flame'', ''flash'', ''flat'', ''flavor'',
    ''flee'', ''flight'', ''flip'', ''float'', ''flock'', ''floor'', ''flower'', ''fluid'', ''flush'', ''fly'', ''foam'', ''focus'',
    ''fog'', ''foil'', ''fold'', ''follow'', ''food'', ''foot'', ''force'', ''forest'', ''forget'', ''fork'', ''fortune'', ''forum'',
    ''forward'', ''fossil'', ''foster'', ''found'', ''fox'', ''fragile'', ''frame'', ''frequent'', ''fresh'', ''friend'', ''fringe'',
    ''frog'', ''front'', ''frost'', ''frown'', ''frozen'', ''fruit'', ''fuel'', ''fun'', ''funny'', ''furnace'', ''fury'', ''future'']"

definition words_g :: "string list" where
  "words_g = [
    ''gadget'', ''gain'', ''galaxy'', ''gallery'', ''game'', ''gap'', ''garage'', ''garbage'', ''garden'', ''garlic'', ''garment'',
    ''gas'', ''gasp'', ''gate'', ''gather'', ''gauge'', ''gaze'', ''general'', ''genius'', ''genre'', ''gentle'', ''genuine'',
    ''gesture'', ''ghost'', ''giant'', ''gift'', ''giggle'', ''ginger'', ''giraffe'', ''girl'', ''give'', ''glad'', ''glance'', ''glare'',
    ''glass'', ''glide'', ''glimpse'', ''globe'', ''gloom'', ''glory'', ''glove'', ''glow'', ''glue'', ''goat'', ''goddess'', ''gold'',
    ''good'', ''goose'', ''gorilla'', ''gospel'', ''gossip'', ''govern'', ''gown'', ''grab'', ''grace'', ''grain'', ''grant'', ''grape'',
    ''grass'', ''gravity'', ''great'', ''green'', ''grid'', ''grief'', ''grit'', ''grocery'', ''group'', ''grow'', ''grunt'', ''guard'',
    ''guess'', ''guide'', ''guilt'', ''guitar'', ''gun'', ''gym'']"

definition words_h :: "string list" where
  "words_h = [
    ''habit'', ''hair'', ''half'', ''hammer'', ''hamster'', ''hand'', ''happy'', ''harbor'', ''hard'', ''harsh'', ''harvest'', ''hat'',
    ''have'', ''hawk'', ''hazard'', ''head'', ''health'', ''heart'', ''heavy'', ''hedgehog'', ''height'', ''hello'', ''helmet'', ''help'',
    ''hen'', ''hero'', ''hidden'', ''high'', ''hill'', ''hint'', ''hip'', ''hire'', ''history'', ''hobby'', ''hockey'', ''hold'',
    ''hole'', ''holiday'', ''hollow'', ''home'', ''honey'', ''hood'', ''hope'', ''horn'', ''horror'', ''horse'', ''hospital'', ''host'',
    ''hotel'', ''hour'', ''hover'', ''hub'', ''huge'', ''human'', ''humble'', ''humor'', ''hundred'', ''hungry'', ''hunt'', ''hurdle'',
    ''hurry'', ''hurt'', ''husband'', ''hybrid'']"

definition words_i :: "string list" where
  "words_i = [
    ''ice'', ''icon'', ''idea'', ''identify'', ''idle'', ''ignore'', ''ill'', ''illegal'', ''illness'', ''image'', ''imitate'',
    ''immense'', ''immune'', ''impact'', ''impose'', ''improve'', ''impulse'', ''inch'', ''include'', ''income'', ''increase'', ''index'',
    ''indicate'', ''indoor'', ''industry'', ''infant'', ''inflict'', ''inform'', ''inhale'', ''inherit'', ''initial'', ''inject'',
    ''injury'', ''inmate'', ''inner'', ''innocent'', ''input'', ''inquiry'', ''insane'', ''insect'', ''inside'', ''inspire'', ''install'',
    ''intact'', ''interest'', ''into'', ''invest'', ''invite'', ''involve'', ''iron'', ''island'', ''isolate'', ''issue'', ''item'',
    ''ivory'']"

definition words_j :: "string list" where
  "words_j = [
    ''jacket'', ''jaguar'', ''jar'', ''jazz'', ''jealous'', ''jeans'', ''jelly'', ''jewel'', ''job'', ''join'', ''joke'', ''journey'',
    ''joy'', ''judge'', ''juice'', ''jump'', ''jungle'', ''junior'', ''junk'', ''just'']"

definition words_k :: "string list" where
  "words_k = [
    ''kangaroo'', ''keen'', ''keep'', ''ketchup'', ''key'', ''kick'', ''kid'', ''kidney'', ''kind'', ''kingdom'', ''kiss'', ''kit'',
    ''kitchen'', ''kite'', ''kitten'', ''kiwi'', ''knee'', ''knife'', ''knock'', ''know'']"

definition words_l :: "string list" where
  "words_l = [
    ''lab'', ''label'', ''labor'', ''ladder'', ''lady'', ''lake'', ''lamp'', ''language'', ''laptop'', ''large'', ''later'', ''latin'',
    ''laugh'', ''laundry'', ''lava'', ''law'', ''lawn'', ''lawsuit'', ''layer'', ''lazy'', ''leader'', ''leaf'', ''learn'', ''leave'',
    ''lecture'', ''left'', ''leg'', ''legal'', ''legend'', ''leisure'', ''lemon'', ''lend'', ''length'', ''lens'', ''leopard'',
    ''lesson'', ''letter'', ''level'', ''liar'', ''liberty'', ''library'', ''license'', ''life'', ''lift'', ''light'', ''like'', ''limb'',
    ''limit'', ''link'', ''lion'', ''liquid'', ''list'', ''little'', ''live'', ''lizard'', ''load'', ''loan'', ''lobster'', ''local'',
    ''lock'', ''logic'', ''lonely'', ''long'', ''loop'', ''lottery'', ''loud'', ''lounge'', ''love'', ''loyal'', ''lucky'', ''luggage'',
    ''lumber'', ''lunar'', ''lunch'', ''luxury'', ''lyrics'']"

definition words_m :: "string list" where
  "words_m = [
    ''machine'', ''mad'', ''magic'', ''magnet'', ''maid'', ''mail'', ''main'', ''major'', ''make'', ''mammal'', ''man'', ''manage'',
    ''mandate'', ''mango'', ''mansion'', ''manual'', ''maple'', ''marble'', ''march'', ''margin'', ''marine'', ''market'', ''marriage'',
    ''mask'', ''mass'', ''master'', ''match'', ''material'', ''math'', ''matrix'', ''matter'', ''maximum'', ''maze'', ''meadow'',
    ''mean'', ''measure'', ''meat'', ''mechanic'', ''medal'', ''media'', ''melody'', ''melt'', ''member'', ''memory'', ''mention'',
    ''menu'', ''mercy'', ''merge'', ''merit'', ''merry'', ''mesh'', ''message'', ''metal'', ''method'', ''middle'', ''midnight'',
    ''milk'', ''million'', ''mimic'', ''mind'', ''minimum'', ''minor'', ''minute'', ''miracle'', ''mirror'', ''misery'', ''miss'',
    ''mistake'', ''mix'', ''mixed'', ''mixture'', ''mobile'', ''model'', ''modify'', ''mom'', ''moment'', ''monitor'', ''monkey'',
    ''monster'', ''month'', ''moon'', ''moral'', ''more'', ''morning'', ''mosquito'', ''mother'', ''motion'', ''motor'', ''mountain'',
    ''mouse'', ''move'', ''movie'', ''much'', ''muffin'', ''mule'', ''multiply'', ''muscle'', ''museum'', ''mushroom'', ''music'',
    ''must'', ''mutual'', ''myself'', ''mystery'', ''myth'']"

definition words_n :: "string list" where
  "words_n = [
    ''naive'', ''name'', ''napkin'', ''narrow'', ''nasty'', ''nation'', ''nature'', ''near'', ''neck'', ''need'', ''negative'',
    ''neglect'', ''neither'', ''nephew'', ''nerve'', ''nest'', ''net'', ''network'', ''neutral'', ''never'', ''news'', ''next'', ''nice'',
    ''night'', ''noble'', ''noise'', ''nominee'', ''noodle'', ''normal'', ''north'', ''nose'', ''notable'', ''note'', ''nothing'',
    ''notice'', ''novel'', ''now'', ''nuclear'', ''number'', ''nurse'', ''nut'']"

definition words_o :: "string list" where
  "words_o = [
    ''oak'', ''obey'', ''object'', ''oblige'', ''obscure'', ''observe'', ''obtain'', ''obvious'', ''occur'', ''ocean'', ''october'',
    ''odor'', ''off'', ''offer'', ''office'', ''often'', ''oil'', ''okay'', ''old'', ''olive'', ''olympic'', ''omit'', ''once'', ''one'',
    ''onion'', ''online'', ''only'', ''open'', ''opera'', ''opinion'', ''oppose'', ''option'', ''orange'', ''orbit'', ''orchard'',
    ''order'', ''ordinary'', ''organ'', ''orient'', ''original'', ''orphan'', ''ostrich'', ''other'', ''outdoor'', ''outer'', ''output'',
    ''outside'', ''oval'', ''oven'', ''over'', ''own'', ''owner'', ''oxygen'', ''oyster'', ''ozone'']"

definition words_p :: "string list" where
  "words_p = [
    ''pact'', ''paddle'', ''page'', ''pair'', ''palace'', ''palm'', ''panda'', ''panel'', ''panic'', ''panther'', ''paper'', ''parade'',
    ''parent'', ''park'', ''parrot'', ''party'', ''pass'', ''patch'', ''path'', ''patient'', ''patrol'', ''pattern'', ''pause'', ''pave'',
    ''payment'', ''peace'', ''peanut'', ''pear'', ''peasant'', ''pelican'', ''pen'', ''penalty'', ''pencil'', ''people'', ''pepper'',
    ''perfect'', ''permit'', ''person'', ''pet'', ''phone'', ''photo'', ''phrase'', ''physical'', ''piano'', ''picnic'', ''picture'',
    ''piece'', ''pig'', ''pigeon'', ''pill'', ''pilot'', ''pink'', ''pioneer'', ''pipe'', ''pistol'', ''pitch'', ''pizza'', ''place'',
    ''planet'', ''plastic'', ''plate'', ''play'', ''please'', ''pledge'', ''pluck'', ''plug'', ''plunge'', ''poem'', ''poet'', ''point'',
    ''polar'', ''pole'', ''police'', ''pond'', ''pony'', ''pool'', ''popular'', ''portion'', ''position'', ''possible'', ''post'',
    ''potato'', ''pottery'', ''poverty'', ''powder'', ''power'', ''practice'', ''praise'', ''predict'', ''prefer'', ''prepare'',
    ''present'', ''pretty'', ''prevent'', ''price'', ''pride'', ''primary'', ''print'', ''priority'', ''prison'', ''private'', ''prize'',
    ''problem'', ''process'', ''produce'', ''profit'', ''program'', ''project'', ''promote'', ''proof'', ''property'', ''prosper'',
    ''protect'', ''proud'', ''provide'', ''public'', ''pudding'', ''pull'', ''pulp'', ''pulse'', ''pumpkin'', ''punch'', ''pupil'',
    ''puppy'', ''purchase'', ''purity'', ''purpose'', ''purse'', ''push'', ''put'', ''puzzle'', ''pyramid'']"

definition words_q :: "string list" where
  "words_q = [
    ''quality'', ''quantum'', ''quarter'', ''question'', ''quick'', ''quit'', ''quiz'', ''quote'']"

definition words_r :: "string list" where
  "words_r = [
    ''rabbit'', ''raccoon'', ''race'', ''rack'', ''radar'', ''radio'', ''rail'', ''rain'', ''raise'', ''rally'', ''ramp'', ''ranch'',
    ''random'', ''range'', ''rapid'', ''rare'', ''rate'', ''rather'', ''raven'', ''raw'', ''razor'', ''ready'', ''real'', ''reason'',
    ''rebel'', ''rebuild'', ''recall'', ''receive'', ''recipe'', ''record'', ''recycle'', ''reduce'', ''reflect'', ''reform'', ''refuse'',
    ''region'', ''regret'', ''regular'', ''reject'', ''relax'', ''release'', ''relief'', ''rely'', ''remain'', ''remember'', ''remind'',
    ''remove'', ''render'', ''renew'', ''rent'', ''reopen'', ''repair'', ''repeat'', ''replace'', ''report'', ''require'', ''rescue'',
    ''resemble'', ''resist'', ''resource'', ''response'', ''result'', ''retire'', ''retreat'', ''return'', ''reunion'', ''reveal'',
    ''review'', ''reward'', ''rhythm'', ''rib'', ''ribbon'', ''rice'', ''rich'', ''ride'', ''ridge'', ''rifle'', ''right'', ''rigid'',
    ''ring'', ''riot'', ''ripple'', ''risk'', ''ritual'', ''rival'', ''river'', ''road'', ''roast'', ''robot'', ''robust'', ''rocket'',
    ''romance'', ''roof'', ''rookie'', ''room'', ''rose'', ''rotate'', ''rough'', ''round'', ''route'', ''royal'', ''rubber'', ''rude'',
    ''rug'', ''rule'', ''run'', ''runway'', ''rural'']"

definition words_s :: "string list" where
  "words_s = [
    ''sad'', ''saddle'', ''sadness'', ''safe'', ''sail'', ''salad'', ''salmon'', ''salon'', ''salt'', ''salute'', ''same'', ''sample'',
    ''sand'', ''satisfy'', ''satoshi'', ''sauce'', ''sausage'', ''save'', ''say'', ''scale'', ''scan'', ''scare'', ''scatter'', ''scene'',
    ''scheme'', ''school'', ''science'', ''scissors'', ''scorpion'', ''scout'', ''scrap'', ''screen'', ''script'', ''scrub'', ''sea'',
    ''search'', ''season'', ''seat'', ''second'', ''secret'', ''section'', ''security'', ''seed'', ''seek'', ''segment'', ''select'',
    ''sell'', ''seminar'', ''senior'', ''sense'', ''sentence'', ''series'', ''service'', ''session'', ''settle'', ''setup'', ''seven'',
    ''shadow'', ''shaft'', ''shallow'', ''share'', ''shed'', ''shell'', ''sheriff'', ''shield'', ''shift'', ''shine'', ''ship'',
    ''shiver'', ''shock'', ''shoe'', ''shoot'', ''shop'', ''short'', ''shoulder'', ''shove'', ''shrimp'', ''shrug'', ''shuffle'', ''shy'',
    ''sibling'', ''sick'', ''side'', ''siege'', ''sight'', ''sign'', ''silent'', ''silk'', ''silly'', ''silver'', ''similar'', ''simple'',
    ''since'', ''sing'', ''siren'', ''sister'', ''situate'', ''six'', ''size'', ''skate'', ''sketch'', ''ski'', ''skill'', ''skin'',
    ''skirt'', ''skull'', ''slab'', ''slam'', ''sleep'', ''slender'', ''slice'', ''slide'', ''slight'', ''slim'', ''slogan'', ''slot'',
    ''slow'', ''slush'', ''small'', ''smart'', ''smile'', ''smoke'', ''smooth'', ''snack'', ''snake'', ''snap'', ''sniff'', ''snow'',
    ''soap'', ''soccer'', ''social'', ''sock'', ''soda'', ''soft'', ''solar'', ''soldier'', ''solid'', ''solution'', ''solve'',
    ''someone'', ''song'', ''soon'', ''sorry'', ''sort'', ''soul'', ''sound'', ''soup'', ''source'', ''south'', ''space'', ''spare'',
    ''spatial'', ''spawn'', ''speak'', ''special'', ''speed'', ''spell'', ''spend'', ''sphere'', ''spice'', ''spider'', ''spike'',
    ''spin'', ''spirit'', ''split'', ''spoil'', ''sponsor'', ''spoon'', ''sport'', ''spot'', ''spray'', ''spread'', ''spring'', ''spy'',
    ''square'', ''squeeze'', ''squirrel'', ''stable'', ''stadium'', ''staff'', ''stage'', ''stairs'', ''stamp'', ''stand'', ''start'',
    ''state'', ''stay'', ''steak'', ''steel'', ''stem'', ''step'', ''stereo'', ''stick'', ''still'', ''sting'', ''stock'', ''stomach'',
    ''stone'', ''stool'', ''story'', ''stove'', ''strategy'', ''street'', ''strike'', ''strong'', ''struggle'', ''student'', ''stuff'',
    ''stumble'', ''style'', ''subject'', ''submit'', ''subway'', ''success'', ''such'', ''sudden'', ''suffer'', ''sugar'', ''suggest'',
    ''suit'', ''summer'', ''sun'', ''sunny'', ''sunset'', ''super'', ''supply'', ''supreme'', ''sure'', ''surface'', ''surge'',
    ''surprise'', ''surround'', ''survey'', ''suspect'', ''sustain'', ''swallow'', ''swamp'', ''swap'', ''swarm'', ''swear'', ''sweet'',
    ''swift'', ''swim'', ''swing'', ''switch'', ''sword'', ''symbol'', ''symptom'', ''syrup'', ''system'']"

definition words_t :: "string list" where
  "words_t = [
    ''table'', ''tackle'', ''tag'', ''tail'', ''talent'', ''talk'', ''tank'', ''tape'', ''target'', ''task'', ''taste'', ''tattoo'',
    ''taxi'', ''teach'', ''team'', ''tell'', ''ten'', ''tenant'', ''tennis'', ''tent'', ''term'', ''test'', ''text'', ''thank'', ''that'',
    ''theme'', ''then'', ''theory'', ''there'', ''they'', ''thing'', ''this'', ''thought'', ''three'', ''thrive'', ''throw'', ''thumb'',
    ''thunder'', ''ticket'', ''tide'', ''tiger'', ''tilt'', ''timber'', ''time'', ''tiny'', ''tip'', ''tired'', ''tissue'', ''title'',
    ''toast'', ''tobacco'', ''today'', ''toddler'', ''toe'', ''together'', ''toilet'', ''token'', ''tomato'', ''tomorrow'', ''tone'',
    ''tongue'', ''tonight'', ''tool'', ''tooth'', ''top'', ''topic'', ''topple'', ''torch'', ''tornado'', ''tortoise'', ''toss'',
    ''total'', ''tourist'', ''toward'', ''tower'', ''town'', ''toy'', ''track'', ''trade'', ''traffic'', ''tragic'', ''train'',
    ''transfer'', ''trap'', ''trash'', ''travel'', ''tray'', ''treat'', ''tree'', ''trend'', ''trial'', ''tribe'', ''trick'', ''trigger'',
    ''trim'', ''trip'', ''trophy'', ''trouble'', ''truck'', ''true'', ''truly'', ''trumpet'', ''trust'', ''truth'', ''try'', ''tube'',
    ''tuition'', ''tumble'', ''tuna'', ''tunnel'', ''turkey'', ''turn'', ''turtle'', ''twelve'', ''twenty'', ''twice'', ''twin'',
    ''twist'', ''two'', ''type'', ''typical'']"

definition words_u :: "string list" where
  "words_u = [
    ''ugly'', ''umbrella'', ''unable'', ''unaware'', ''uncle'', ''uncover'', ''under'', ''undo'', ''unfair'', ''unfold'', ''unhappy'',
    ''uniform'', ''unique'', ''unit'', ''universe'', ''unknown'', ''unlock'', ''until'', ''unusual'', ''unveil'', ''update'', ''upgrade'',
    ''uphold'', ''upon'', ''upper'', ''upset'', ''urban'', ''urge'', ''usage'', ''use'', ''used'', ''useful'', ''useless'', ''usual'',
    ''utility'']"

definition words_v :: "string list" where
  "words_v = [
    ''vacant'', ''vacuum'', ''vague'', ''valid'', ''valley'', ''valve'', ''van'', ''vanish'', ''vapor'', ''various'', ''vast'', ''vault'',
    ''vehicle'', ''velvet'', ''vendor'', ''venture'', ''venue'', ''verb'', ''verify'', ''version'', ''very'', ''vessel'', ''veteran'',
    ''viable'', ''vibrant'', ''vicious'', ''victory'', ''video'', ''view'', ''village'', ''vintage'', ''violin'', ''virtual'', ''virus'',
    ''visa'', ''visit'', ''visual'', ''vital'', ''vivid'', ''vocal'', ''voice'', ''void'', ''volcano'', ''volume'', ''vote'', ''voyage'']"

definition words_w :: "string list" where
  "words_w = [
    ''wage'', ''wagon'', ''wait'', ''walk'', ''wall'', ''walnut'', ''want'', ''warfare'', ''warm'', ''warrior'', ''wash'', ''wasp'',
    ''waste'', ''water'', ''wave'', ''way'', ''wealth'', ''weapon'', ''wear'', ''weasel'', ''weather'', ''web'', ''wedding'', ''weekend'',
    ''weird'', ''welcome'', ''west'', ''wet'', ''whale'', ''what'', ''wheat'', ''wheel'', ''when'', ''where'', ''whip'', ''whisper'',
    ''wide'', ''width'', ''wife'', ''wild'', ''will'', ''win'', ''window'', ''wine'', ''wing'', ''wink'', ''winner'', ''winter'',
    ''wire'', ''wisdom'', ''wise'', ''wish'', ''witness'', ''wolf'', ''woman'', ''wonder'', ''wood'', ''wool'', ''word'', ''work'',
    ''world'', ''worry'', ''worth'', ''wrap'', ''wreck'', ''wrestle'', ''wrist'', ''write'', ''wrong'']"

definition words_y :: "string list" where
  "words_y = [
    ''yard'', ''year'', ''yellow'', ''you'', ''young'', ''youth'']"

definition words_z :: "string list" where
  "words_z = [
    ''zebra'', ''zero'', ''zone'', ''zoo'']"

definition WORDLIST :: "string list" where
  "WORDLIST = concat [words_a, words_b, words_c, words_d, words_e, words_f, words_g, words_h, words_i, words_j, words_k, words_l, words_m, words_n, words_o, words_p, words_q, words_r, words_s, words_t, words_u, words_v, words_w, words_y, words_z]"

section \<open>Lemmas\<close>

text \<open>The order of the characters, bit by bit from the highest.\<close>

fun bitsLess :: "bool list \<Rightarrow> bool list \<Rightarrow> bool" where
  "bitsLess (a # as) (b # bs) = (if a = b then bitsLess as bs else b)"
| "bitsLess _ _ = False"

fun charLess :: "char \<Rightarrow> char \<Rightarrow> bool" where
  "charLess (Char a0 a1 a2 a3 a4 a5 a6 a7) (Char b0 b1 b2 b3 b4 b5 b6 b7) =
    bitsLess [a7, a6, a5, a4, a3, a2, a1, a0] [b7, b6, b5, b4, b3, b2, b1, b0]"

fun wordLess :: "string \<Rightarrow> string \<Rightarrow> bool" where
  "wordLess [] [] = False"
| "wordLess [] (d # ds) = True"
| "wordLess (c # cs) [] = False"
| "wordLess (c # cs) (d # ds) = (if c = d then wordLess cs ds else charLess c d)"

fun ascending :: "string list \<Rightarrow> bool" where
  "ascending [] = True"
| "ascending [w] = True"
| "ascending (v # w # ws) = (wordLess v w \<and> ascending (w # ws))"

text \<open>What is evaluated on a part: its words are ascending, lower case and begin with its letter.\<close>

definition isLetter :: "char \<Rightarrow> bool" where
  "isLetter c = (c \<in> set ''abcdefghijklmnopqrstuvwxyz'')"

definition letterPart :: "char \<Rightarrow> string list \<Rightarrow> bool" where
  "letterPart l ws = (ascending ws \<and> list_all (\<lambda>w. list_all isLetter w) ws \<and> list_all (\<lambda>w. w \<noteq> [] \<and> hd w = l) ws)"

lemma words_a_part: "letterPart (CHR ''a'') words_a \<and> length words_a = 136"
  unfolding words_a_def letterPart_def by (intro conjI; code_simp)

lemma words_b_part: "letterPart (CHR ''b'') words_b \<and> length words_b = 117"
  unfolding words_b_def letterPart_def by (intro conjI; code_simp)

lemma words_c_part: "letterPart (CHR ''c'') words_c \<and> length words_c = 186"
  unfolding words_c_def letterPart_def by (intro conjI; code_simp)

lemma words_d_part: "letterPart (CHR ''d'') words_d \<and> length words_d = 112"
  unfolding words_d_def letterPart_def by (intro conjI; code_simp)

lemma words_e_part: "letterPart (CHR ''e'') words_e \<and> length words_e = 100"
  unfolding words_e_def letterPart_def by (intro conjI; code_simp)

lemma words_f_part: "letterPart (CHR ''f'') words_f \<and> length words_f = 106"
  unfolding words_f_def letterPart_def by (intro conjI; code_simp)

lemma words_g_part: "letterPart (CHR ''g'') words_g \<and> length words_g = 76"
  unfolding words_g_def letterPart_def by (intro conjI; code_simp)

lemma words_h_part: "letterPart (CHR ''h'') words_h \<and> length words_h = 64"
  unfolding words_h_def letterPart_def by (intro conjI; code_simp)

lemma words_i_part: "letterPart (CHR ''i'') words_i \<and> length words_i = 55"
  unfolding words_i_def letterPart_def by (intro conjI; code_simp)

lemma words_j_part: "letterPart (CHR ''j'') words_j \<and> length words_j = 20"
  unfolding words_j_def letterPart_def by (intro conjI; code_simp)

lemma words_k_part: "letterPart (CHR ''k'') words_k \<and> length words_k = 20"
  unfolding words_k_def letterPart_def by (intro conjI; code_simp)

lemma words_l_part: "letterPart (CHR ''l'') words_l \<and> length words_l = 76"
  unfolding words_l_def letterPart_def by (intro conjI; code_simp)

lemma words_m_part: "letterPart (CHR ''m'') words_m \<and> length words_m = 105"
  unfolding words_m_def letterPart_def by (intro conjI; code_simp)

lemma words_n_part: "letterPart (CHR ''n'') words_n \<and> length words_n = 41"
  unfolding words_n_def letterPart_def by (intro conjI; code_simp)

lemma words_o_part: "letterPart (CHR ''o'') words_o \<and> length words_o = 55"
  unfolding words_o_def letterPart_def by (intro conjI; code_simp)

lemma words_p_part: "letterPart (CHR ''p'') words_p \<and> length words_p = 132"
  unfolding words_p_def letterPart_def by (intro conjI; code_simp)

lemma words_q_part: "letterPart (CHR ''q'') words_q \<and> length words_q = 8"
  unfolding words_q_def letterPart_def by (intro conjI; code_simp)

lemma words_r_part: "letterPart (CHR ''r'') words_r \<and> length words_r = 108"
  unfolding words_r_def letterPart_def by (intro conjI; code_simp)

lemma words_s_part: "letterPart (CHR ''s'') words_s \<and> length words_s = 250"
  unfolding words_s_def letterPart_def by (intro conjI; code_simp)

lemma words_t_part: "letterPart (CHR ''t'') words_t \<and> length words_t = 121"
  unfolding words_t_def letterPart_def by (intro conjI; code_simp)

lemma words_u_part: "letterPart (CHR ''u'') words_u \<and> length words_u = 35"
  unfolding words_u_def letterPart_def by (intro conjI; code_simp)

lemma words_v_part: "letterPart (CHR ''v'') words_v \<and> length words_v = 46"
  unfolding words_v_def letterPart_def by (intro conjI; code_simp)

lemma words_w_part: "letterPart (CHR ''w'') words_w \<and> length words_w = 69"
  unfolding words_w_def letterPart_def by (intro conjI; code_simp)

lemma words_y_part: "letterPart (CHR ''y'') words_y \<and> length words_y = 6"
  unfolding words_y_def letterPart_def by (intro conjI; code_simp)

lemma words_z_part: "letterPart (CHR ''z'') words_z \<and> length words_z = 4"
  unfolding words_z_def letterPart_def by (intro conjI; code_simp)

lemma bitsLess_irrefl: "\<not> bitsLess a a"
  by (induction a) simp_all

lemma bitsLess_trans: "bitsLess a b \<Longrightarrow> bitsLess b c \<Longrightarrow> bitsLess a c"
  by (induction a b arbitrary: c rule: bitsLess.induct) (case_tac c; auto split: if_splits)+

lemma charLess_irrefl: "\<not> charLess c c"
  by (cases c) (simp add: bitsLess_irrefl del: bitsLess.simps)

lemma charLess_trans: "charLess c d \<Longrightarrow> charLess d e \<Longrightarrow> charLess c e"
  by (cases c; cases d; cases e) (simp only: charLess.simps, erule (1) bitsLess_trans)

lemma wordLess_irrefl: "\<not> wordLess w w"
  by (induction w) simp_all

lemma wordLess_trans: "wordLess u v \<Longrightarrow> wordLess v w \<Longrightarrow> wordLess u w"
proof (induction u v arbitrary: w rule: wordLess.induct)
  case (2 d ds)
  then show ?case by (cases w) auto
next
  case (4 c cs d ds)
  then show ?case using charLess_trans charLess_irrefl by (cases w) (auto split: if_splits)
qed auto

lemma ascending_Cons: "ascending (v # ws) \<Longrightarrow> w \<in> set ws \<Longrightarrow> wordLess v w"
proof (induction ws arbitrary: v)
  case (Cons u ws)
  then show ?case using wordLess_trans by auto
qed simp

lemma ascending_distinct: "ascending ws \<Longrightarrow> distinct ws"
proof (induction ws)
  case (Cons v ws)
  have "ascending ws" using Cons.prems by (cases ws) auto
  then show ?case using Cons ascending_Cons wordLess_irrefl by auto
qed simp

lemma letterPart_distinct: "letterPart l ws \<Longrightarrow> distinct ws"
  by (simp add: letterPart_def ascending_distinct)

lemma letter_parts_words:
  "list_all2 letterPart ls parts \<Longrightarrow> w \<in> set (concat parts) \<Longrightarrow> w \<noteq> [] \<and> hd w \<in> set ls \<and> list_all isLetter w"
  by (induction ls parts rule: list_all2_induct) (auto simp: letterPart_def list_all_iff)

lemma distinct_letter_parts:
  "list_all2 letterPart ls parts \<Longrightarrow> distinct ls \<Longrightarrow> distinct (concat parts)"
proof (induction ls parts rule: list_all2_induct)
  case (Cons l ls ws parts)
  have "hd w \<in> set ls" if "w \<in> set (concat parts)" for w using letter_parts_words [OF Cons.hyps(2) that] by simp
  then have "set ws \<inter> set (concat parts) = {}"
    using Cons.hyps(1) Cons.prems by (fastforce simp: letterPart_def list_all_iff)
  then show ?case using Cons letterPart_distinct by auto
qed simp

lemma WORDLIST_parts: "list_all2 letterPart ''abcdefghijklmnopqrstuvwyz'' [words_a, words_b, words_c, words_d, words_e, words_f, words_g, words_h, words_i, words_j, words_k, words_l, words_m, words_n, words_o, words_p, words_q, words_r, words_s, words_t, words_u, words_v, words_w, words_y, words_z]"
  by (simp add: words_a_part words_b_part words_c_part words_d_part words_e_part words_f_part words_g_part words_h_part words_i_part words_j_part words_k_part words_l_part words_m_part words_n_part words_o_part words_p_part words_q_part words_r_part words_s_part words_t_part words_u_part words_v_part words_w_part words_y_part words_z_part)

lemma length_WORDLIST: "length WORDLIST = 2048"
  by (simp add: WORDLIST_def words_a_part words_b_part words_c_part words_d_part words_e_part words_f_part words_g_part words_h_part words_i_part words_j_part words_k_part words_l_part words_m_part words_n_part words_o_part words_p_part words_q_part words_r_part words_s_part words_t_part words_u_part words_v_part words_w_part words_y_part words_z_part)

lemma distinct_WORDLIST: "distinct WORDLIST"
  unfolding WORDLIST_def by (rule distinct_letter_parts [OF WORDLIST_parts]) simp

lemma WORDLIST_words: "w \<in> set WORDLIST \<Longrightarrow> w \<noteq> [] \<and> list_all isLetter w"
  unfolding WORDLIST_def using letter_parts_words [OF WORDLIST_parts] by blast

end
