(* ===== verification/Mnemonic.thy ===== *)
theory Mnemonic
  imports Wordlist Sha256
begin

text \<open>
  BIP39 phrases, the first part of \<^verbatim>\<open>contrib/uap-web/wallet.js\<close>: \<^verbatim>\<open>calculateBIP39Checksum\<close>,
  \<^verbatim>\<open>entropyToMnemonic\<close>, \<^verbatim>\<open>mnemonicToEntropy\<close> and the bit-string helpers. A string of \<^verbatim>\<open>0\<close> and \<^verbatim>\<open>1\<close> is a
  list of truth values.

  Shows that a phrase made from entropy is accepted and gives the entropy back, that an accepted
  phrase is the one made from its entropy up to white space, and hence that a phrase with a wrong
  checksum is refused.
\<close>

section \<open>Model\<close>

text \<open>\<^verbatim>\<open>n.toString(2).padStart(k, '0')\<close> for a number below \<open>2 ^ k\<close>, and \<^verbatim>\<open>parseInt(s, 2)\<close>.\<close>

fun natBits :: "nat \<Rightarrow> nat \<Rightarrow> bool list" where
  "natBits 0 n = []"
| "natBits (Suc k) n = natBits k (n div 2) @ [odd n]"

definition parseBits :: "bool list \<Rightarrow> nat" where
  "parseBits bs = foldl (\<lambda>a b. 2 * a + of_bool b) 0 bs"

definition entropyToBits :: "bytes \<Rightarrow> bool list" where
  "entropyToBits entropy = concat (map (\<lambda>b. natBits 8 (unat b)) entropy)"

definition checksumToBits :: "bytes \<Rightarrow> bool list" where
  "checksumToBits checksum = concat (map (\<lambda>b. natBits 8 (unat b)) checksum)"

text \<open>The loop \<^verbatim>\<open>for (let i = 0; i < bits.length; i += k)\<close> over \<^verbatim>\<open>substring(i, i + k)\<close>.\<close>

function bitChunks :: "nat \<Rightarrow> bool list \<Rightarrow> bool list list" where
  "bitChunks k bs = (if bs = [] \<or> k = 0 then [] else take k bs # bitChunks k (drop k bs))"
  by pat_completeness auto
termination
  by (relation "measure (\<lambda>(k, bs). length bs)") auto

declare bitChunks.simps [simp del]

definition bitsToEntropy :: "bool list \<Rightarrow> bytes" where
  "bitsToEntropy bits = map (\<lambda>c. of_nat (parseBits c)) (bitChunks 8 bits)"

text \<open>The bits of the checksum and their number: a bit for every 32 bits of entropy, a multiple of four bytes.\<close>

definition calculateBIP39Checksum :: "bytes \<Rightarrow> bytes \<times> nat" where
  "calculateBIP39Checksum entropy =
    (let checksumBits = length entropy * 8 div 32; checksumBytes = (checksumBits + 7) div 8
     in (take checksumBytes (sha256 entropy), checksumBits))"

definition joinWords :: "string list \<Rightarrow> string" where
  "joinWords ws = (case ws of [] \<Rightarrow> [] | w # rest \<Rightarrow> w @ concat (map (\<lambda>v. CHR '' '' # v) rest))"

definition entropyToMnemonic :: "bytes \<Rightarrow> string" where
  "entropyToMnemonic entropy =
    (let (cbytes, cbits) = calculateBIP39Checksum entropy;
         checksumBits = take cbits (checksumToBits cbytes);
         bits = entropyToBits entropy @ checksumBits;
         mnemonicIndices = map parseBits (bitChunks 11 bits)
     in joinWords (map (\<lambda>i. WORDLIST ! i) mnemonicIndices))"

text \<open>\<^verbatim>\<open>s.split(/\s+/)\<close> on a trimmed string: maximal runs of other characters; the empty string is one empty word.\<close>

function wordRuns :: "string \<Rightarrow> string list" where
  "wordRuns s =
    (let w = takeWhile (\<lambda>c. \<not> isSpace c) s; r = dropWhile (\<lambda>c. \<not> isSpace c) s
     in if r = [] then [w] else w # wordRuns (dropWhile isSpace r))"
  by pat_completeness auto
termination
proof (relation "measure length")
  fix s w r :: string
  assume "r = dropWhile (\<lambda>c. \<not> isSpace c) s" "r \<noteq> []"
  then have "isSpace (hd r)" using hd_dropWhile [of "\<lambda>c. \<not> isSpace c" s] by auto
  then have "length (dropWhile isSpace r) < length r" using \<open>r \<noteq> []\<close> length_dropWhile_le [of isSpace "tl r"] by (cases r) auto
  moreover have "length r \<le> length s" using \<open>r = dropWhile (\<lambda>c. \<not> isSpace c) s\<close> length_dropWhile_le by metis
  ultimately show "(dropWhile isSpace r, s) \<in> measure length" by simp
qed simp

declare wordRuns.simps [simp del]

definition indexOf :: "string \<Rightarrow> nat option" where
  "indexOf w = find (\<lambda>i. WORDLIST ! i = w) [0..<length WORDLIST]"

definition mnemonicToEntropy :: "string \<Rightarrow> bytes result" where
  "mnemonicToEntropy mnemonic =
    (let words = wordRuns (trim mnemonic) in
     if length words \<noteq> 12 \<and> length words \<noteq> 24 then Inl ''Mnemonic must be 12 or 24 words''
     else
       bindR (mapM (\<lambda>w. case indexOf w of None \<Rightarrow> Inl ''invalid word: '' | Some i \<Rightarrow> Inr i) words) (\<lambda>indices.
       let bits = concat (map (natBits 11) indices);
           entropyBits = (if length words = 12 then 128 else 256);
           entropy = bitsToEntropy (take entropyBits bits);
           (cbytes, cbits) = calculateBIP39Checksum entropy
       in if drop entropyBits bits \<noteq> take cbits (checksumToBits cbytes) then Inl ''BIP39 checksum validation failed''
          else Inr entropy))"

section \<open>Lemmas: bits\<close>

lemma length_natBits [simp]: "length (natBits k n) = k"
  by (induction k arbitrary: n) simp_all

lemma parseBits_snoc: "parseBits (bs @ [b]) = 2 * parseBits bs + of_bool b"
  by (simp add: parseBits_def)

lemma parseBits_natBits: "n < 2 ^ k \<Longrightarrow> parseBits (natBits k n) = n"
proof (induction k arbitrary: n)
  case (Suc k)
  then have "parseBits (natBits k (n div 2)) = n div 2" by simp
  then show ?case by (simp add: parseBits_snoc)
qed (simp add: parseBits_def)

lemma parseBits_less: "parseBits bs < 2 ^ length bs"
  by (induction bs rule: rev_induct) (auto simp: parseBits_snoc parseBits_def)

lemma natBits_parseBits: "natBits (length bs) (parseBits bs) = bs"
proof (induction bs rule: rev_induct)
  case (snoc b bs)
  have "(2 * parseBits bs + of_bool b) div 2 = parseBits bs" "odd (2 * parseBits bs + of_bool b) = b" by simp_all
  with snoc show ?case by (simp add: parseBits_snoc)
qed simp

lemma bitChunks_append: "length c = k \<Longrightarrow> 0 < k \<Longrightarrow> bitChunks k (c @ bs) = c # bitChunks k bs"
  by (subst bitChunks.simps) auto

lemma bitChunks_concat: "0 < k \<Longrightarrow> \<forall>c\<in>set cs. length c = k \<Longrightarrow> bitChunks k (concat cs) = cs"
  by (induction cs) (simp_all add: bitChunks_append, simp add: bitChunks.simps)

lemma concat_bitChunks: "0 < k \<Longrightarrow> concat (bitChunks k bs) = bs"
  by (induction k bs rule: bitChunks.induct) (subst bitChunks.simps, auto)

lemma bitChunks_length:
  "0 < k \<Longrightarrow> length bs = m * k \<Longrightarrow> length (bitChunks k bs) = m \<and> (\<forall>c\<in>set (bitChunks k bs). length c = k)"
proof (induction m arbitrary: bs)
  case (Suc m)
  have "bs \<noteq> []" using Suc.prems by auto
  moreover have "length (drop k bs) = m * k" using Suc.prems by simp
  ultimately show ?case using Suc.IH [of "drop k bs"] Suc.prems by (subst (1 2) bitChunks.simps) auto
qed (simp add: bitChunks.simps)

lemma length_entropyToBits [simp]: "length (entropyToBits e) = 8 * length e"
  by (induction e) (simp_all add: entropyToBits_def)

lemma bitsToEntropy_entropyToBits: "bitsToEntropy (entropyToBits e) = e"
proof -
  have "bitChunks 8 (entropyToBits e) = map (\<lambda>b. natBits 8 (unat b)) e" unfolding entropyToBits_def by (rule bitChunks_concat) auto
  moreover have "parseBits (natBits 8 (unat b)) = unat b" for b :: byte using unat_byte_less [of b] by (intro parseBits_natBits) simp
  ultimately show ?thesis by (simp add: bitsToEntropy_def comp_def)
qed

lemma entropyToBits_bitsToEntropy:
  assumes "length bs = 8 * m"
  shows "entropyToBits (bitsToEntropy bs) = bs" "length (bitsToEntropy bs) = m"
proof -
  have c: "length (bitChunks 8 bs) = m" "\<forall>c\<in>set (bitChunks 8 bs). length c = 8" using bitChunks_length [of 8 bs m] assms by (simp_all add: mult.commute)
  have "natBits 8 (unat (of_nat (parseBits c) :: byte)) = c" if "c \<in> set (bitChunks 8 bs)" for c
  proof -
    have "length c = 8" using c(2) that by simp
    moreover have "unat (of_nat (parseBits c) :: byte) = parseBits c"
      using parseBits_less [of c] \<open>length c = 8\<close> by (intro unat_of_nat8) simp
    ultimately show ?thesis using natBits_parseBits [of c] by simp
  qed
  then have "map (\<lambda>b. natBits 8 (unat b)) (bitsToEntropy bs) = bitChunks 8 bs" by (simp add: bitsToEntropy_def map_idI)
  then show "entropyToBits (bitsToEntropy bs) = bs" by (simp add: entropyToBits_def concat_bitChunks)
  show "length (bitsToEntropy bs) = m" by (simp add: bitsToEntropy_def c(1))
qed

section \<open>Lemmas: words\<close>

definition isWord :: "string \<Rightarrow> bool" where
  "isWord w = (w \<noteq> [] \<and> list_all (\<lambda>c. \<not> isSpace c) w)"

lemma isLetter_not_isSpace: "isLetter c \<Longrightarrow> \<not> isSpace c"
  by (auto simp: isLetter_def isSpace_def)

lemma WORDLIST_isWord: "i < 2048 \<Longrightarrow> isWord (WORDLIST ! i)"
  using WORDLIST_words [of "WORDLIST ! i"] length_WORDLIST nth_mem [of i WORDLIST]
  by (auto simp: isWord_def list_all_iff isLetter_not_isSpace)

lemma joinWords_Cons: "joinWords (w # v # ws) = w @ CHR '' '' # joinWords (v # ws)"
  by (simp add: joinWords_def)

lemma space_isSpace: "isSpace (CHR '' '')"
  by (simp add: isSpace_def)

lemma isWord_runs:
  assumes "isWord w"
  shows "takeWhile (\<lambda>c. \<not> isSpace c) (w @ r) = w @ takeWhile (\<lambda>c. \<not> isSpace c) r"
    and "dropWhile (\<lambda>c. \<not> isSpace c) (w @ r) = dropWhile (\<lambda>c. \<not> isSpace c) r"
    and "dropWhile isSpace (w @ r) = w @ r"
  using assms by (auto simp: isWord_def list_all_iff dropWhile_append)

lemma joinWords_hd: "isWord w \<Longrightarrow> dropWhile isSpace (joinWords (w # ws)) = joinWords (w # ws)"
  by (simp add: joinWords_def isWord_runs)

lemma wordRuns_joinWords: "ws \<noteq> [] \<Longrightarrow> list_all isWord ws \<Longrightarrow> wordRuns (joinWords ws) = ws"
proof (induction ws rule: list_nonempty_induct)
  case (single w)
  then show ?case using isWord_runs [of w "[]"] by (subst wordRuns.simps) (simp add: joinWords_def Let_def)
next
  case (cons w ws)
  then obtain v vs where ws: "ws = v # vs" by (cases ws) auto
  have "wordRuns (joinWords (w # ws)) = w # wordRuns (dropWhile isSpace (joinWords ws))"
    using cons.prems by (subst wordRuns.simps) (simp add: ws joinWords_Cons isWord_runs space_isSpace Let_def)
  then show ?case using cons ws joinWords_hd [of v vs] by simp
qed

lemma joinWords_rev: "ws \<noteq> [] \<Longrightarrow> list_all isWord ws \<Longrightarrow> \<exists>s c. joinWords ws = s @ [c] \<and> \<not> isSpace c"
proof (induction ws rule: list_nonempty_induct)
  case (single w)
  then show ?case by (cases w rule: rev_cases) (auto simp: joinWords_def isWord_def)
next
  case (cons w ws)
  then obtain v vs where ws: "ws = v # vs" by (cases ws) auto
  from cons obtain s c where "joinWords ws = s @ [c]" "\<not> isSpace c" by auto
  then show ?case by (auto simp: ws joinWords_Cons)
qed

lemma trim_joinWords:
  assumes "ws \<noteq> []" "list_all isWord ws"
  shows "trim (joinWords ws) = joinWords ws"
proof -
  obtain w vs where ws: "ws = w # vs" using assms(1) by (cases ws) auto
  obtain s c where "joinWords ws = s @ [c]" "\<not> isSpace c" using joinWords_rev [OF assms] by auto
  moreover have "dropWhile isSpace (joinWords ws) = joinWords ws" using assms(2) joinWords_hd [of w vs] by (simp add: ws)
  ultimately show ?thesis by (simp add: trim_def)
qed

lemma indexOf_nth: "i < 2048 \<Longrightarrow> indexOf (WORDLIST ! i) = Some i"
  using distinct_WORDLIST by (auto simp: indexOf_def find_Some_iff length_WORDLIST nth_eq_iff_index_eq intro!: exI [of _ i])

lemma indexOf_Some: "indexOf w = Some i \<Longrightarrow> i < 2048 \<and> WORDLIST ! i = w"
  by (auto simp: indexOf_def find_Some_iff length_WORDLIST)

section \<open>Lemmas: phrases\<close>

text \<open>The number of words of a phrase and of bytes of its entropy, and the bits a phrase spells.\<close>

definition phraseBits :: "bytes \<Rightarrow> bool list" where
  "phraseBits entropy = (let (cbytes, cbits) = calculateBIP39Checksum entropy
                         in entropyToBits entropy @ take cbits (checksumToBits cbytes))"

lemma length_checksumToBits [simp]: "length (checksumToBits c) = 8 * length c"
  using length_entropyToBits [of c] by (simp add: checksumToBits_def entropyToBits_def)

lemma length_phraseBits:
  "length e = 16 \<Longrightarrow> length (phraseBits e) = 12 * 11" "length e = 32 \<Longrightarrow> length (phraseBits e) = 24 * 11"
  by (simp_all add: phraseBits_def calculateBIP39Checksum_def Let_def length_sha256)

lemma entropyToMnemonic_bits:
  "entropyToMnemonic e = joinWords (map (\<lambda>c. WORDLIST ! parseBits c) (bitChunks 11 (phraseBits e)))"
  by (simp add: entropyToMnemonic_def phraseBits_def Let_def split_beta comp_def)

lemma chunks_words:
  assumes "length bs = n * 11"
  shows "mapM (\<lambda>w. case indexOf w of None \<Rightarrow> Inl ''invalid word: '' | Some i \<Rightarrow> Inr i)
           (map (\<lambda>c. WORDLIST ! parseBits c) (bitChunks 11 bs)) = Inr (map parseBits (bitChunks 11 bs))"
    and "concat (map (natBits 11) (map parseBits (bitChunks 11 bs))) = bs"
    and "list_all isWord (map (\<lambda>c. WORDLIST ! parseBits c) (bitChunks 11 bs))"
    and "length (bitChunks 11 bs) = n"
proof -
  have c: "length (bitChunks 11 bs) = n" "\<forall>c\<in>set (bitChunks 11 bs). length c = 11" using bitChunks_length [of 11 bs n] assms by simp_all
  have l: "parseBits c < 2048" if "c \<in> set (bitChunks 11 bs)" for c using parseBits_less [of c] c(2) that by simp
  have n: "natBits 11 (parseBits c) = c" if "c \<in> set (bitChunks 11 bs)" for c using natBits_parseBits [of c] c(2) that by simp
  have m: "mapM (\<lambda>w. case indexOf w of None \<Rightarrow> Inl ''invalid word: '' | Some i \<Rightarrow> Inr i) (map (\<lambda>c. WORDLIST ! parseBits c) cs)
      = Inr (map parseBits cs)" if "\<forall>c\<in>set cs. parseBits c < 2048" for cs
    using that by (induction cs) (simp_all add: indexOf_nth)
  show "mapM (\<lambda>w. case indexOf w of None \<Rightarrow> Inl ''invalid word: '' | Some i \<Rightarrow> Inr i)
           (map (\<lambda>c. WORDLIST ! parseBits c) (bitChunks 11 bs)) = Inr (map parseBits (bitChunks 11 bs))" using l by (intro m) blast
  have "map (natBits 11) (map parseBits (bitChunks 11 bs)) = bitChunks 11 bs" using n by (simp add: map_idI)
  then show "concat (map (natBits 11) (map parseBits (bitChunks 11 bs))) = bs" by (simp add: concat_bitChunks)
  show "list_all isWord (map (\<lambda>c. WORDLIST ! parseBits c) (bitChunks 11 bs))" using l WORDLIST_isWord by (simp add: list_all_iff)
qed (use bitChunks_length [of 11 bs n] assms in simp)

lemma mnemonicToEntropy_entropyToMnemonic:
  assumes "length e = 16 \<or> length e = 32"
  shows "mnemonicToEntropy (entropyToMnemonic e) = Inr e"
proof -
  obtain n :: nat where n: "length e = 16 \<and> n = 12 \<or> length e = 32 \<and> n = 24" using assms by auto
  have l: "length (phraseBits e) = n * 11" using n length_phraseBits by auto
  note c = chunks_words [OF l]
  let ?ws = "map (\<lambda>c. WORDLIST ! parseBits c) (bitChunks 11 (phraseBits e))"
  have "?ws \<noteq> []" using c(4) n by auto
  then have w: "wordRuns (trim (entropyToMnemonic e)) = ?ws"
    using c(3) by (simp add: entropyToMnemonic_bits trim_joinWords wordRuns_joinWords)
  have k: "(if n = 12 then 128 else 256) = length (entropyToBits e)" "n = 12 \<or> n = 24" using n by auto
  have p: "take (length (entropyToBits e)) (phraseBits e) = entropyToBits e"
    "drop (length (entropyToBits e)) (phraseBits e)
       = take (snd (calculateBIP39Checksum e)) (checksumToBits (fst (calculateBIP39Checksum e)))"
    by (simp_all add: phraseBits_def split_beta)
  show ?thesis
    unfolding mnemonicToEntropy_def Let_def w c(1)
    using k(2) by (simp only: length_map c(4) bindR_simps c(2) k(1) p bitsToEntropy_entropyToBits) (auto simp: split_beta)
qed

lemma accepted_words:
  assumes "mapM (\<lambda>w. case indexOf w of None \<Rightarrow> Inl ''invalid word: '' | Some i \<Rightarrow> Inr i) ws = Inr is"
  shows "ws = map (\<lambda>i. WORDLIST ! i) is" "list_all (\<lambda>i. i < 2048) is"
proof -
  have "list_all2 (\<lambda>w i. WORDLIST ! i = w \<and> i < 2048) ws is"
    using assms unfolding mapM_eq_Inr by (rule list_all2_mono) (auto split: option.splits dest: indexOf_Some)
  then show "ws = map (\<lambda>i. WORDLIST ! i) is" "list_all (\<lambda>i. i < 2048) is"
    by (induction rule: list_all2_induct) auto
qed

lemma mnemonicToEntropy_canonical:
  assumes "mnemonicToEntropy m = Inr e"
  shows "joinWords (wordRuns (trim m)) = entropyToMnemonic e"
    and "length (wordRuns (trim m)) = 12 \<and> length e = 16 \<or> length (wordRuns (trim m)) = 24 \<and> length e = 32"
proof -
  let ?ws = "wordRuns (trim m)"
  have n: "length ?ws = 12 \<or> length ?ws = 24" using assms by (auto simp: mnemonicToEntropy_def Let_def split: if_splits)
  let ?k = "if length ?ws = 12 then 128 else 256 :: nat"
  obtain "is" where i: "mapM (\<lambda>w. case indexOf w of None \<Rightarrow> Inl ''invalid word: '' | Some i \<Rightarrow> Inr i) ?ws = Inr is"
    using assms n by (auto simp: mnemonicToEntropy_def Let_def bindR_eq_Inr split: if_splits)
  let ?bits = "concat (map (natBits 11) is)"
  have e: "e = bitsToEntropy (take ?k ?bits)"
    "drop ?k ?bits = take (snd (calculateBIP39Checksum e)) (checksumToBits (fst (calculateBIP39Checksum e)))"
    using assms n i by (auto simp: mnemonicToEntropy_def Let_def split_beta split: if_splits)
  have l: "length is = length ?ws" "length ?bits = 11 * length is" using length_mapM [OF i] by (auto simp: length_concat comp_def sum_list_triv)
  have t: "length (take ?k ?bits) = 8 * (?k div 8)" using l n by auto
  note b = entropyToBits_bitsToEntropy [OF t, folded e(1)]
  have "phraseBits e = ?bits" using e(2) b(1) append_take_drop_id [of ?k ?bits] by (simp add: phraseBits_def split_beta)
  moreover have "bitChunks 11 ?bits = map (natBits 11) is" by (rule bitChunks_concat) auto
  moreover have "map (\<lambda>i. WORDLIST ! parseBits (natBits 11 i)) is = map (\<lambda>i. WORDLIST ! i) is"
    using accepted_words(2) [OF i] by (auto simp: list_all_iff parseBits_natBits)
  ultimately show "joinWords ?ws = entropyToMnemonic e" using accepted_words(1) [OF i] by (simp add: entropyToMnemonic_bits comp_def cong: map_cong)
  show "length ?ws = 12 \<and> length e = 16 \<or> length ?ws = 24 \<and> length e = 32" using b(2) n by auto
qed

section \<open>Properties\<close>

text \<open>C18: a phrase made from 16 or 32 bytes of entropy is accepted by \<^verbatim>\<open>mnemonicToEntropy\<close> and gives the same
  bytes back; and whatever phrase is accepted, its words joined by single spaces are the phrase made
  from the entropy it gives, so every accepted phrase has the words and checksum of its entropy, and 12 or 24 words.\<close>

theorem mnemonic_round_trip:
  "(length e = 16 \<or> length e = 32 \<longrightarrow> mnemonicToEntropy (entropyToMnemonic e) = Inr e) \<and>
   (case mnemonicToEntropy m of
      Inl err \<Rightarrow> True
    | Inr d \<Rightarrow> joinWords (wordRuns (trim m)) = entropyToMnemonic d \<and>
        (length (wordRuns (trim m)) = 12 \<and> length d = 16 \<or> length (wordRuns (trim m)) = 24 \<and> length d = 32))"
  using mnemonicToEntropy_entropyToMnemonic mnemonicToEntropy_canonical by (auto split: sum.splits)

theorem mnemonic_round_trip_witness:
  "length (replicate 16 0 :: bytes) = 16 \<and>
   mnemonicToEntropy (entropyToMnemonic (replicate 16 0)) = Inr (replicate 16 0)"
  using mnemonic_round_trip [of "replicate 16 0" "[]"] by simp

end
