(* ===== verification/Bip32.thy ===== *)
theory Bip32
  imports Secp256k1
begin

text \<open>
  Key derivation, \<^verbatim>\<open>contrib/uap-web/bip32.js\<close>: the BIP39 seed, the BIP32 master key and the hardened
  children on the path \<^verbatim>\<open>m/0'/3'/0'\<close>. The platform's primitives (\<^verbatim>\<open>crypto.subtle\<close> and string
  normalisation) are arguments, collected in a record; nothing is assumed of them here.

  Shows that a derived key is a 32-byte string that the curve library accepts, and is the child
  the BIP32 formula names.
\<close>

section \<open>Model\<close>

text \<open>
  What the page uses of the platform: PBKDF2 over HMAC-SHA512 with 2048 iterations and 512 bits,
  HMAC-SHA512, and NFKD normalisation. \<^verbatim>\<open>subtle()\<close> throws when there is none: the \<^term>\<open>None\<close> of the
  operations below.
\<close>

record subtle_crypto =
  sc_pbkdf2_sha512 :: "bytes \<Rightarrow> bytes \<Rightarrow> nat \<Rightarrow> bytes"
  sc_hmac_sha512 :: "bytes \<Rightarrow> bytes \<Rightarrow> bytes"
  sc_nfkd :: "string \<Rightarrow> string"

definition BIP32_N :: int where
  "BIP32_N = 0xfffffffffffffffffffffffffffffffebaaedce6af48a03bbfd25e8cd0364141"

definition HARDENED :: int where
  "HARDENED = 0x80000000"

definition WHIPPET_KEY_PATH :: string where
  "WHIPPET_KEY_PATH = ''m/0'' @ [CHR 0x27] @ ''/3'' @ [CHR 0x27] @ ''/0'' @ [CHR 0x27]"

definition WHIPPET_KEY_INDICES :: "int list" where
  "WHIPPET_KEY_INDICES = [0, 3, 0]"

definition subtle :: "'a option \<Rightarrow> 'a result" where
  "subtle s = (case s of None \<Rightarrow> Inl ''crypto.subtle is unavailable. This wallet requires a secure context (HTTPS or localhost).'' | Some c \<Rightarrow> Inr c)"

definition mnemonicToSeed :: "subtle_crypto option \<Rightarrow> string \<Rightarrow> string \<Rightarrow> bytes result" where
  "mnemonicToSeed sc mnemonic passphrase =
    bindR (subtle sc) (\<lambda>c.
    Inr (sc_pbkdf2_sha512 c (textEncode (sc_nfkd c mnemonic)) (textEncode (sc_nfkd c (''mnemonic'' @ passphrase))) 2048))"

definition hmacSha512 :: "subtle_crypto option \<Rightarrow> bytes \<Rightarrow> bytes \<Rightarrow> bytes result" where
  "hmacSha512 sc keyBytes msg = bindR (subtle sc) (\<lambda>c. Inr (sc_hmac_sha512 c keyBytes msg))"

definition bytesToBigInt :: "bytes \<Rightarrow> int" where
  "bytesToBigInt b = foldl (\<lambda>n x. push_bit 8 n OR uint x) 0 b"

text \<open>The loop from index 31 down to 0; the bytes written so far are the tail.\<close>

fun bigIntLoop :: "nat \<Rightarrow> int \<Rightarrow> bytes \<Rightarrow> bytes" where
  "bigIntLoop 0 n out = out"
| "bigIntLoop (Suc i) n out = bigIntLoop i (drop_bit 8 n) (of_int (n AND 0xff) # out)"

definition bigIntTo32Bytes :: "int \<Rightarrow> bytes" where
  "bigIntTo32Bytes n = bigIntLoop 32 n []"

record ext_key =
  xk_key :: bytes
  xk_chainCode :: bytes

definition masterKeyFromSeed :: "subtle_crypto option \<Rightarrow> bytes \<Rightarrow> ext_key result" where
  "masterKeyFromSeed sc seed =
    bindR (hmacSha512 sc (textEncode ''Bitcoin seed'') seed) (\<lambda>i.
    let key = slice i 0 32; k = bytesToBigInt key in
    if k = 0 \<or> k \<ge> BIP32_N then Inl ''invalid seed: master key out of range''
    else Inr \<lparr>xk_key = key, xk_chainCode = slice i 32 32\<rparr>)"

definition hardenedData :: "bytes \<Rightarrow> 32 word \<Rightarrow> bytes" where
  "hardenedData key i = 0 # setAt 0 key (replicate 32 0) @ [ucast (drop_bit 24 i), ucast (drop_bit 16 i), ucast (drop_bit 8 i), ucast i]"

definition deriveHardened :: "subtle_crypto option \<Rightarrow> ext_key \<Rightarrow> int \<Rightarrow> ext_key result" where
  "deriveHardened sc parent index =
    (if index < 0 \<or> index \<ge> HARDENED then Inl ''hardened index out of range: ''
     else
       bindR (hmacSha512 sc (xk_chainCode parent) (hardenedData (xk_key parent) (of_int (index + HARDENED)))) (\<lambda>i.
       let il = bytesToBigInt (slice i 0 32) in
       if il \<ge> BIP32_N then Inl ''derived scalar out of range; use the next index''
       else (let childKey = (il + bytesToBigInt (xk_key parent)) mod BIP32_N in
         if childKey = 0 then Inl ''derived key is zero; use the next index''
         else Inr \<lparr>xk_key = bigIntTo32Bytes childKey, xk_chainCode = slice i 32 32\<rparr>)))"

fun deriveSteps :: "subtle_crypto option \<Rightarrow> ext_key \<Rightarrow> int list \<Rightarrow> ext_key result" where
  "deriveSteps sc node [] = Inr node"
| "deriveSteps sc node (i # is) = bindR (deriveHardened sc node i) (\<lambda>node'. deriveSteps sc node' is)"

definition derivePath :: "subtle_crypto option \<Rightarrow> bytes \<Rightarrow> int list \<Rightarrow> ext_key result" where
  "derivePath sc seed indices = bindR (masterKeyFromSeed sc seed) (\<lambda>node. deriveSteps sc node indices)"

definition mnemonicToPrivateKey :: "subtle_crypto option \<Rightarrow> string \<Rightarrow> string \<Rightarrow> bytes result" where
  "mnemonicToPrivateKey sc mnemonic passphrase =
    bindR (mnemonicToSeed sc mnemonic passphrase) (\<lambda>seed. mapR xk_key (derivePath sc seed WHIPPET_KEY_INDICES))"

section \<open>Lemmas\<close>

lemma shift_or: "push_bit 8 (n :: int) OR uint (x :: byte) = n * 256 + uint x"
proof -
  have "push_bit 8 n + uint x = push_bit 8 n OR uint x"
  proof (rule disjunctive_add)
    fix i
    show "\<not> bit (push_bit 8 n) i \<or> \<not> bit (uint x) i" by (cases "i < 8") (auto simp: bit_push_bit_iff bit_uint_iff)
  qed
  then show ?thesis by (simp add: push_bit_eq_mult)
qed

lemma bytesToBigInt_eq: "bytesToBigInt b = bytesToNumBE b"
proof -
  have "foldl (\<lambda>n x. push_bit 8 n OR uint x) 0 b = int (fromBE 256 (map unat b))"
  proof (induction b rule: rev_induct)
    case (snoc x b)
    have "int (unat x) = uint x" by simp
    with snoc show ?case by (simp add: shift_or fromBE_simps(2) del: fromBE_simps(1))
  qed simp
  then show ?thesis by (simp add: bytesToBigInt_def bytesToNumBE_eq)
qed

lemma bigIntLoop_eq: "0 \<le> n \<Longrightarrow> bigIntLoop k n out = beBytes k (nat n) @ out"
proof (induction k arbitrary: n out)
  case (Suc k)
  have a: "n AND 0xff = n mod 256" using take_bit_eq_mask [of 8 n] by (simp add: take_bit_eq_mod mask_eq_exp_minus_1)
  have "(of_int (n mod 256) :: byte) = of_int n" by (simp add: word_of_int_eq_iff take_bit_eq_mod)
  also have "\<dots> = of_nat (nat n)" using Suc.prems by (simp add: of_nat_nat)
  finally have "(of_int (n AND 0xff) :: byte) = of_nat (nat n)" by (simp only: a)
  moreover have "drop_bit 8 n = n div 256" by (simp add: drop_bit_eq_div)
  ultimately show ?case using Suc by (simp add: nat_div_distrib)
qed simp

lemma BIP32_N_eq: "BIP32_N = CURVE_N"
  by (simp add: BIP32_N_def CURVE_N_def)

lemma bigIntTo32Bytes_scalar:
  assumes "0 < n" "n < BIP32_N"
  shows "length (bigIntTo32Bytes n) = 32" "bytesToNumBE (bigIntTo32Bytes n) = n"
proof -
  have e: "bigIntTo32Bytes n = beBytes 32 (nat n)" using assms by (simp add: bigIntTo32Bytes_def bigIntLoop_eq)
  show "length (bigIntTo32Bytes n) = 32" by (simp add: e)
  have "nat n < 256 ^ 32" using assms by (simp add: BIP32_N_def nat_less_iff)
  then show "bytesToNumBE (bigIntTo32Bytes n) = n" using assms by (simp add: e bytesToNumBE_eq fromBE_beBytes)
qed

lemma deriveHardened_Inr:
  assumes "deriveHardened sc parent index = Inr child"
  shows "\<exists>c il. sc = Some c \<and> 0 \<le> index \<and> index < HARDENED
    \<and> il = bytesToNumBE (slice (sc_hmac_sha512 c (xk_chainCode parent) (hardenedData (xk_key parent) (of_int (index + HARDENED)))) 0 32)
    \<and> il < CURVE_N \<and> length (xk_key child) = 32 \<and> bytesToNumBE (xk_key child) = (il + bytesToNumBE (xk_key parent)) mod CURVE_N
    \<and> 0 < bytesToNumBE (xk_key child) \<and> bytesToNumBE (xk_key child) < CURVE_N"
proof -
  obtain c where c: "sc = Some c" using assms by (auto simp: deriveHardened_def hmacSha512_def subtle_def result_simps split: if_splits option.splits)
  define il where "il = bytesToNumBE (slice (sc_hmac_sha512 c (xk_chainCode parent) (hardenedData (xk_key parent) (of_int (index + HARDENED)))) 0 32)"
  define k where "k = (il + bytesToNumBE (xk_key parent)) mod BIP32_N"
  have d: "0 \<le> index" "index < HARDENED" "il < BIP32_N" "k \<noteq> 0" "xk_key child = bigIntTo32Bytes k"
    using assms by (auto simp: deriveHardened_def c hmacSha512_def subtle_def bytesToBigInt_eq Let_def il_def k_def split: if_splits)
  have n: "0 < BIP32_N" by (simp add: BIP32_N_def)
  then have k: "0 < k" "k < BIP32_N" using d(4) by (simp_all add: k_def le_neq_trans [OF pos_mod_sign])
  show ?thesis
    using bigIntTo32Bytes_scalar [OF k] k d c by (intro exI [of _ c] exI [of _ il]) (simp add: il_def k_def BIP32_N_eq)
qed

lemma deriveSteps_valid:
  "deriveSteps sc node is = Inr k \<Longrightarrow> is \<noteq> [] \<Longrightarrow> length (xk_key k) = 32 \<and> 0 < bytesToNumBE (xk_key k) \<and> bytesToNumBE (xk_key k) < CURVE_N"
proof (induction sc node "is" rule: deriveSteps.induct)
  case (2 sc node i "is")
  obtain node' where n: "deriveHardened sc node i = Inr node'" "deriveSteps sc node' is = Inr k" using 2(2) by (auto simp: result_simps)
  show ?case
  proof (cases "is = []")
    case True
    then show ?thesis using deriveHardened_Inr [OF n(1)] n(2) by auto
  qed (use 2(1) n in auto)
qed simp

lemma mnemonicToPrivateKey_valid:
  assumes "mnemonicToPrivateKey sc mnemonic passphrase = Inr k"
  shows "length k = 32" "0 < bytesToNumBE k" "bytesToNumBE k < CURVE_N"
proof -
  obtain node x where "deriveSteps sc node WHIPPET_KEY_INDICES = Inr x" "k = xk_key x"
    using assms by (auto simp: mnemonicToPrivateKey_def derivePath_def mapR_eq_Inr result_simps)
  then show "length k = 32" "0 < bytesToNumBE k" "bytesToNumBE k < CURVE_N"
    using deriveSteps_valid [of sc node WHIPPET_KEY_INDICES x] by (simp_all add: WHIPPET_KEY_INDICES_def)
qed

section \<open>Properties\<close>

text \<open>C17: A derived private key is always a valid scalar. Whatever the platform's hash functions return, when
  derivation succeeds the key is 32 bytes long, stands for a number between 1 and the group order,
  and is accepted by the curve library; and every hardened child is the sum of the parent's key and
  the left half of the hash, modulo the group order.\<close>

theorem derived_key_is_valid_scalar:
  "(case mnemonicToPrivateKey sc mnemonic passphrase of Inl e \<Rightarrow> True
     | Inr k \<Rightarrow> length k = 32 \<and> 0 < bytesToNumBE k \<and> bytesToNumBE k < CURVE_N \<and> toPrivScalar k = Inr (bytesToNumBE k))
   \<and> (case deriveHardened (Some c) parent index of Inl e \<Rightarrow> True
     | Inr child \<Rightarrow> bytesToNumBE (xk_key child) = (bytesToNumBE (slice (sc_hmac_sha512 c (xk_chainCode parent)
         (hardenedData (xk_key parent) (of_int (index + HARDENED)))) 0 32) + bytesToNumBE (xk_key parent)) mod CURVE_N)"
proof (intro conjI)
  show "case mnemonicToPrivateKey sc mnemonic passphrase of Inl e \<Rightarrow> True
     | Inr k \<Rightarrow> length k = 32 \<and> 0 < bytesToNumBE k \<and> bytesToNumBE k < CURVE_N \<and> toPrivScalar k = Inr (bytesToNumBE k)"
    using mnemonicToPrivateKey_valid [of sc mnemonic passphrase] by (auto simp: toPrivScalar_def abytes_def arange_def split: sum.split)
  show "case deriveHardened (Some c) parent index of Inl e \<Rightarrow> True
     | Inr child \<Rightarrow> bytesToNumBE (xk_key child) = (bytesToNumBE (slice (sc_hmac_sha512 c (xk_chainCode parent)
         (hardenedData (xk_key parent) (of_int (index + HARDENED)))) 0 32) + bytesToNumBE (xk_key parent)) mod CURVE_N"
    using deriveHardened_Inr [of "Some c" parent index] by (auto split: sum.split)
qed

end
