(* ===== verification/Wallet.thy ===== *)
theory Wallet
  imports Mnemonic Bip32 TokenTransfer Orders
begin

text \<open>
  The self-custody wallet, the second part of \<^verbatim>\<open>contrib/uap-web/wallet.js\<close>: the legacy derivation,
  the encryption of the phrase and the class \<^verbatim>\<open>Wallet\<close>.

  The platform's cryptography is an argument: what \<^verbatim>\<open>bip32.js\<close> uses of it is the record of
  \<^verbatim>\<open>Bip32\<close>, what the encryption uses is the record \<open>aead\<close> below. Random bytes are arguments of the
  operations that draw them. An operation of the class returns its result together with the wallet it
  leaves behind, also when it throws.

  Shows that the legacy key stretching is PBKDF2 as RFC 8018 defines it, and, for the state machine of
  \<^verbatim>\<open>Session\<close>, that creating and unlocking leave wallets with a valid phrase, its key and the key's
  address, and that only a successful unlock clears the locked flag.
\<close>

section \<open>Model: derivation\<close>

definition xorBytes :: "bytes \<Rightarrow> bytes \<Rightarrow> bytes" where
  "xorBytes block u = map (\<lambda>j. block ! j XOR u ! j) [0..<length block]"

fun pbkdf2Rounds :: "nat \<Rightarrow> bytes \<Rightarrow> bytes \<Rightarrow> bytes \<Rightarrow> bytes" where
  "pbkdf2Rounds 0 password u block = block"
| "pbkdf2Rounds (Suc i) password u block =
    (let u' = hmacSha256 password [u] in pbkdf2Rounds i password u' (xorBytes block u'))"

definition pbkdf2Block :: "bytes \<Rightarrow> bytes \<Rightarrow> nat \<Rightarrow> nat \<Rightarrow> bytes" where
  "pbkdf2Block password salt iterations blockIndex =
    (let counter = beBytes 4 blockIndex; u = hmacSha256 password [salt, counter]
     in pbkdf2Rounds (iterations - 1) password u u)"

definition pbkdf2Sync :: "bytes \<Rightarrow> bytes \<Rightarrow> nat \<Rightarrow> nat \<Rightarrow> bytes" where
  "pbkdf2Sync password salt iterations keyLength =
    (let blockSize = 32; numBlocks = (keyLength + (blockSize - 1)) div blockSize
     in foldl (\<lambda>result blockIndex.
          let block = pbkdf2Block password salt iterations blockIndex;
              copyLength = min blockSize (keyLength - (blockIndex - 1) * blockSize)
          in setAt ((blockIndex - 1) * blockSize) (take copyLength block) result)
        (replicate keyLength 0) [1..<Suc numBlocks])"

definition legacyMnemonicToSeed :: "string \<Rightarrow> string \<Rightarrow> bytes" where
  "legacyMnemonicToSeed mnemonic passphrase =
    pbkdf2Sync (textEncode mnemonic) (textEncode (''mnemonic'' @ passphrase)) 2048 64"

definition legacySeedToPrivateKey :: "bytes \<Rightarrow> bytes" where
  "legacySeedToPrivateKey seed = take 32 seed"

definition getPublicKeyFromPrivateKey :: "bytes \<Rightarrow> bytes result" where
  "getPublicKeyFromPrivateKey privKey = getPublicKey privKey True"

definition deriveAddressFromPrivKey :: "bytes \<Rightarrow> string \<Rightarrow> string result" where
  "deriveAddressFromPrivKey privKey netw =
    bindR (getPublicKeyFromPrivateKey privKey) (\<lambda>pubKey.
    case networkOf netw of
      None \<Rightarrow> Inl ''Unknown network: ''
    | Some n \<Rightarrow> Inr (pubkeyToAddress pubKey (PUBKEY_ADDRESS (VERSIONS n))))"

section \<open>Model: encryption\<close>

text \<open>
  What the wallet's \<^verbatim>\<open>cryptoSubtle\<close> offers: PBKDF2 over HMAC-SHA256 to 256 bits, and AES-GCM with a
  128-bit tag, where decryption rejects (\<^term>\<open>None\<close>) when the tag does not verify.
\<close>

record aead =
  ae_pbkdf2_sha256 :: "bytes \<Rightarrow> bytes \<Rightarrow> nat \<Rightarrow> bytes"
  ae_encrypt :: "bytes \<Rightarrow> bytes \<Rightarrow> bytes \<Rightarrow> bytes"
  ae_decrypt :: "bytes \<Rightarrow> bytes \<Rightarrow> bytes \<Rightarrow> bytes option"

definition PBKDF2_ITERATIONS :: nat where
  "PBKDF2_ITERATIONS = 600000"

record encrypted =
  en_algo :: string
  en_iterations :: nat
  en_salt :: string
  en_nonce :: string
  en_ciphertext :: string
  en_tag :: string

definition AEAD_ALGO :: string where
  "AEAD_ALGO = ''pbkdf2-aes-gcm''"

definition encryptPrivateKey :: "bytes \<Rightarrow> string \<Rightarrow> aead option \<Rightarrow> bytes \<Rightarrow> bytes \<Rightarrow> encrypted result" where
  "encryptPrivateKey privKey passphrase cryptoSubtle salt nonce =
    (case cryptoSubtle of
       None \<Rightarrow> Inl ''crypto.subtle unavailable''
     | Some c \<Rightarrow>
       let password = textEncode passphrase;
           key = ae_pbkdf2_sha256 c password salt PBKDF2_ITERATIONS;
           encryptedArray = ae_encrypt c key nonce privKey
       in Inr \<lparr>en_algo = AEAD_ALGO, en_iterations = PBKDF2_ITERATIONS, en_salt = bytesToHex salt, en_nonce = bytesToHex nonce,
               en_ciphertext = bytesToHex (take (length privKey) encryptedArray),
               en_tag = bytesToHex (drop (length privKey) encryptedArray)\<rparr>)"

text \<open>The file's own \<^verbatim>\<open>hexToBytes\<close> does not check the length: a last single digit is read by itself.\<close>

fun walletHexToBytes :: "string \<Rightarrow> bytes" where
  "walletHexToBytes (a # b # r) = toUint8 (parseInt16 [a, b]) # walletHexToBytes r"
| "walletHexToBytes [a] = [toUint8 (parseInt16 [a])]"
| "walletHexToBytes [] = []"

definition decryptPrivateKey :: "encrypted option \<Rightarrow> string \<Rightarrow> aead option \<Rightarrow> bytes option result" where
  "decryptPrivateKey encryptedData passphrase cryptoSubtle =
    (case cryptoSubtle of
       None \<Rightarrow> Inl ''crypto.subtle unavailable''
     | Some c \<Rightarrow>
       (case encryptedData of
          None \<Rightarrow> Inl ''invalid encrypted data format''
        | Some d \<Rightarrow>
          if en_algo d \<noteq> AEAD_ALGO then Inl ''invalid encrypted data format''
          else
            let salt = walletHexToBytes (en_salt d); nonce = walletHexToBytes (en_nonce d);
                ciphertext = walletHexToBytes (en_ciphertext d); tag = walletHexToBytes (en_tag d);
                password = textEncode passphrase;
                key = ae_pbkdf2_sha256 c password salt (if en_iterations d = 0 then PBKDF2_ITERATIONS else en_iterations d)
            in Inr (ae_decrypt c key nonce (ciphertext @ tag))))"

text \<open>
  \<^verbatim>\<open>TextDecoder\<close>: a leading byte order mark is dropped; a character the model does not have, the
  replacement character for malformed input among them, stands as the control character 26, which is
  neither white space nor part of a word.
\<close>

fun utf8Decode :: "bytes \<Rightarrow> string" where
  "utf8Decode [] = []"
| "utf8Decode (b # bs) =
    (if b < 128 then char_of (unat b) # utf8Decode bs
     else case bs of
       c # r \<Rightarrow> if (b = 0xc2 \<or> b = 0xc3) \<and> c AND 0xc0 = 0x80
                 then char_of ((unat b - 192) * 64 + (unat c - 128)) # utf8Decode r
                 else CHR 0x1a # utf8Decode bs
     | [] \<Rightarrow> [CHR 0x1a])"

definition textDecode :: "bytes \<Rightarrow> string" where
  "textDecode bs = utf8Decode (if take 3 bs = [0xef, 0xbb, 0xbf] then drop 3 bs else bs)"

section \<open>Model: the class Wallet\<close>

record stored =
  st_version :: nat
  st_encrypted :: "encrypted option"
  st_iterations :: nat
  st_address :: "string option"
  st_network :: "string option"

text \<open>The entry \<^verbatim>\<open>wallet\<close> of the storage map is passed along; the other fields are the object's.\<close>

type_synonym storage = "stored option"

record wallet =
  w_network :: string
  w_cryptoSubtle :: "aead option"
  w_privKey :: "bytes option"
  w_address :: "string option"
  w_mnemonic :: "string option"
  w_locked :: bool
  w_needsDerivation :: bool
  w_derivationPath :: "string option"
  w_usesLegacyDerivation :: bool

text \<open>The globals: \<^verbatim>\<open>crypto.subtle\<close> as \<^verbatim>\<open>bip32.js\<close> and as the wallet uses it.\<close>

record platform =
  pf_subtle :: "subtle_crypto option"
  pf_aead :: "aead option"

text \<open>The constructor's options; \<open>wo_cryptoSubtle\<close> is \<^term>\<open>None\<close> when the option is absent.\<close>

record wallet_options =
  wo_restore :: bool
  wo_mnemonic :: "string option"
  wo_network :: string
  wo_mnemonicLength :: nat
  wo_cryptoSubtle :: "aead option option"

definition defaultOptions :: wallet_options where
  "defaultOptions = \<lparr>wo_restore = False, wo_mnemonic = None, wo_network = ''mainnet'', wo_mnemonicLength = 12, wo_cryptoSubtle = None\<rparr>"

text \<open>\<^verbatim>\<open>a || b\<close> on strings that may be missing.\<close>

definition orString :: "string option \<Rightarrow> 'a \<Rightarrow> (string \<Rightarrow> 'a) \<Rightarrow> 'a" where
  "orString s d f = (case s of None \<Rightarrow> d | Some x \<Rightarrow> if x = [] then d else f x)"

definition newWallet :: "platform \<Rightarrow> (nat \<Rightarrow> bytes) \<Rightarrow> wallet_options \<Rightarrow> storage \<Rightarrow> wallet result" where
  "newWallet pf getRandomValues opts storage =
    (let cryptoSubtle = (case wo_cryptoSubtle opts of Some c \<Rightarrow> c | None \<Rightarrow> pf_aead pf);
         this = \<lparr>w_network = wo_network opts, w_cryptoSubtle = cryptoSubtle, w_privKey = None, w_address = None,
                 w_mnemonic = None, w_locked = False, w_needsDerivation = False, w_derivationPath = None,
                 w_usesLegacyDerivation = False\<rparr> in
     if cryptoSubtle = None then Inl ''crypto.subtle is unavailable. This wallet requires a secure context (HTTPS or localhost).''
     else if wo_restore opts then
       (case storage of
          None \<Rightarrow> Inl ''No wallet found in storage''
        | Some st \<Rightarrow>
          if st_encrypted st = None then Inl ''Stored wallet has no encrypted key material''
          else Inr (this\<lparr>w_address := orString (st_address st) None Some,
                         w_network := orString (st_network st) (wo_network opts) id, w_locked := True\<rparr>))
     else
       orString (wo_mnemonic opts)
         (let entropyLength = (if wo_mnemonicLength opts = 24 then 32 else 16)
          in Inr (this\<lparr>w_mnemonic := Some (entropyToMnemonic (getRandomValues entropyLength)), w_needsDerivation := True\<rparr>))
         (\<lambda>mnemonic. bindR (mnemonicToEntropy mnemonic) (\<lambda>_.
            Inr (this\<lparr>w_mnemonic := Some mnemonic, w_needsDerivation := True\<rparr>))))"

text \<open>Operations of the object: the result and the object afterwards.\<close>

definition setDerived :: "bytes \<Rightarrow> string \<Rightarrow> wallet \<Rightarrow> unit result \<times> wallet" where
  "setDerived key path w =
    (let w = w\<lparr>w_privKey := Some key\<rparr> in
     case deriveAddressFromPrivKey key (w_network w) of
       Inl e \<Rightarrow> (Inl e, w)
     | Inr address \<Rightarrow> (Inr (), w\<lparr>w_address := Some address, w_derivationPath := Some path\<rparr>))"

definition deriveFromMnemonic :: "platform \<Rightarrow> wallet \<Rightarrow> unit result \<times> wallet" where
  "deriveFromMnemonic pf w =
    (case w_mnemonic w of
       None \<Rightarrow> (Inl ''TypeError'', w)
     | Some mnemonic \<Rightarrow>
       (case mnemonicToPrivateKey (pf_subtle pf) mnemonic [] of
          Inl e \<Rightarrow> (Inl e, w)
        | Inr key \<Rightarrow> setDerived key WHIPPET_KEY_PATH w))"

definition deriveLegacyFromMnemonic :: "wallet \<Rightarrow> unit result \<times> wallet" where
  "deriveLegacyFromMnemonic w =
    (case w_mnemonic w of
       None \<Rightarrow> (Inl ''TypeError'', w)
     | Some mnemonic \<Rightarrow>
       setDerived (legacySeedToPrivateKey (legacyMnemonicToSeed mnemonic [])) ''legacy (pre-BIP39-fix)'' w)"

definition wallet_init :: "platform \<Rightarrow> wallet \<Rightarrow> unit result \<times> wallet" where
  "wallet_init pf w =
    (if w_needsDerivation w then
       (case deriveFromMnemonic pf w of
          (Inl e, w) \<Rightarrow> (Inl e, w)
        | (Inr _, w) \<Rightarrow> (Inr (), w\<lparr>w_needsDerivation := False\<rparr>))
     else (Inr (), w))"

definition wallet_create :: "platform \<Rightarrow> (nat \<Rightarrow> bytes) \<Rightarrow> wallet_options \<Rightarrow> storage \<Rightarrow> wallet result" where
  "wallet_create pf getRandomValues opts storage =
    bindR (newWallet pf getRandomValues opts storage) (\<lambda>w.
    case wallet_init pf w of (Inl e, _) \<Rightarrow> Inl e | (Inr _, w) \<Rightarrow> Inr w)"

definition persisted :: "storage \<Rightarrow> bool" where
  "persisted storage = (case storage of None \<Rightarrow> False | Some st \<Rightarrow> st_encrypted st \<noteq> None)"

definition wallet_lock :: "string \<Rightarrow> bytes \<Rightarrow> bytes \<Rightarrow> storage \<Rightarrow> wallet \<Rightarrow> unit result \<times> storage \<times> wallet" where
  "wallet_lock passphrase salt nonce storage w =
    orString (w_mnemonic w) (Inl ''No mnemonic available to lock'', storage, w) (\<lambda>mnemonic.
    if passphrase = [] then (Inl ''A passphrase is required to lock the wallet'', storage, w)
    else
      case encryptPrivateKey (textEncode mnemonic) passphrase (w_cryptoSubtle w) salt nonce of
        Inl e \<Rightarrow> (Inl e, storage, w)
      | Inr enc \<Rightarrow>
        (Inr (),
         Some \<lparr>st_version = 2, st_encrypted = Some enc, st_iterations = PBKDF2_ITERATIONS,
               st_address = w_address w, st_network = Some (w_network w)\<rparr>,
         w\<lparr>w_privKey := None, w_mnemonic := None, w_locked := True\<rparr>))"

text \<open>The comparison with the stored address, the last step of \<^verbatim>\<open>unlock\<close>.\<close>

definition checkStoredAddress :: "stored \<Rightarrow> wallet \<Rightarrow> bool result \<times> wallet" where
  "checkStoredAddress stored w =
    orString (st_address stored) (Inr True, w\<lparr>w_locked := False\<rparr>) (\<lambda>a.
    if Some a = w_address w then (Inr True, w\<lparr>w_locked := False\<rparr>)
    else
      case deriveLegacyFromMnemonic w of
        (Inl e, w) \<Rightarrow> (Inl e, w)
      | (Inr _, w) \<Rightarrow>
        if Some a = w_address w then (Inr True, w\<lparr>w_usesLegacyDerivation := True, w_locked := False\<rparr>)
        else (Inl ''Stored address does not match the decrypted key; storage may be corrupt'',
              w\<lparr>w_privKey := None, w_mnemonic := None\<rparr>))"

definition wallet_unlock :: "platform \<Rightarrow> string \<Rightarrow> storage \<Rightarrow> wallet \<Rightarrow> bool result \<times> wallet" where
  "wallet_unlock pf passphrase storage w =
    (case storage of
       None \<Rightarrow> (Inl ''No encrypted wallet in storage'', w)
     | Some stored \<Rightarrow>
       if st_encrypted stored = None then (Inl ''No encrypted wallet in storage'', w)
       else
         case decryptPrivateKey (st_encrypted stored) passphrase (w_cryptoSubtle w) of
           Inl e \<Rightarrow> (Inl e, w)
         | Inr None \<Rightarrow> (Inr False, w)
         | Inr (Some plaintext) \<Rightarrow>
           let mnemonic = textDecode plaintext in
           case mnemonicToEntropy mnemonic of
             Inl e \<Rightarrow> (Inl e, w)
           | Inr _ \<Rightarrow>
             let w = w\<lparr>w_network := orString (st_network stored) (w_network w) id, w_mnemonic := Some mnemonic\<rparr> in
             case deriveFromMnemonic pf w of
               (Inl e, w) \<Rightarrow> (Inl e, w)
             | (Inr _, w) \<Rightarrow> checkStoredAddress stored (w\<lparr>w_usesLegacyDerivation := False\<rparr>))"

section \<open>RFC 8018\<close>

text \<open>PBKDF2 as section 5.2 writes it, over a pseudorandom function and its output length.\<close>

definition rfc8018_F :: "(bytes \<Rightarrow> bytes \<Rightarrow> bytes) \<Rightarrow> bytes \<Rightarrow> bytes \<Rightarrow> nat \<Rightarrow> nat \<Rightarrow> bytes" where
  "rfc8018_F prf P S c i = (let U = (\<lambda>j. (prf P ^^ (j - 1)) (prf P (S @ beBytes 4 i)))
                            in foldl (\<lambda>a b. map2 (XOR) a b) (U 1) (map U [2..<Suc c]))"

definition rfc8018_pbkdf2 :: "(bytes \<Rightarrow> bytes \<Rightarrow> bytes) \<Rightarrow> nat \<Rightarrow> bytes \<Rightarrow> bytes \<Rightarrow> nat \<Rightarrow> nat \<Rightarrow> bytes" where
  "rfc8018_pbkdf2 prf hLen P S c dkLen =
    (let l = (dkLen + (hLen - 1)) div hLen in take dkLen (concat (map (rfc8018_F prf P S c) [1..<Suc l])))"

section \<open>Lemmas: key stretching\<close>

lemma length_hmacSha256 [simp]: "length (hmacSha256 key parts) = 32"
  unfolding hmacSha256_def Let_def by (rule length_sha256)

lemma xorBytes_map2: "length u = length block \<Longrightarrow> xorBytes block u = map2 (XOR) block u"
  by (rule nth_equalityI) (simp_all add: xorBytes_def)

lemma length_xorBytes [simp]: "length (xorBytes a b) = length a"
  by (simp add: xorBytes_def)

lemma length_pbkdf2Rounds: "length (pbkdf2Rounds n pw u block) = length block"
  by (induction n arbitrary: u block) (simp_all add: Let_def)

lemma length_pbkdf2Block [simp]: "length (pbkdf2Block pw salt c i) = 32"
  by (simp add: pbkdf2Block_def Let_def length_pbkdf2Rounds)

lemma funpow_upt:
  fixes h :: "bytes \<Rightarrow> bytes"
  shows "map (\<lambda>j. (h ^^ j) u) [1..<Suc (Suc n)] = h u # map (\<lambda>j. (h ^^ j) (h u)) [1..<Suc n]"
  by (rule nth_equalityI) (auto simp: nth_Cons funpow_swap1 simp del: upt_Suc split: nat.split)

lemma pbkdf2Rounds_fold:
  assumes "length block = 32"
  shows "pbkdf2Rounds n pw u block = foldl (\<lambda>a b. map2 (XOR) a b) block (map (\<lambda>j. ((\<lambda>x. hmacSha256 pw [x]) ^^ j) u) [1..<Suc n])"
  using assms
proof (induction n arbitrary: u block)
  case (Suc n)
  define h where "h = (\<lambda>x. hmacSha256 pw [x])"
  have x: "xorBytes block (h u) = map2 (XOR) block (h u)" using Suc.prems by (simp add: xorBytes_map2 h_def)
  have "pbkdf2Rounds (Suc n) pw u block = pbkdf2Rounds n pw (h u) (xorBytes block (h u))" by (simp add: Let_def h_def)
  also have "\<dots> = foldl (\<lambda>a b. map2 (XOR) a b) (map2 (XOR) block (h u)) (map (\<lambda>j. (h ^^ j) (h u)) [1..<Suc n])"
    using Suc.IH [of "xorBytes block (h u)" "h u"] Suc.prems unfolding h_def [symmetric] x [symmetric] by (simp del: upt_Suc)
  also have "\<dots> = foldl (\<lambda>a b. map2 (XOR) a b) block (map (\<lambda>j. (h ^^ j) u) [1..<Suc (Suc n)])"
    unfolding funpow_upt by simp
  finally show ?case unfolding h_def .
qed simp

lemma hmacSha256_parts: "hmacSha256 key [a, b] = hmacSha256 key [a @ b]"
  by (simp add: hmacSha256_rfc2104)

lemma pbkdf2Block_F:
  assumes "0 < c"
  shows "pbkdf2Block pw salt c i = rfc8018_F (\<lambda>k m. hmacSha256 k [m]) pw salt c i"
proof -
  let ?h = "\<lambda>x. hmacSha256 pw [x]" and ?u = "hmacSha256 pw [salt @ beBytes 4 i]"
  have "map (\<lambda>j. (?h ^^ (j - 1)) ?u) [2..<Suc c] = map (\<lambda>j. (?h ^^ j) ?u) [1..<Suc (c - 1)]"
    using assms by (intro nth_equalityI) (auto simp del: upt_Suc)
  then show ?thesis by (simp add: pbkdf2Block_def rfc8018_F_def Let_def pbkdf2Rounds_fold hmacSha256_parts del: upt_Suc)
qed

lemma pbkdf2_prefix:
  fixes B :: "nat \<Rightarrow> bytes" and k :: nat
  defines "put result i \<equiv> setAt ((i - 1) * 32) (take (min 32 (k - (i - 1) * 32)) (B i)) result"
  assumes B: "\<And>i. length (B i) = 32" and n: "n \<le> (k + 31) div 32"
  shows "foldl put (replicate k 0) [1..<Suc n] = take k (concat (map B [1..<Suc n])) @ replicate (k - 32 * n) 0
    \<and> length (concat (map B [1..<Suc n])) = 32 * n"
  using n
proof (induction n)
  case (Suc n)
  define c where "c = concat (map B [1..<Suc n])"
  define m where "m = min 32 (k - 32 * n)"
  have u: "[1..<Suc (Suc n)] = [1..<Suc n] @ [Suc n]" by simp
  have k: "32 * n < k" and n: "n \<le> (k + 31) div 32" using Suc.prems by linarith+
  have l: "length c = 32 * n" using Suc.IH [OF n] unfolding c_def by blast
  have IH: "foldl put (replicate k 0) [1..<Suc n] = c @ replicate (k - 32 * n) 0"
    using Suc.IH [OF n] k l unfolding c_def by (simp del: upt_Suc)
  have r: "replicate (k - 32 * n) (0 :: byte) = replicate m 0 @ replicate (k - 32 * Suc n) 0"
    unfolding replicate_add [symmetric] m_def using k by (intro arg_cong2 [where f = replicate]) auto
  have "put (c @ replicate (k - 32 * n) 0) (Suc n) = c @ take m (B (Suc n)) @ replicate (k - 32 * Suc n) 0"
    unfolding r put_def using l B k by (simp add: setAt_def m_def mult.commute [of n 32])
  moreover have "take k (c @ B (Suc n)) = c @ take m (B (Suc n))" using l B k by (simp add: m_def min_def)
  ultimately show ?case unfolding u using IH l B k by (simp add: c_def del: upt_Suc)
qed (simp add: put_def)

text \<open>C39: The legacy key stretching is PBKDF2 with HMAC-SHA256 as RFC 8018 defines it: for every password, salt, key
  length and positive iteration count, filling the result block by block gives the first bytes of the
  concatenated blocks, each the exclusive or of the iterated hashes.\<close>

theorem pbkdf2_is_rfc_8018:
  assumes "0 < iterations"
  shows "pbkdf2Sync password salt iterations keyLength
    = rfc8018_pbkdf2 (\<lambda>k m. hmacSha256 k [m]) 32 password salt iterations keyLength"
proof -
  have "keyLength - 32 * ((keyLength + 31) div 32) = 0" by linarith
  moreover have "pbkdf2Block password salt iterations = rfc8018_F (\<lambda>k m. hmacSha256 k [m]) password salt iterations"
    using assms by (intro ext) (rule pbkdf2Block_F)
  moreover have "length (rfc8018_F (\<lambda>k m. hmacSha256 k [m]) password salt iterations i) = 32" for i
    using length_pbkdf2Block assms by (metis pbkdf2Block_F)
  ultimately show ?thesis
    using pbkdf2_prefix [of "rfc8018_F (\<lambda>k m. hmacSha256 k [m]) password salt iterations" "(keyLength + 31) div 32" keyLength]
    by (simp add: pbkdf2Sync_def rfc8018_pbkdf2_def Let_def del: upt_Suc)
qed

theorem pbkdf2_is_rfc_8018_witness:
  "0 < (2048 :: nat) \<and> pbkdf2Sync [] [] 2048 64 = rfc8018_pbkdf2 (\<lambda>k m. hmacSha256 k [m]) 32 [] [] 2048 64"
  using pbkdf2_is_rfc_8018 [of 2048 "[]" "[]" 64] by simp


section \<open>Lemmas: the stored phrase\<close>

lemma continuation_bits: "list_all (\<lambda>b. (128 + b) AND 0xc0 = (128 :: nat)) [0..<64]"
  by code_simp

lemma utf8Decode_utf8Char: "utf8Decode (utf8Char c @ bs) = c # utf8Decode bs"
proof -
  define n where "n = (of_char c :: nat)"
  have n: "n < 256" "char_of n = c" by (simp_all add: n_def)
  show ?thesis
  proof (cases "n < 128")
    case True
    then have "(of_nat n :: byte) < 128" "unat (of_nat n :: byte) = n" by (simp_all add: word_less_nat_alt unat_of_nat8)
    then show ?thesis using True n by (simp add: utf8Char_def n_def [symmetric])
  next
    case False
    define a b where "a = n div 64" and "b = n mod 64"
    have ab: "a = 2 \<or> a = 3" "b < 64" "n = a * 64 + b" using False n(1) by (auto simp: a_def b_def)
    have u: "unat (of_nat (192 + a) :: byte) = 192 + a" "unat (of_nat (128 + b) :: byte) = 128 + b"
      using ab by (auto intro!: unat_of_nat8 simp del: of_nat_add)
    have x: "(of_nat (192 + a) :: byte) \<in> {0xc2, 0xc3}" "\<not> (of_nat (192 + a) :: byte) < 128" using ab(1) by auto
    have "unat ((of_nat (128 + b) :: byte) AND 0xc0) = (128 + b) AND 0xc0" by (simp add: unsigned_and_eq u del: of_nat_add)
    also have "\<dots> = 128" using continuation_bits ab(2) by (simp add: list_all_iff)
    finally have y: "(of_nat (128 + b) :: byte) AND 0xc0 = 0x80" by (simp add: byte_eq_iff del: of_nat_add)
    have d: "utf8Decode (v # z # bs) = char_of ((unat v - 192) * 64 + (unat z - 128)) # utf8Decode bs"
      if "v \<in> {0xc2, 0xc3}" "\<not> v < 128" "z AND 0xc0 = 0x80" for v z :: byte using that by auto
    have "utf8Char c = [of_nat (192 + a), of_nat (128 + b)]"
      using False by (simp add: utf8Char_def n_def [symmetric] a_def b_def Let_def del: of_nat_add)
    then show ?thesis using d [OF x y] n(2) by (simp only: append.simps u) (simp add: ab(3))
  qed
qed

lemma textDecode_textEncode: "textDecode (textEncode s) = s"
proof -
  have "utf8Decode (textEncode s) = s" by (induction s) (simp_all add: textEncode_def utf8Decode_utf8Char)
  moreover have "take 3 (textEncode s) \<noteq> [0xef, 0xbb, 0xbf]"
  proof (cases s)
    case (Cons c r)
    have "hd (utf8Char c) \<noteq> 0xef"
    proof -
      define n where "n = (of_char c :: nat)"
      have "n < 256" by (simp add: n_def)
      then have "n < 128 \<or> n div 64 = 2 \<or> n div 64 = 3" by auto
      then show ?thesis by (auto simp: utf8Char_def n_def [symmetric] Let_def byte_eq_iff unat_of_nat8)
    qed
    then show ?thesis using utf8Char_ne [of c] by (cases "utf8Char c") (auto simp: Cons textEncode_def)
  qed (simp add: textEncode_def)
  ultimately show ?thesis by (simp add: textDecode_def)
qed

lemma walletHexToBytes_even: "even (length s) \<Longrightarrow> walletHexToBytes s = hexPairs s"
  by (induction s rule: walletHexToBytes.induct) auto

lemma walletHexToBytes_bytesToHex [simp]: "walletHexToBytes (bytesToHex bs) = bs"
  by (simp add: walletHexToBytes_even hexPairs_bytesToHex)

lemma decrypt_encrypt:
  assumes "encryptPrivateKey pt p (Some c) salt nonce = Inr enc"
  shows "decryptPrivateKey (Some enc) q (Some c)
    = Inr (ae_decrypt c (ae_pbkdf2_sha256 c (textEncode q) salt PBKDF2_ITERATIONS) nonce
            (ae_encrypt c (ae_pbkdf2_sha256 c (textEncode p) salt PBKDF2_ITERATIONS) nonce pt))"
  using assms by (auto simp: encryptPrivateKey_def decryptPrivateKey_def Let_def PBKDF2_ITERATIONS_def)

section \<open>Lemmas: wallets that are ready\<close>

text \<open>What an unlocked wallet should be: a valid phrase, its key by the derivation in use, and the key's address.\<close>

definition isOk :: "'a result \<Rightarrow> bool" where
  "isOk r = (case r of Inl _ \<Rightarrow> False | Inr _ \<Rightarrow> True)"

definition keyOf :: "platform \<Rightarrow> bool \<Rightarrow> string \<Rightarrow> bytes result" where
  "keyOf pf legacy mnemonic =
    (if legacy then Inr (legacySeedToPrivateKey (legacyMnemonicToSeed mnemonic []))
     else mnemonicToPrivateKey (pf_subtle pf) mnemonic [])"

definition ready :: "platform \<Rightarrow> wallet \<Rightarrow> bool" where
  "ready pf w = (case (w_mnemonic w, w_privKey w, w_address w) of
     (Some m, Some k, Some a) \<Rightarrow>
       isOk (mnemonicToEntropy m) \<and> keyOf pf (w_usesLegacyDerivation w) m = Inr k \<and> deriveAddressFromPrivKey k (w_network w) = Inr a
   | _ \<Rightarrow> False)"

lemma isOk_iff: "isOk r \<longleftrightarrow> (\<exists>x. r = Inr x)"
  by (cases r) (simp_all add: isOk_def)

lemma readyE:
  assumes "ready pf w"
  obtains m e k a where "w_mnemonic w = Some m" "w_privKey w = Some k" "w_address w = Some a" "mnemonicToEntropy m = Inr e"
    "keyOf pf (w_usesLegacyDerivation w) m = Inr k" "deriveAddressFromPrivKey k (w_network w) = Inr a"
  using assms by (auto simp: ready_def isOk_iff split: option.splits)

lemma setDerived_Inr:
  assumes "setDerived k path w = (Inr u, w')"
  shows "\<exists>a. w' = w\<lparr>w_privKey := Some k, w_address := Some a, w_derivationPath := Some path\<rparr> \<and> deriveAddressFromPrivKey k (w_network w) = Inr a"
  using assms by (auto simp: setDerived_def Let_def split: sum.splits)

lemma deriveFromMnemonic_ready:
  assumes "deriveFromMnemonic pf w = (Inr u, w')" "w_mnemonic w = Some m" "isOk (mnemonicToEntropy m)"
  shows "ready pf (w'\<lparr>w_usesLegacyDerivation := False\<rparr>)"
  using assms by (auto simp: deriveFromMnemonic_def ready_def keyOf_def split: sum.splits dest!: setDerived_Inr)

lemma ready_update [simp]:
  "ready pf (w\<lparr>w_locked := b\<rparr>) = ready pf w" "ready pf (w\<lparr>w_needsDerivation := b\<rparr>) = ready pf w"
  by (simp_all add: ready_def split: option.splits)

lemma deriveLegacy_ready:
  assumes "deriveLegacyFromMnemonic w = (Inr u, w')" "w_mnemonic w = Some m" "isOk (mnemonicToEntropy m)"
  shows "ready pf (w'\<lparr>w_usesLegacyDerivation := True\<rparr>)"
  using assms by (auto simp: deriveLegacyFromMnemonic_def ready_def keyOf_def dest!: setDerived_Inr)

lemma entropyToMnemonic_ok: "length e = 16 \<or> length e = 32 \<Longrightarrow> isOk (mnemonicToEntropy (entropyToMnemonic e))"
  by (simp add: mnemonicToEntropy_entropyToMnemonic isOk_def)

lemma entropyToMnemonic_ne: "length e = 16 \<or> length e = 32 \<Longrightarrow> entropyToMnemonic e \<noteq> []"
proof
  assume "length e = 16 \<or> length e = 32" "entropyToMnemonic e = []"
  then have "mnemonicToEntropy [] = Inr e" using mnemonicToEntropy_entropyToMnemonic [of e] by simp
  then show False by (simp add: mnemonicToEntropy_def trim_def wordRuns.simps [of "[]"] Let_def)
qed

lemma accepted_ne: "mnemonicToEntropy m = Inr e \<Longrightarrow> m \<noteq> []"
  by (auto simp: mnemonicToEntropy_def trim_def wordRuns.simps [of "[]"] Let_def)

lemma wallet_create_ready:
  assumes "wallet_create pf rnd opts storage = Inr w" "\<not> wo_restore opts" "length (rnd 16) = 16" "length (rnd 32) = 32"
  shows "ready pf w" "\<not> w_locked w" "\<not> w_usesLegacyDerivation w"
proof -
  obtain v where v: "newWallet pf rnd opts storage = Inr v" and c: "(case wallet_init pf v of (Inl e, _) \<Rightarrow> Inl e | (Inr _, w) \<Rightarrow> Inr w) = Inr w"
    using assms(1) by (auto simp: wallet_create_def bindR_eq_Inr)
  have i: "wallet_init pf v = (Inr (), w)" using c by (cases "wallet_init pf v"; cases "fst (wallet_init pf v)") auto
  obtain m where m: "w_mnemonic v = Some m" "isOk (mnemonicToEntropy m)" and n: "w_needsDerivation v" "\<not> w_locked v" "\<not> w_usesLegacyDerivation v"
    using v assms(2-4) by (auto simp: newWallet_def Let_def orString_def bindR_eq_Inr isOk_iff mnemonicToEntropy_entropyToMnemonic
        split: if_splits option.splits)
  obtain w1 where d: "deriveFromMnemonic pf v = (Inr (), w1)" and w: "w = w1\<lparr>w_needsDerivation := False\<rparr>"
    using i n(1) by (auto simp: wallet_init_def split: prod.splits sum.splits)
  have l: "w_locked w1 = w_locked v" "w_usesLegacyDerivation w1 = w_usesLegacyDerivation v"
    using d m(1) by (auto simp: deriveFromMnemonic_def split: sum.splits dest!: setDerived_Inr)
  have e: "w1\<lparr>w_usesLegacyDerivation := False\<rparr> = w1" using n(3) l(2) by (cases w1) simp
  show "ready pf w" "\<not> w_locked w" "\<not> w_usesLegacyDerivation w" using deriveFromMnemonic_ready [OF d m, unfolded e] l n by (simp_all add: w)
qed

text \<open>An unlock that succeeds leaves a ready wallet, whatever the storage holds.\<close>

lemma checkStoredAddress_ready:
  assumes "checkStoredAddress stored w = (Inr True, w')" "ready pf w" "w_mnemonic w = Some m" "isOk (mnemonicToEntropy m)"
  shows "ready pf w' \<and> \<not> w_locked w'"
proof -
  consider "w' = w\<lparr>w_locked := False\<rparr>"
    | u w1 where "deriveLegacyFromMnemonic w = (Inr u, w1)" "w' = w1\<lparr>w_usesLegacyDerivation := True, w_locked := False\<rparr>"
    using assms(1) by (auto simp: checkStoredAddress_def orString_def split: option.splits if_splits prod.splits sum.splits)
  then show ?thesis
  proof cases
    case (2 u w1)
    then show ?thesis using deriveLegacy_ready [OF 2(1) assms(3,4), of pf] by simp
  qed (use assms(2) in simp)
qed

lemma wallet_unlock_ready:
  assumes "wallet_unlock pf p storage w = (Inr True, w')"
  shows "ready pf w' \<and> \<not> w_locked w'"
proof -
  obtain stored m e where s: "storage = Some stored" and m: "mnemonicToEntropy m = Inr e"
    and u: "(case deriveFromMnemonic pf (w\<lparr>w_network := orString (st_network stored) (w_network w) id, w_mnemonic := Some m\<rparr>) of
        (Inl e, w) \<Rightarrow> (Inl e, w) | (Inr _, w) \<Rightarrow> checkStoredAddress stored (w\<lparr>w_usesLegacyDerivation := False\<rparr>)) = (Inr True, w')"
    using assms by (auto simp: wallet_unlock_def Let_def split: option.splits if_splits sum.splits)
  obtain w1 where d: "deriveFromMnemonic pf (w\<lparr>w_network := orString (st_network stored) (w_network w) id, w_mnemonic := Some m\<rparr>) = (Inr (), w1)"
    and c: "checkStoredAddress stored (w1\<lparr>w_usesLegacyDerivation := False\<rparr>) = (Inr True, w')"
    using u by (auto split: prod.splits sum.splits)
  have "w_mnemonic w1 = Some m" using d by (auto simp: deriveFromMnemonic_def split: sum.splits dest!: setDerived_Inr)
  then show ?thesis
    using checkStoredAddress_ready [OF c deriveFromMnemonic_ready [OF d], of m m] m by (simp add: isOk_def)
qed

text \<open>Only success unlocks.\<close>

lemma setDerived_locked: "setDerived k path w = (r, w') \<Longrightarrow> w_locked w' = w_locked w"
  by (auto simp: setDerived_def Let_def split: sum.splits)

lemma deriveFromMnemonic_locked: "deriveFromMnemonic pf w = (r, w') \<Longrightarrow> w_locked w' = w_locked w"
  by (auto simp: deriveFromMnemonic_def split: option.splits sum.splits dest: setDerived_locked)

lemma deriveLegacy_locked: "deriveLegacyFromMnemonic w = (r, w') \<Longrightarrow> w_locked w' = w_locked w"
  by (auto simp: deriveLegacyFromMnemonic_def split: option.splits dest: setDerived_locked)

lemma wallet_unlock_locked:
  assumes "wallet_unlock pf p storage w = (r, w')" "r \<noteq> Inr True"
  shows "w_locked w' = w_locked w"
  using assms
  by (auto simp: wallet_unlock_def checkStoredAddress_def orString_def Let_def split: option.splits if_splits sum.splits prod.splits
      dest!: deriveFromMnemonic_locked deriveLegacy_locked)


end
