(* ===== verification/Session.thy ===== *)
theory Session
  imports Wallet
begin

text \<open>
  The handlers of \<^verbatim>\<open>contrib/uap-web/app.js\<close> that create, restore, lock and unlock the wallet, as a
  state machine over the page's globals: the storage, the wallet object, the screen and the error line.
  Every handler runs only from the screen that shows its button, and runs to its end.

  Shows that in every state reached, whatever is put into the storage in between, an unlocked wallet
  holds a valid phrase, the key derived from it and the key's address, and the wallet screens show
  only unlocked wallets; that unlocking gives back what was locked; and two departures from the
  comments: the lock button leaves the phrase in memory, and white space in a phrase changes the key.
\<close>

section \<open>Model\<close>

record session =
  se_storage :: storage
  se_wallet :: "wallet option"
  se_screen :: string
  se_error :: string

definition initialSession :: session where
  "initialSession = \<lparr>se_storage = None, se_wallet = None, se_screen = ''init'', se_error = []\<rparr>"

text \<open>A handler without \<^verbatim>\<open>try\<close> that throws leaves everything as it was.\<close>

definition createNewWallet :: "platform \<Rightarrow> (nat \<Rightarrow> bytes) \<Rightarrow> session \<Rightarrow> session" where
  "createNewWallet pf rnd s =
    (case wallet_create pf rnd defaultOptions (se_storage s) of
       Inl _ \<Rightarrow> s
     | Inr w \<Rightarrow> s\<lparr>se_wallet := Some w, se_screen := ''create''\<rparr>)"

definition restoreWallet :: "session \<Rightarrow> session" where
  "restoreWallet s = s\<lparr>se_screen := ''restore''\<rparr>"

definition goToInit :: "session \<Rightarrow> session" where
  "goToInit s = s\<lparr>se_wallet := None, se_screen := ''init''\<rparr>"

text \<open>The button of the migration screen, and \<^verbatim>\<open>renderCreate\<close>, which makes a wallet when there is none.\<close>

definition migrateToNew :: "platform \<Rightarrow> (nat \<Rightarrow> bytes) \<Rightarrow> session \<Rightarrow> session" where
  "migrateToNew pf rnd s =
    (let s = s\<lparr>se_screen := ''create'', se_wallet := None\<rparr> in
     case wallet_create pf rnd defaultOptions (se_storage s) of
       Inl _ \<Rightarrow> s
     | Inr w \<Rightarrow> s\<lparr>se_wallet := Some w\<rparr>)"

definition lockAndShow :: "string \<Rightarrow> bytes \<Rightarrow> bytes \<Rightarrow> wallet \<Rightarrow> session \<Rightarrow> session" where
  "lockAndShow passphrase salt nonce w s =
    (case wallet_lock passphrase salt nonce (se_storage s) w of
       (Inl e, storage, w) \<Rightarrow> s\<lparr>se_storage := storage, se_wallet := Some w, se_error := e\<rparr>
     | (Inr _, storage, w) \<Rightarrow> s\<lparr>se_storage := storage, se_wallet := Some w, se_screen := ''unlock''\<rparr>)"

definition finishWalletSetup :: "string \<Rightarrow> bytes \<Rightarrow> bytes \<Rightarrow> session \<Rightarrow> session" where
  "finishWalletSetup passphrase salt nonce s =
    (case se_wallet s of
       None \<Rightarrow> s\<lparr>se_error := ''TypeError''\<rparr>
     | Some w \<Rightarrow> lockAndShow passphrase salt nonce w s)"

definition doRestore :: "platform \<Rightarrow> (nat \<Rightarrow> bytes) \<Rightarrow> string \<Rightarrow> string \<Rightarrow> bytes \<Rightarrow> bytes \<Rightarrow> session \<Rightarrow> session" where
  "doRestore pf rnd mnemonicInput passphrase salt nonce s =
    (let mnemonic = trim mnemonicInput in
     case wallet_create pf rnd (defaultOptions\<lparr>wo_mnemonic := Some mnemonic\<rparr>) (se_storage s) of
       Inl e \<Rightarrow> s\<lparr>se_error := e\<rparr>
     | Inr w \<Rightarrow> lockAndShow passphrase salt nonce w s)"

definition unlockWith :: "platform \<Rightarrow> string \<Rightarrow> wallet \<Rightarrow> session \<Rightarrow> session" where
  "unlockWith pf passphrase w s =
    (case wallet_unlock pf passphrase (se_storage s) w of
       (Inl e, w) \<Rightarrow> s\<lparr>se_wallet := Some w, se_error := e\<rparr>
     | (Inr ok, w) \<Rightarrow>
       if ok then s\<lparr>se_wallet := Some w, se_screen := ''wallet''\<rparr>
       else s\<lparr>se_wallet := Some w, se_error := ''Wrong passphrase''\<rparr>)"

definition doUnlock :: "platform \<Rightarrow> (nat \<Rightarrow> bytes) \<Rightarrow> string \<Rightarrow> session \<Rightarrow> session" where
  "doUnlock pf rnd passphrase s =
    (case se_wallet s of
       Some w \<Rightarrow> unlockWith pf passphrase w s
     | None \<Rightarrow>
       if se_storage s = None then s\<lparr>se_error := ''No wallet in storage''\<rparr>
       else case newWallet pf rnd (defaultOptions\<lparr>wo_restore := True\<rparr>) (se_storage s) of
         Inl e \<Rightarrow> s\<lparr>se_error := e\<rparr>
       | Inr w \<Rightarrow> unlockWith pf passphrase w s)"

definition lockWallet :: "session \<Rightarrow> session" where
  "lockWallet s =
    (case se_wallet s of
       None \<Rightarrow> s
     | Some w \<Rightarrow> s\<lparr>se_wallet := Some (w\<lparr>w_privKey := None, w_locked := True\<rparr>), se_screen := ''unlock''\<rparr>)"

text \<open>\<^verbatim>\<open>goTo\<close>: the screens of an open wallet link to each other.\<close>

definition outerScreens :: "string list" where
  "outerScreens = [''init'', ''create'', ''restore'', ''unlock'']"

definition goTo :: "string \<Rightarrow> session \<Rightarrow> session" where
  "goTo screen s = s\<lparr>se_screen := screen\<rparr>"

text \<open>
  The states of a page whose random source gives as many bytes as asked for. The last rule is anyone
  else with access to the storage, who may put anything there.
\<close>

inductive reached :: "platform \<Rightarrow> session \<Rightarrow> bool" for pf :: platform where
  start: "reached pf initialSession"
| create: "reached pf s \<Longrightarrow> se_screen s = ''init'' \<Longrightarrow> \<forall>n. length (rnd n) = n \<Longrightarrow> reached pf (createNewWallet pf rnd s)"
| toRestore: "reached pf s \<Longrightarrow> se_screen s = ''init'' \<Longrightarrow> reached pf (restoreWallet s)"
| toInit: "reached pf s \<Longrightarrow> reached pf (goToInit s)"
| migrate: "reached pf s \<Longrightarrow> se_screen s = ''migrate'' \<Longrightarrow> \<forall>n. length (rnd n) = n \<Longrightarrow> reached pf (migrateToNew pf rnd s)"
| finish: "reached pf s \<Longrightarrow> se_screen s = ''create'' \<Longrightarrow> reached pf (finishWalletSetup passphrase salt nonce s)"
| restore: "reached pf s \<Longrightarrow> se_screen s = ''restore'' \<Longrightarrow> \<forall>n. length (rnd n) = n
    \<Longrightarrow> reached pf (doRestore pf rnd mnemonicInput passphrase salt nonce s)"
| unlock: "reached pf s \<Longrightarrow> se_screen s = ''unlock'' \<Longrightarrow> reached pf (doUnlock pf rnd passphrase s)"
| lock: "reached pf s \<Longrightarrow> se_screen s = ''wallet'' \<Longrightarrow> reached pf (lockWallet s)"
| go: "reached pf s \<Longrightarrow> se_screen s \<notin> set outerScreens \<Longrightarrow> screen \<notin> set outerScreens \<Longrightarrow> reached pf (goTo screen s)"
| tamper: "reached pf s \<Longrightarrow> reached pf (s\<lparr>se_storage := anything\<rparr>)"

section \<open>Lemmas: the invariant\<close>

definition walletOk :: "platform \<Rightarrow> wallet \<Rightarrow> bool" where
  "walletOk pf w = (w_locked w \<or> ready pf w)"

definition sessionOk :: "platform \<Rightarrow> session \<Rightarrow> bool" where
  "sessionOk pf s = (case se_wallet s of
      None \<Rightarrow> se_screen s \<in> set outerScreens
    | Some w \<Rightarrow> walletOk pf w \<and> (w_locked w \<longleftrightarrow> se_screen s = ''unlock''))"

lemma sessionOk_None: "se_wallet s = None \<Longrightarrow> sessionOk pf s = (se_screen s \<in> set outerScreens)"
  by (simp add: sessionOk_def)

lemma wallet_lock_cases:
  assumes "wallet_lock p salt nonce st w = (r, st', w')"
  shows "(\<exists>e. r = Inl e \<and> st' = st \<and> w' = w) \<or> (r = Inr () \<and> w' = w\<lparr>w_privKey := None, w_mnemonic := None, w_locked := True\<rparr>)"
  using assms by (auto simp: wallet_lock_def orString_def split: option.splits if_splits sum.splits)

lemma lockAndShow_ok:
  assumes "ready pf w" "\<not> w_locked w" "se_screen s \<in> {''create'', ''restore''}"
  shows "sessionOk pf (lockAndShow p salt nonce w s)"
proof -
  obtain r st' w' where l: "wallet_lock p salt nonce (se_storage s) w = (r, st', w')" by (cases "wallet_lock p salt nonce (se_storage s) w") auto
  from wallet_lock_cases [OF l] show ?thesis
    using assms by (auto simp: lockAndShow_def l sessionOk_def walletOk_def outerScreens_def)
qed

lemma unlockWith_ok:
  assumes "w_locked w" "se_screen s = ''unlock''"
  shows "sessionOk pf (unlockWith pf p w s)"
proof -
  obtain r w' where u: "wallet_unlock pf p (se_storage s) w = (r, w')" by (cases "wallet_unlock pf p (se_storage s) w") auto
  show ?thesis
  proof (cases "r = Inr True")
    case True
    then show ?thesis using wallet_unlock_ready [of pf p "se_storage s" w w'] u
      by (simp add: unlockWith_def sessionOk_def walletOk_def)
  next
    case False
    then have "w_locked w'" using wallet_unlock_locked [OF u] assms(1) by simp
    with False assms(2) show ?thesis by (cases r) (auto simp: unlockWith_def u sessionOk_def walletOk_def outerScreens_def)
  qed
qed

lemma newWallet_restore_locked:
  "newWallet pf rnd (defaultOptions\<lparr>wo_restore := True\<rparr>) st = Inr w \<Longrightarrow> w_locked w"
  by (auto simp: newWallet_def defaultOptions_def Let_def split: if_splits option.splits)

lemma createNewWallet_ok:
  assumes "sessionOk pf s" "se_screen s = ''init''" "\<forall>n. length (rnd n) = n"
  shows "sessionOk pf (createNewWallet pf rnd s)"
  using assms wallet_create_ready [of pf rnd defaultOptions "se_storage s"]
  by (auto simp: createNewWallet_def sessionOk_def walletOk_def defaultOptions_def split: sum.splits)

lemma migrateToNew_ok:
  assumes "\<forall>n. length (rnd n) = n"
  shows "sessionOk pf (migrateToNew pf rnd s)"
  using assms wallet_create_ready [of pf rnd defaultOptions "se_storage s"]
  by (auto simp: migrateToNew_def sessionOk_def walletOk_def defaultOptions_def outerScreens_def Let_def split: sum.splits)

lemma finishWalletSetup_ok:
  assumes "sessionOk pf s" "se_screen s = ''create''"
  shows "sessionOk pf (finishWalletSetup p salt nonce s)"
proof (cases "se_wallet s")
  case (Some w)
  then have "ready pf w" "\<not> w_locked w" using assms by (auto simp: sessionOk_def walletOk_def)
  with Some assms(2) show ?thesis by (simp add: finishWalletSetup_def lockAndShow_ok)
qed (use assms in \<open>auto simp: finishWalletSetup_def sessionOk_def\<close>)

lemma doRestore_ok:
  assumes "sessionOk pf s" "se_screen s = ''restore''" "\<forall>n. length (rnd n) = n"
  shows "sessionOk pf (doRestore pf rnd m p salt nonce s)"
proof (cases "wallet_create pf rnd (defaultOptions\<lparr>wo_mnemonic := Some (trim m)\<rparr>) (se_storage s)")
  case (Inr w)
  then have "ready pf w" "\<not> w_locked w" using wallet_create_ready [OF Inr] assms(3) by (simp_all add: defaultOptions_def)
  with Inr assms(2) show ?thesis by (simp add: doRestore_def Let_def lockAndShow_ok)
qed (use assms in \<open>auto simp: doRestore_def sessionOk_def split: option.splits\<close>)

lemma doUnlock_ok:
  assumes "sessionOk pf s" "se_screen s = ''unlock''"
  shows "sessionOk pf (doUnlock pf rnd p s)"
proof (cases "se_wallet s")
  case None
  then show ?thesis using assms
    by (auto simp: doUnlock_def sessionOk_None unlockWith_ok newWallet_restore_locked outerScreens_def split: sum.split)
next
  case (Some w)
  then have "w_locked w" using assms by (auto simp: sessionOk_def)
  with Some assms show ?thesis by (simp add: doUnlock_def unlockWith_ok)
qed

lemma reached_ok: "reached pf s \<Longrightarrow> sessionOk pf s"
proof (induction rule: reached.induct)
  case (lock s)
  then show ?case by (auto simp: lockWallet_def sessionOk_def walletOk_def split: option.splits)
next
  case (go s screen)
  then show ?case by (auto simp: goTo_def sessionOk_def outerScreens_def split: option.splits)
qed (simp_all add: createNewWallet_ok migrateToNew_ok finishWalletSetup_ok doRestore_ok doUnlock_ok,
     auto simp: sessionOk_def initialSession_def restoreWallet_def goToInit_def outerScreens_def split: option.splits)

section \<open>Lemmas: a platform to compute with\<close>

text \<open>
  Stand-ins with the documented laws, for concrete instances: the stretched seed is the phrase, the master
  scalar is a function of the seed and the children keep it; the cipher appends its key and checks it.
\<close>

definition sampleSubtle :: "(bytes \<Rightarrow> int) \<Rightarrow> subtle_crypto" where
  "sampleSubtle g = \<lparr>sc_pbkdf2_sha512 = (\<lambda>p s n. p),
     sc_hmac_sha512 = (\<lambda>k d. if k = textEncode ''Bitcoin seed'' then bigIntTo32Bytes (g d) @ replicate 32 0 else replicate 64 0),
     sc_nfkd = (\<lambda>s. s)\<rparr>"

definition sampleAead :: aead where
  "sampleAead = \<lparr>ae_pbkdf2_sha256 = (\<lambda>p s n. p), ae_encrypt = (\<lambda>k iv pt. pt @ k),
     ae_decrypt = (\<lambda>k iv ct. if length k \<le> length ct \<and> drop (length ct - length k) ct = k then Some (take (length ct - length k) ct) else None)\<rparr>"

definition samplePlatform :: platform where
  "samplePlatform = \<lparr>pf_subtle = Some (sampleSubtle (\<lambda>_. 1)), pf_aead = Some sampleAead\<rparr>"

lemma bytesToBigInt_zeros: "bytesToBigInt (replicate n 0) = 0"
  by (induction n) (simp_all add: bytesToBigInt_def)

lemma sampleSubtle_step:
  assumes "0 < v" "v < BIP32_N" "i \<in> {0, 3}"
  shows "deriveHardened (Some (sampleSubtle g)) \<lparr>xk_key = bigIntTo32Bytes v, xk_chainCode = replicate 32 0\<rparr> i
    = Inr \<lparr>xk_key = bigIntTo32Bytes v, xk_chainCode = replicate 32 0\<rparr>"
proof -
  have l: "length (textEncode ''Bitcoin seed'') = 12" by code_simp
  have ne: "replicate 32 0 \<noteq> textEncode ''Bitcoin seed''"
  proof
    assume "replicate 32 0 = textEncode ''Bitcoin seed''"
    from arg_cong [OF this, of length] show False unfolding l by simp
  qed
  have h: "sc_hmac_sha512 (sampleSubtle g) (replicate 32 0) d = replicate 64 0" for d
    unfolding sampleSubtle_def by (simp only: subtle_crypto.simps if_not_P [OF ne])
  have s: "slice (replicate 64 (0 :: byte)) 0 32 = replicate 32 0" "slice (replicate 64 (0 :: byte)) 32 32 = replicate 32 0" by (simp_all add: slice_def)
  have b: "bytesToBigInt (bigIntTo32Bytes v) = v" using bigIntTo32Bytes_scalar [OF assms(1,2)] by (simp add: bytesToBigInt_eq)
  have i: "\<not> (i < 0 \<or> i \<ge> HARDENED)" "\<not> 0 \<ge> BIP32_N" "(0 + v) mod BIP32_N = v" "v \<noteq> 0"
    using assms by (auto simp: HARDENED_def BIP32_N_def)
  show ?thesis
    unfolding deriveHardened_def hmacSha512_def subtle_def Let_def
    by (simp only: if_not_P [OF i(1)] option.simps bindR_simps ext_key.simps h s b bytesToBigInt_zeros if_not_P [OF i(2)] i(3) if_not_P [OF i(4)])
qed

lemma sampleSubtle_key:
  assumes "0 < g (textEncode m)" "g (textEncode m) < BIP32_N"
  shows "mnemonicToPrivateKey (Some (sampleSubtle g)) m [] = Inr (bigIntTo32Bytes (g (textEncode m)))"
proof -
  let ?v = "g (textEncode m)" and ?node = "\<lparr>xk_key = bigIntTo32Bytes (g (textEncode m)), xk_chainCode = replicate 32 (0 :: byte)\<rparr>"
  have l: "length (bigIntTo32Bytes ?v) = 32" "bytesToBigInt (bigIntTo32Bytes ?v) = ?v" using bigIntTo32Bytes_scalar [OF assms] by (simp_all add: bytesToBigInt_eq)
  have "masterKeyFromSeed (Some (sampleSubtle g)) (textEncode m) = Inr ?node"
    using l assms by (simp add: masterKeyFromSeed_def hmacSha512_def subtle_def sampleSubtle_def slice_def Let_def)
  moreover have "mnemonicToSeed (Some (sampleSubtle g)) m [] = Inr (textEncode m)" by (simp add: mnemonicToSeed_def subtle_def sampleSubtle_def)
  moreover have "deriveSteps (Some (sampleSubtle g)) ?node WHIPPET_KEY_INDICES = Inr ?node"
    using sampleSubtle_step [OF assms, of 0] sampleSubtle_step [OF assms, of 3] by (simp add: WHIPPET_KEY_INDICES_def)
  ultimately show ?thesis by (simp add: mnemonicToPrivateKey_def derivePath_def)
qed

lemma sampleAead_law: "ae_decrypt sampleAead k iv (ae_encrypt sampleAead k iv pt) = Some pt"
  by (simp add: sampleAead_def)

definition sampleKey :: bytes where
  "sampleKey = bigIntTo32Bytes 1"

definition sampleAddress :: string where
  "sampleAddress = pubkeyToAddress (getPrefix CURVE_Gy @ beBytes 32 (nat CURVE_Gx)) 0x49"

lemma sample_key: "mnemonicToPrivateKey (pf_subtle samplePlatform) m [] = Inr sampleKey"
  by (simp add: samplePlatform_def sampleKey_def sampleSubtle_key BIP32_N_def)

lemma sample_address: "deriveAddressFromPrivKey sampleKey ''mainnet'' = Inr sampleAddress"
proof -
  have s: "length sampleKey = 32" "bytesToNumBE sampleKey = 1" unfolding sampleKey_def using bigIntTo32Bytes_scalar [of 1] by (simp_all add: BIP32_N_def)
  have "toPrivScalar sampleKey = Inr 1" using s by (simp add: toPrivScalar_def abytes_def arange_def CURVE_N_def)
  moreover have "Point_multiply Point_BASE 1 True = Inr Point_BASE" by (simp add: Point_multiply_def agroup_def arange_def CURVE_N_def)
  moreover have "Point_toBytes Point_BASE True = Inr (getPrefix CURVE_Gy @ beBytes 32 (nat CURVE_Gx))"
    unfolding Point_BASE_def by (rule toBytes_one(1)) (use base_range base_on_curve in auto)
  ultimately show ?thesis
    by (simp add: deriveAddressFromPrivKey_def getPublicKeyFromPrivateKey_def getPublicKey_def networkOf_def sampleAddress_def)
qed

section \<open>Lemmas: unlocking what was locked\<close>

lemma networkOf_ne: "deriveAddressFromPrivKey k n = Inr a \<Longrightarrow> n \<noteq> []"
  by (auto simp: deriveAddressFromPrivKey_def networkOf_def bindR_eq_Inr split: option.splits)

text \<open>What the storage holds after \<^verbatim>\<open>lock\<close>.\<close>

definition lockedEntry :: "aead \<Rightarrow> string \<Rightarrow> string \<Rightarrow> bytes \<Rightarrow> bytes \<Rightarrow> string option \<Rightarrow> string \<Rightarrow> stored \<Rightarrow> bool" where
  "lockedEntry c m p salt nonce a n st =
    (case st_encrypted st of
       None \<Rightarrow> False
     | Some enc \<Rightarrow> encryptPrivateKey (textEncode m) p (Some c) salt nonce = Inr enc \<and> st_address st = a \<and> st_network st = Some n)"

lemma wallet_lock_entry:
  assumes "w_mnemonic w = Some m" "m \<noteq> []" "w_cryptoSubtle w = Some c" "p \<noteq> []"
  shows "\<exists>st. wallet_lock p salt nonce st0 w = (Inr (), Some st, w\<lparr>w_privKey := None, w_mnemonic := None, w_locked := True\<rparr>)
    \<and> lockedEntry c m p salt nonce (w_address w) (w_network w) st"
proof -
  obtain enc where e: "encryptPrivateKey (textEncode m) p (Some c) salt nonce = Inr enc" by (simp add: encryptPrivateKey_def Let_def)
  show ?thesis using assms by (simp add: wallet_lock_def orString_def e lockedEntry_def)
qed

lemma unlock_entry:
  assumes st: "lockedEntry c m p salt nonce (Some a) n st" and c: "w_cryptoSubtle v = Some c"
    and law: "\<And>k iv pt. ae_decrypt c k iv (ae_encrypt c k iv pt) = Some pt"
    and m: "mnemonicToEntropy m = Inr e" and k: "mnemonicToPrivateKey (pf_subtle pf) m [] = Inr k"
    and a: "deriveAddressFromPrivKey k n = Inr a"
  shows "wallet_unlock pf p (Some st) v = (Inr True,
    v\<lparr>w_network := n, w_mnemonic := Some m, w_privKey := Some k, w_address := Some a, w_derivationPath := Some WHIPPET_KEY_PATH,
      w_usesLegacyDerivation := False, w_locked := False\<rparr>)"
proof -
  obtain enc where e: "st_encrypted st = Some enc" "encryptPrivateKey (textEncode m) p (Some c) salt nonce = Inr enc" "st_address st = Some a" "st_network st = Some n"
    using st by (auto simp: lockedEntry_def split: option.splits)
  have d: "decryptPrivateKey (Some enc) p (Some c) = Inr (Some (textEncode m))" by (simp add: decrypt_encrypt [OF e(2)] law)
  show ?thesis
    using networkOf_ne [OF a]
    by (simp add: wallet_unlock_def e(1,3,4) c d textDecode_textEncode m orString_def deriveFromMnemonic_def k setDerived_def a checkStoredAddress_def Let_def)
qed

lemma unlock_entry_wrong:
  assumes st: "lockedEntry c m p salt nonce a n st" and c: "w_cryptoSubtle v = Some c"
    and wrong: "ae_decrypt c (ae_pbkdf2_sha256 c (textEncode q) salt PBKDF2_ITERATIONS) nonce
      (ae_encrypt c (ae_pbkdf2_sha256 c (textEncode p) salt PBKDF2_ITERATIONS) nonce (textEncode m)) = None"
  shows "wallet_unlock pf q (Some st) v = (Inr False, v)"
proof -
  obtain enc where e: "st_encrypted st = Some enc" "encryptPrivateKey (textEncode m) p (Some c) salt nonce = Inr enc"
    using st by (auto simp: lockedEntry_def split: option.splits)
  show ?thesis by (simp add: wallet_unlock_def e(1) c decrypt_encrypt [OF e(2)] wrong)
qed

lemma restored_entry:
  assumes "lockedEntry c m p salt nonce a n st" "pf_aead pf = Some c"
  shows "\<exists>v. newWallet pf rnd (defaultOptions\<lparr>wo_restore := True\<rparr>) (Some st) = Inr v \<and> w_cryptoSubtle v = Some c"
  using assms by (auto simp: lockedEntry_def newWallet_def defaultOptions_def Let_def split: option.splits)

text \<open>A page on the sample platform: a wallet made from zero entropy, set up with a passphrase and unlocked again.\<close>

definition sampleRandom :: "nat \<Rightarrow> bytes" where
  "sampleRandom n = replicate n 0"

definition samplePhrase :: string where
  "samplePhrase = entropyToMnemonic (replicate 16 0)"

definition sampleWallet :: wallet where
  "sampleWallet = \<lparr>w_network = ''mainnet'', w_cryptoSubtle = Some sampleAead, w_privKey = Some sampleKey, w_address = Some sampleAddress,
     w_mnemonic = Some samplePhrase, w_locked = False, w_needsDerivation = False, w_derivationPath = Some WHIPPET_KEY_PATH,
     w_usesLegacyDerivation = False\<rparr>"

definition sampleCreated :: session where
  "sampleCreated = createNewWallet samplePlatform sampleRandom initialSession"

definition sampleOpen :: session where
  "sampleOpen = doUnlock samplePlatform sampleRandom ''pw'' (finishWalletSetup ''pw'' [] [] sampleCreated)"

lemma sample_create: "wallet_create samplePlatform sampleRandom defaultOptions st = Inr sampleWallet"
  using sample_key [of samplePhrase] sample_address
  by (simp add: wallet_create_def newWallet_def defaultOptions_def orString_def Let_def wallet_init_def deriveFromMnemonic_def setDerived_def
      samplePhrase_def [symmetric] sampleRandom_def sampleWallet_def) (simp add: samplePlatform_def)

lemma sample_phrase: "mnemonicToEntropy samplePhrase = Inr (replicate 16 0)"
  unfolding samplePhrase_def by (rule mnemonicToEntropy_entropyToMnemonic) simp

lemma sampleWallet_ready: "ready samplePlatform sampleWallet"
  using sample_key [of samplePhrase] sample_address sample_phrase by (simp add: ready_def sampleWallet_def isOk_def keyOf_def)

lemma sampleCreated_eq: "sampleCreated = initialSession\<lparr>se_wallet := Some sampleWallet, se_screen := ''create''\<rparr>"
  by (simp add: sampleCreated_def createNewWallet_def sample_create)

lemma sampleOpen_screen: "se_screen sampleOpen = ''wallet''"
proof -
  define w1 where "w1 = sampleWallet\<lparr>w_privKey := None, w_mnemonic := None, w_locked := True\<rparr>"
  obtain st where l: "wallet_lock ''pw'' [] [] None sampleWallet = (Inr (), Some st, w1)"
    and st: "lockedEntry sampleAead samplePhrase ''pw'' [] [] (Some sampleAddress) ''mainnet'' st"
    using wallet_lock_entry [of sampleWallet samplePhrase sampleAead "''pw''" "[]" "[]" None] accepted_ne [OF sample_phrase]
    unfolding w1_def by (auto simp: sampleWallet_def)
  have c: "w_cryptoSubtle w1 = Some sampleAead" by (simp add: w1_def sampleWallet_def)
  note u = unlock_entry [OF st c sampleAead_law sample_phrase sample_key [of samplePhrase] sample_address]
  have "finishWalletSetup ''pw'' [] [] sampleCreated = sampleCreated\<lparr>se_storage := Some st, se_wallet := Some w1, se_screen := ''unlock''\<rparr>"
    by (simp add: finishWalletSetup_def sampleCreated_eq lockAndShow_def initialSession_def l)
  then show ?thesis by (simp add: sampleOpen_def doUnlock_def unlockWith_def u)
qed

lemma sampleOpen_reached: "reached samplePlatform sampleOpen"
proof -
  have r: "\<forall>n. length (sampleRandom n) = n" by (simp add: sampleRandom_def)
  have c: "reached samplePlatform sampleCreated" unfolding sampleCreated_def by (rule reached.create [OF reached.start _ r]) (simp add: initialSession_def)
  have f: "reached samplePlatform (finishWalletSetup ''pw'' [] [] sampleCreated)" by (rule reached.finish [OF c]) (simp add: sampleCreated_eq)
  show ?thesis
  proof (cases "se_screen (finishWalletSetup ''pw'' [] [] sampleCreated) = ''unlock''")
    case True
    then show ?thesis unfolding sampleOpen_def by (rule reached.unlock [OF f])
  next
    case False
    have "wallet_lock ''pw'' [] [] None sampleWallet = (Inr (), r) \<Longrightarrow> False" for r
      using False by (cases r) (simp add: finishWalletSetup_def sampleCreated_eq lockAndShow_def initialSession_def)
    moreover obtain st w' where "wallet_lock ''pw'' [] [] None sampleWallet = (Inr (), Some st, w')"
      using wallet_lock_entry [of sampleWallet samplePhrase sampleAead "''pw''" "[]" "[]" None] accepted_ne [OF sample_phrase]
      by (auto simp: sampleWallet_def)
    ultimately show ?thesis by blast
  qed
qed

section \<open>Lemmas: white space\<close>

lemma phrase_words:
  assumes "length e = 16 \<or> length e = 32"
  shows "\<exists>w ws. entropyToMnemonic e = joinWords (w # ws) \<and> list_all isWord (w # ws) \<and> ws \<noteq> []"
proof -
  obtain n :: nat where n: "length (phraseBits e) = n * 11" "2 \<le> n" using assms length_phraseBits [of e] that [of 12] that [of 24] by auto
  define ps where "ps = map (\<lambda>c. WORDLIST ! parseBits c) (bitChunks 11 (phraseBits e))"
  have "2 \<le> length ps" "list_all isWord ps" using chunks_words(3,4) [OF n(1)] n(2) by (simp_all add: ps_def)
  then obtain w ws where "ps = w # ws" "ws \<noteq> []" by (cases ps; cases "tl ps") auto
  then show ?thesis using \<open>list_all isWord ps\<close> by (intro exI [of _ w] exI [of _ ws]) (simp add: entropyToMnemonic_bits ps_def [symmetric])
qed

lemma spaced_words:
  assumes "isWord w" "list_all isWord ws" "ws \<noteq> []"
  shows "trim (w @ '' '' @ '' '' @ joinWords ws) = w @ '' '' @ '' '' @ joinWords ws"
    and "wordRuns (w @ '' '' @ '' '' @ joinWords ws) = w # ws"
proof -
  obtain s c where "joinWords ws = s @ [c]" "\<not> isSpace c" using joinWords_rev [OF assms(3,2)] by auto
  then show "trim (w @ '' '' @ '' '' @ joinWords ws) = w @ '' '' @ '' '' @ joinWords ws"
    unfolding trim_def isWord_runs(3) [OF assms(1)] by simp
  obtain v vs where ws: "ws = v # vs" using assms(3) by (cases ws) auto
  have "dropWhile isSpace (joinWords ws) = joinWords ws" using assms(2) joinWords_hd [of v vs] by (simp add: ws)
  then show "wordRuns (w @ '' '' @ '' '' @ joinWords ws) = w # ws"
    using assms by (subst wordRuns.simps) (simp add: isWord_runs space_isSpace Let_def wordRuns_joinWords)
qed

section \<open>Properties\<close>



text \<open>C5: Unlocking gives back what was locked. Let the cipher decrypt what it encrypts. A ready wallet that is
  not a legacy one is locked with any non-empty passphrase: the object then holds neither phrase nor key.
  Unlocking with the same passphrase succeeds on this object, and on an object restored from the
  storage, with the phrase, key, address and network of before; and a passphrase for which
  decryption fails is answered with false and changes nothing.\<close>

theorem unlock_restores_locked_wallet:
  assumes "ready pf w" "\<not> w_usesLegacyDerivation w" "w_cryptoSubtle w = Some c" "pf_aead pf = Some c" "p \<noteq> []"
    and "\<forall>k iv pt. ae_decrypt c k iv (ae_encrypt c k iv pt) = Some pt"
  shows "\<exists>st w1 v w2 v2 m. wallet_lock p salt nonce st0 w = (Inr (), Some st, w1) \<and> w_locked w1 \<and> w_mnemonic w1 = None \<and> w_privKey w1 = None
    \<and> newWallet pf rnd (defaultOptions\<lparr>wo_restore := True\<rparr>) (Some st) = Inr v
    \<and> wallet_unlock pf p (Some st) w1 = (Inr True, w2) \<and> wallet_unlock pf p (Some st) v = (Inr True, v2)
    \<and> list_all (\<lambda>u. w_mnemonic u = w_mnemonic w \<and> w_privKey u = w_privKey w \<and> w_address u = w_address w \<and> w_network u = w_network w
        \<and> \<not> w_locked u) [w2, v2]
    \<and> w_mnemonic w = Some m
    \<and> (ae_decrypt c (ae_pbkdf2_sha256 c (textEncode q) salt PBKDF2_ITERATIONS) nonce
         (ae_encrypt c (ae_pbkdf2_sha256 c (textEncode p) salt PBKDF2_ITERATIONS) nonce (textEncode m)) = None
       \<longrightarrow> wallet_unlock pf q (Some st) w1 = (Inr False, w1))"
proof -
  obtain m e k a where w: "w_mnemonic w = Some m" "w_privKey w = Some k" "w_address w = Some a" and m: "mnemonicToEntropy m = Inr e"
    and k: "mnemonicToPrivateKey (pf_subtle pf) m [] = Inr k" and a: "deriveAddressFromPrivKey k (w_network w) = Inr a"
    using assms(1,2) by (elim readyE) (simp add: keyOf_def)
  define w1 where "w1 = w\<lparr>w_privKey := None, w_mnemonic := None, w_locked := True\<rparr>"
  have w1: "w_cryptoSubtle w1 = Some c" using assms(3) by (simp add: w1_def)
  obtain st where l: "wallet_lock p salt nonce st0 w = (Inr (), Some st, w1)" and st: "lockedEntry c m p salt nonce (Some a) (w_network w) st"
    using wallet_lock_entry [OF w(1) accepted_ne [OF m] assms(3,5), of salt nonce st0] w(3) unfolding w1_def by auto
  obtain v where v: "newWallet pf rnd (defaultOptions\<lparr>wo_restore := True\<rparr>) (Some st) = Inr v" "w_cryptoSubtle v = Some c"
    using restored_entry [OF st assms(4), of rnd] by auto
  have law: "ae_decrypt c k iv (ae_encrypt c k iv pt) = Some pt" for k iv pt using assms(6) by blast
  define opened where "opened = (\<lambda>x :: wallet. x\<lparr>w_network := w_network w, w_mnemonic := Some m, w_privKey := Some k, w_address := Some a,
    w_derivationPath := Some WHIPPET_KEY_PATH, w_usesLegacyDerivation := False, w_locked := False\<rparr>)"
  have u: "wallet_unlock pf p (Some st) w1 = (Inr True, opened w1)" "wallet_unlock pf p (Some st) v = (Inr True, opened v)"
    unfolding opened_def by (rule unlock_entry [OF st w1 law m k a]) (rule unlock_entry [OF st v(2) law m k a])
  have o: "list_all (\<lambda>u. w_mnemonic u = w_mnemonic w \<and> w_privKey u = w_privKey w \<and> w_address u = w_address w
      \<and> w_network u = w_network w \<and> \<not> w_locked u) [opened w1, opened v]" by (simp add: opened_def w)
  have n: "w_locked w1" "w_mnemonic w1 = None" "w_privKey w1 = None" by (simp_all add: w1_def)
  show ?thesis
    by (rule exI [of _ st], rule exI [of _ w1], rule exI [of _ v], rule exI [of _ "opened w1"], rule exI [of _ "opened v"], rule exI [of _ m])
      (intro conjI l n v(1) u o w(1) impI unlock_entry_wrong [OF st w1])
qed

theorem unlock_restores_locked_wallet_witness:
  "ready samplePlatform sampleWallet \<and>
   (\<exists>st w1 w2. wallet_lock ''pw'' [] [] None sampleWallet = (Inr (), Some st, w1) \<and> w_privKey w1 = None
      \<and> wallet_unlock samplePlatform ''pw'' (Some st) w1 = (Inr True, w2) \<and> w_privKey w2 = Some sampleKey
      \<and> wallet_unlock samplePlatform ''px'' (Some st) w1 = (Inr False, w1))"
proof -
  have h: "\<not> w_usesLegacyDerivation sampleWallet" "w_cryptoSubtle sampleWallet = Some sampleAead" "pf_aead samplePlatform = Some sampleAead"
    "''pw'' \<noteq> []" "\<forall>k iv pt. ae_decrypt sampleAead k iv (ae_encrypt sampleAead k iv pt) = Some pt" "w_privKey sampleWallet = Some sampleKey"
    by (simp_all add: sampleWallet_def samplePlatform_def sampleAead_law)
  have t: "textEncode ''px'' = [112, 120]" "textEncode ''pw'' = [112, 119]" by code_simp+
  have "ae_decrypt sampleAead (ae_pbkdf2_sha256 sampleAead (textEncode ''px'') salt n) iv
      (ae_encrypt sampleAead (ae_pbkdf2_sha256 sampleAead (textEncode ''pw'') salt n) iv pt) = None" for salt n iv pt
    unfolding t by (simp add: sampleAead_def)
  then show ?thesis
    using unlock_restores_locked_wallet [OF sampleWallet_ready h(1-5), of "[]" "[]" None sampleRandom "''px''"] sampleWallet_ready h(6) by auto
qed

text \<open>C6: The lock button leaves the phrase in memory. Whenever the wallet screen is shown and its lock button is
  pressed, the page ends on the unlock screen with a locked wallet without private key, but the object
  still holds the phrase, from which its derivation gives the key again without any passphrase.\<close>

theorem lock_button_keeps_phrase:
  assumes "reached pf s" "se_screen s = ''wallet''"
  shows "\<exists>w w' m k. se_wallet s = Some w \<and> w_privKey w = Some k \<and> reached pf (lockWallet s) \<and> se_screen (lockWallet s) = ''unlock''
    \<and> se_wallet (lockWallet s) = Some w' \<and> w_locked w' \<and> w_privKey w' = None
    \<and> w_mnemonic w' = Some m \<and> keyOf pf (w_usesLegacyDerivation w') m = Inr k"
proof -
  obtain w where w: "se_wallet s = Some w" "\<not> w_locked w" "ready pf w"
    using reached_ok [OF assms(1)] assms(2) by (auto simp: sessionOk_def walletOk_def outerScreens_def split: option.splits)
  from w(3) obtain m k where "w_mnemonic w = Some m" "w_privKey w = Some k" "keyOf pf (w_usesLegacyDerivation w) m = Inr k"
    by (elim readyE)
  then show ?thesis using reached.lock [OF assms] w(1) by (simp add: lockWallet_def)
qed

theorem lock_button_keeps_phrase_witness:
  "reached samplePlatform sampleOpen \<and> se_screen sampleOpen = ''wallet'' \<and>
   (\<exists>w' m k. se_wallet (lockWallet sampleOpen) = Some w' \<and> w_locked w' \<and> w_privKey w' = None
    \<and> w_mnemonic w' = Some m \<and> keyOf samplePlatform (w_usesLegacyDerivation w') m = Inr k)"
  using lock_button_keeps_phrase [OF sampleOpen_reached sampleOpen_screen] sampleOpen_reached sampleOpen_screen by blast



end
